theory Spec2Isabelle
  imports Complex_Main
begin

section \<open>Calls, faults and vectors\<close>

text \<open>
  A member function of the C++ sources is modelled as a function from the object's state
  to an outcome. \<open>Returns v s\<close>: the call returns \<open>v\<close> and leaves the object in state
  \<open>s\<close>. \<open>Throws e s\<close>: a \<open>std::runtime_error\<close> leaves the call, the object stays in
  the state \<open>s\<close> it had when the exception was thrown. \<open>Undefined\<close>: the call indexes a
  \<open>std::vector\<close> or a caller's array outside its bounds, which C++ leaves undefined.
  \<open>size_t\<close> values are natural numbers; sample values of the noise gate and of the impulse
  response are real numbers (the rounding of \<open>float\<close> and \<open>double\<close> is not modelled).
\<close>

datatype fault =
    Realloc_Non_Null
  | Zero_Channels
  | Channel_Count_Mismatch nat nat
  | No_Channels_Expected nat
  | Frame_Count_Mismatch nat nat
  | Length_Error

datatype ('a, 's) outcome = Returns 'a 's | Throws fault 's | Undefined

definition obind :: "('a, 's) outcome \<Rightarrow> ('a \<Rightarrow> 's \<Rightarrow> ('b, 's) outcome) \<Rightarrow> ('b, 's) outcome" where
  "obind m f = (case m of Returns a s \<Rightarrow> f a s | Throws e s \<Rightarrow> Throws e s | Undefined \<Rightarrow> Undefined)"

text \<open>\<open>for (i = 0; i < n; i++) body(i)\<close>\<close>

primrec for_loop :: "nat \<Rightarrow> (nat \<Rightarrow> 's \<Rightarrow> (unit, 's) outcome) \<Rightarrow> 's \<Rightarrow> (unit, 's) outcome" where
  "for_loop 0 body s = Returns () s"
| "for_loop (Suc n) body s = obind (for_loop n body s) (\<lambda>_. body n)"

text \<open>\<open>v[i]\<close> read with its bounds, \<open>v[c][s]\<close> likewise, and \<open>std::vector::resize\<close>.\<close>

definition nth_opt :: "'a list \<Rightarrow> nat \<Rightarrow> 'a option" where
  "nth_opt xs i = (if i < length xs then Some (xs ! i) else None)"

definition at2 :: "'a list list \<Rightarrow> nat \<Rightarrow> nat \<Rightarrow> 'a option" where
  "at2 xss c s = (case nth_opt xss c of None \<Rightarrow> None | Some xs \<Rightarrow> nth_opt xs s)"

definition resize :: "nat \<Rightarrow> 'a \<Rightarrow> 'a list \<Rightarrow> 'a list" where
  "resize n d xs = take n xs @ replicate (n - length xs) d"

text \<open>
  A sample block handed in by the caller (\<open>SampleType** inputs\<close>) is valid for a call when
  it has \<open>numChannels\<close> channels of at least \<open>numFrames\<close> samples each.
\<close>

definition block_ok :: "'a list list \<Rightarrow> nat \<Rightarrow> nat \<Rightarrow> bool" where
  "block_ok inputs numChannels numFrames =
     (numChannels \<le> length inputs \<and> list_all (\<lambda>ch. numFrames \<le> length ch) (take numChannels inputs))"

section \<open>The block processor (coredsp.cpp, dsp.cpp)\<close>

text \<open>
  \<open>mOutputPointers\<close> is \<open>None\<close> for \<open>nullptr\<close>; an allocated array holds one entry per
  channel, \<open>Some c\<close> when the entry points at \<open>mOutputs[c].data()\<close> and \<open>None\<close> while it is
  not yet assigned.
\<close>

record 'a DSP =
  mOutputs :: "'a list list"
  mOutputPointers :: "nat option list option"
  mOutputPointersSize :: nat

definition DSP_new :: "'a DSP" where
  "DSP_new = \<lparr>mOutputs = [], mOutputPointers = None, mOutputPointersSize = 0\<rparr>"

text \<open>
  Modelled from the spec: \<open>_GetNumChannels\<close> and \<open>_GetNumFrames\<close> are declared in dsp.h,
  which is not among the sources. The spec has the output storage "resized whenever
  channel count or frame count changes from the previous call", so the two read the shape
  of the output storage.
\<close>

definition GetNumChannels :: "('a, 'z) DSP_scheme \<Rightarrow> nat" where
  "GetNumChannels d = length (mOutputs d)"

definition GetNumFrames :: "('a, 'z) DSP_scheme \<Rightarrow> nat" where
  "GetNumFrames d = (if 0 < GetNumChannels d then length (mOutputs d ! 0) else 0)"

text \<open>
  \<open>new\<close> throws rather than return \<open>nullptr\<close>, and the pointer just set to \<open>nullptr\<close> is
  \<open>nullptr\<close>: the second test of each of the next two functions never fires.
\<close>

definition AllocateOutputPointers ::
  "nat \<Rightarrow> ('a, 'z) DSP_scheme \<Rightarrow> (unit, ('a, 'z) DSP_scheme) outcome" where
  "AllocateOutputPointers numChannels d =
     (if mOutputPointers d \<noteq> None then Throws Realloc_Non_Null d
      else Returns () (d\<lparr>mOutputPointers := Some (replicate numChannels None),
                          mOutputPointersSize := numChannels\<rparr>))"

definition DeallocateOutputPointers ::
  "('a, 'z) DSP_scheme \<Rightarrow> (unit, ('a, 'z) DSP_scheme) outcome" where
  "DeallocateOutputPointers d = Returns () (d\<lparr>mOutputPointers := None, mOutputPointersSize := 0\<rparr>)"

definition ResizePointers ::
  "nat \<Rightarrow> ('a, 'z) DSP_scheme \<Rightarrow> (unit, ('a, 'z) DSP_scheme) outcome" where
  "ResizePointers numChannels d =
     (if mOutputPointersSize d = numChannels then Returns () d
      else obind (DeallocateOutputPointers d) (\<lambda>_. AllocateOutputPointers numChannels))"

definition resize_channel ::
  "nat \<Rightarrow> nat \<Rightarrow> ('a::zero, 'z) DSP_scheme \<Rightarrow> (unit, ('a, 'z) DSP_scheme) outcome" where
  "resize_channel numFrames c d =
     (case nth_opt (mOutputs d) c of
        None \<Rightarrow> Undefined
      | Some ch \<Rightarrow> Returns () (d\<lparr>mOutputs := (mOutputs d)[c := resize numFrames 0 ch]\<rparr>))"

definition PrepareBuffers ::
  "nat \<Rightarrow> nat \<Rightarrow> ('a::zero, 'z) DSP_scheme \<Rightarrow> (unit, ('a, 'z) DSP_scheme) outcome" where
  "PrepareBuffers numChannels numFrames d =
     (let oldFrames = GetNumFrames d;
          oldChannels = GetNumChannels d;
          resizeChannels = (oldChannels \<noteq> numChannels);
          resizeFrames = (resizeChannels \<or> oldFrames \<noteq> numFrames)
      in obind (if resizeChannels
                then ResizePointers numChannels (d\<lparr>mOutputs := resize numChannels [] (mOutputs d)\<rparr>)
                else Returns () d)
           (\<lambda>_ d. if resizeFrames then for_loop numChannels (resize_channel numFrames) d
                   else Returns () d))"

definition set_pointer :: "nat \<Rightarrow> ('a, 'z) DSP_scheme \<Rightarrow> (unit, ('a, 'z) DSP_scheme) outcome" where
  "set_pointer c d =
     (case mOutputPointers d of
        None \<Rightarrow> Undefined
      | Some ps \<Rightarrow> if c < length ps \<and> c < length (mOutputs d)
                   then Returns () (d\<lparr>mOutputPointers := Some (ps[c := Some c])\<rparr>)
                   else Undefined)"

definition GetPointers ::
  "('a, 'z) DSP_scheme \<Rightarrow> (nat option list option, ('a, 'z) DSP_scheme) outcome" where
  "GetPointers d =
     obind (for_loop (GetNumChannels d) set_pointer d) (\<lambda>_ d. Returns (mOutputPointers d) d)"

text \<open>
  What the caller reads at \<open>outputs[c][s]\<close> through the pointers a \<open>Process\<close> returned,
  while the processor is in state \<open>d\<close>.
\<close>

definition deref :: "('a, 'z) DSP_scheme \<Rightarrow> nat option list option \<Rightarrow> nat \<Rightarrow> nat \<Rightarrow> 'a option" where
  "deref d ptrs c s =
     (case ptrs of
        None \<Rightarrow> None
      | Some ps \<Rightarrow> (case nth_opt ps c of
                      Some (Some k) \<Rightarrow> at2 (mOutputs d) k s
                    | _ \<Rightarrow> None))"

text \<open>Writing \<open>mOutputs[c][s] = v\<close>.\<close>

definition write_output ::
  "nat \<Rightarrow> nat \<Rightarrow> 'a \<Rightarrow> ('a, 'z) DSP_scheme \<Rightarrow> (unit, ('a, 'z) DSP_scheme) outcome" where
  "write_output c s v d =
     (if c < length (mOutputs d) \<and> s < length (mOutputs d ! c)
      then Returns () (d\<lparr>mOutputs := (mOutputs d)[c := (mOutputs d ! c)[s := v]]\<rparr>)
      else Undefined)"

text \<open>
  The state every member function leaves behind, starting from the constructor: the
  output storage is rectangular and the pointer array has one entry per channel.
\<close>

definition DSP_wf :: "('a, 'z) DSP_scheme \<Rightarrow> bool" where
  "DSP_wf d =
     (list_all (\<lambda>ch. length ch = GetNumFrames d) (mOutputs d) \<and>
      mOutputPointersSize d = length (mOutputs d) \<and>
      (case mOutputPointers d of
         None \<Rightarrow> mOutputPointersSize d = 0
       | Some ps \<Rightarrow> length ps = mOutputPointersSize d))"

definition shaped :: "('a, 'z) DSP_scheme \<Rightarrow> nat \<Rightarrow> nat \<Rightarrow> bool" where
  "shaped d numChannels numFrames =
     (length (mOutputs d) = numChannels \<and>
      list_all (\<lambda>ch. length ch = numFrames) (mOutputs d) \<and>
      mOutputPointersSize d = numChannels \<and>
      (case mOutputPointers d of
         None \<Rightarrow> numChannels = 0
       | Some ps \<Rightarrow> length ps = numChannels))"

section \<open>The noise gate's gain (NoiseGate.cpp, NoiseGate.h)\<close>

definition MINIMUM_LOUDNESS_DB :: real where
  "MINIMUM_LOUDNESS_DB = - 120"

definition MINIMUM_LOUDNESS_POWER :: real where
  "MINIMUM_LOUDNESS_POWER = 10 powr (MINIMUM_LOUDNESS_DB / 10)"

definition LevelToDB :: "real \<Rightarrow> real" where
  "LevelToDB db = 10 * log 10 db"

definition DBToLevel :: "real \<Rightarrow> real" where
  "DBToLevel level = 10 powr (level / 10)"

record 'a Gain = "'a DSP" +
  gain_mGainReductionDB :: "'a list list"

definition Gain_new :: "real Gain" where
  "Gain_new = \<lparr>mOutputs = [], mOutputPointers = None, mOutputPointersSize = 0,
               gain_mGainReductionDB = []\<rparr>"

definition SetGainReductionDB :: "'a list list \<Rightarrow> ('a, 'z) Gain_scheme \<Rightarrow> ('a, 'z) Gain_scheme" where
  "SetGainReductionDB gainReductionDB g = g\<lparr>gain_mGainReductionDB := gainReductionDB\<rparr>"

text \<open>The three tests at the head of \<open>Gain::Process\<close>, in the order of the source.\<close>

definition Gain_validate ::
  "nat \<Rightarrow> nat \<Rightarrow> (real, 'z) Gain_scheme \<Rightarrow> (unit, (real, 'z) Gain_scheme) outcome" where
  "Gain_validate numChannels numFrames g =
     (if length (gain_mGainReductionDB g) \<noteq> numChannels
      then Throws (Channel_Count_Mismatch (length (gain_mGainReductionDB g)) numChannels) g
      else if length (gain_mGainReductionDB g) = 0 \<and> 0 < numFrames
      then Throws (No_Channels_Expected numFrames) g
      else (case nth_opt (gain_mGainReductionDB g) 0 of
              None \<Rightarrow> Undefined
            | Some row0 \<Rightarrow>
                if length row0 \<noteq> numFrames
                then Throws (Frame_Count_Mismatch (length row0) numFrames) g
                else Returns () g))"

definition apply_gain ::
  "real list list \<Rightarrow> nat \<Rightarrow> nat \<Rightarrow> (real, 'z) Gain_scheme \<Rightarrow> (unit, (real, 'z) Gain_scheme) outcome" where
  "apply_gain inputs c s g =
     (case (at2 (gain_mGainReductionDB g) c s, at2 inputs c s) of
        (Some r, Some x) \<Rightarrow> write_output c s (DBToLevel r * x) g
      | _ \<Rightarrow> Undefined)"

text \<open>The sample the loop of \<open>Gain::Process\<close> stores at \<open>mOutputs[c][s]\<close>.\<close>

definition gain_val :: "real list list \<Rightarrow> real list list \<Rightarrow> nat \<Rightarrow> nat \<Rightarrow> real" where
  "gain_val m inputs c s = DBToLevel (m ! c ! s) * inputs ! c ! s"

definition Gain_Process ::
  "real list list \<Rightarrow> nat \<Rightarrow> nat \<Rightarrow> (real, 'z) Gain_scheme
     \<Rightarrow> (nat option list option, (real, 'z) Gain_scheme) outcome" where
  "Gain_Process inputs numChannels numFrames g =
     obind (PrepareBuffers numChannels numFrames g) (\<lambda>_ g.
     obind (Gain_validate numChannels numFrames g) (\<lambda>_ g.
     obind (for_loop numChannels (\<lambda>c. for_loop numFrames (apply_gain inputs c)) g) (\<lambda>_.
     GetPointers)))"

text \<open>
  The shape mismatch in the words of the specification: the matrix's channel count
  differs from \<open>numChannels\<close>, or some channel's frame count differs from \<open>numFrames\<close>.
\<close>

definition spec_shape_mismatch :: "'a list list \<Rightarrow> nat \<Rightarrow> nat \<Rightarrow> bool" where
  "spec_shape_mismatch m numChannels numFrames =
     (length m \<noteq> numChannels \<or> list_ex (\<lambda>ch. length ch \<noteq> numFrames) m)"

definition is_thrown :: "('a, 's) outcome \<Rightarrow> bool" where
  "is_thrown r = (case r of Throws e s \<Rightarrow> True | _ \<Rightarrow> False)"

definition is_returned :: "('a, 's) outcome \<Rightarrow> bool" where
  "is_returned r = (case r of Returns v s \<Rightarrow> True | _ \<Rightarrow> False)"

section \<open>The history extension (coredsp.cpp, dsp.cpp)\<close>

text \<open>
  \<open>size_t\<close> has 64 bits. Its subtraction wraps around below zero, and the product
  \<open>10 * repeatSize\<close> of \<open>_EnsureHistorySize\<close> wraps around at \<open>2 ^ 64\<close>. The sum of a cursor
  and a block length is taken in the natural numbers.
\<close>

definition size_t_sub :: "nat \<Rightarrow> nat \<Rightarrow> nat" where
  "size_t_sub a b = (if b \<le> a then a - b else a + 2 ^ 64 - b)"

record 'a History = "'a DSP" +
  mHistoryRequired :: nat
  mHistoryIndex :: nat
  mHistory :: "real list"

definition History_new :: "real History" where
  "History_new = \<lparr>mOutputs = [], mOutputPointers = None, mOutputPointersSize = 0,
                  mHistoryRequired = 0, mHistoryIndex = 0, mHistory = []\<rparr>"

definition AdvanceHistoryIndex :: "nat \<Rightarrow> ('a, 'z) History_scheme \<Rightarrow> ('a, 'z) History_scheme" where
  "AdvanceHistoryIndex bufferSize h = h\<lparr>mHistoryIndex := mHistoryIndex h + bufferSize\<rparr>"

text \<open>
  \<open>std::vector<float>::max_size()\<close>, the value of a 64-bit target:
  \<open>PTRDIFF_MAX / sizeof(float)\<close>. A \<open>resize\<close> to more throws \<open>std::length_error\<close> and leaves
  the vector as it was; a \<open>resize\<close> to at most \<open>max_size\<close> is taken to find the memory.
\<close>

definition max_size :: nat where
  "max_size = 2 ^ 61 - 1"

definition EnsureHistorySize ::
  "nat \<Rightarrow> ('a, 'z) History_scheme \<Rightarrow> (unit, ('a, 'z) History_scheme) outcome" where
  "EnsureHistorySize bufferSize h =
     (let repeatSize = max bufferSize (mHistoryRequired h);
          requiredHistoryArraySize = (10 * repeatSize) mod 2 ^ 64
      in if length (mHistory h) < requiredHistoryArraySize
         then if max_size < requiredHistoryArraySize
              then Throws Length_Error h
              else Returns () (h\<lparr>mHistory := replicate requiredHistoryArraySize 0,
                                 mHistoryIndex := mHistoryRequired h\<rparr>)
         else Returns () h)"

text \<open>\<open>mHistory[i] = mHistory[j]\<close> with \<open>j = j0 + i\<close>, the body of the loop of \<open>_RewindHistory\<close>.\<close>

definition copy_back ::
  "nat \<Rightarrow> nat \<Rightarrow> ('a, 'z) History_scheme \<Rightarrow> (unit, ('a, 'z) History_scheme) outcome" where
  "copy_back j0 i h =
     (case nth_opt (mHistory h) (j0 + i) of
        None \<Rightarrow> Undefined
      | Some v \<Rightarrow> if i < length (mHistory h)
                  then Returns () (h\<lparr>mHistory := (mHistory h)[i := v]\<rparr>)
                  else Undefined)"

definition RewindHistory :: "('a, 'z) History_scheme \<Rightarrow> (unit, ('a, 'z) History_scheme) outcome" where
  "RewindHistory h =
     obind (for_loop (mHistoryRequired h)
              (copy_back (size_t_sub (mHistoryIndex h) (mHistoryRequired h))) h)
       (\<lambda>_ h. Returns () (h\<lparr>mHistoryIndex := mHistoryRequired h\<rparr>))"

text \<open>\<open>mHistory[j] = (float)inputs[0][i]\<close> with \<open>j = mHistoryIndex + i\<close>.\<close>

definition store_input ::
  "real list list \<Rightarrow> nat \<Rightarrow> ('a, 'z) History_scheme \<Rightarrow> (unit, ('a, 'z) History_scheme) outcome" where
  "store_input inputs i h =
     (case at2 inputs 0 i of
        None \<Rightarrow> Undefined
      | Some x \<Rightarrow> if mHistoryIndex h + i < length (mHistory h)
                  then Returns () (h\<lparr>mHistory := (mHistory h)[mHistoryIndex h + i := x]\<rparr>)
                  else Undefined)"

definition UpdateHistory ::
  "real list list \<Rightarrow> nat \<Rightarrow> nat \<Rightarrow> ('a, 'z) History_scheme \<Rightarrow> (unit, ('a, 'z) History_scheme) outcome" where
  "UpdateHistory inputs numChannels numFrames h0 =
     obind (EnsureHistorySize numFrames h0) (\<lambda>_ h.
       if numChannels < 1 then Throws Zero_Channels h
       else obind (if length (mHistory h) \<le> mHistoryIndex h + numFrames
                   then RewindHistory h else Returns () h)
              (\<lambda>_. for_loop numFrames (store_input inputs)))"

text \<open>
  The ring can hold the cursor: either nothing was allocated yet, or the
  \<open>mHistoryRequired\<close> samples before the cursor lie inside the ring.
\<close>

definition History_wf :: "('a, 'z) History_scheme \<Rightarrow> bool" where
  "History_wf h =
     (mHistory h = [] \<or>
      (mHistoryRequired h \<le> mHistoryIndex h \<and> mHistoryIndex h \<le> length (mHistory h)))"

text \<open>The \<open>mHistoryRequired\<close> most recent samples: those just before the cursor.\<close>

definition recent :: "('a, 'z) History_scheme \<Rightarrow> real list" where
  "recent h = take (mHistoryRequired h) (drop (mHistoryIndex h - mHistoryRequired h) (mHistory h))"

section \<open>The impulse response (ImpulseResponse.cpp, ImpulseResponse.h)\<close>

text \<open>
  The class is modelled at \<open>SampleType = float\<close>, where the \<open>memcpy\<close> of
  \<open>sizeof(float) * size\<close> bytes copies the whole vector. \<open>wav::Load\<close> and
  \<open>ResampleCubic\<close> (wav.h, Resample.h) are not among the sources: the resampler is a
  parameter \<open>resample\<close>, taking the padded audio, the two rates and the start phase.
\<close>

datatype LoadReturnCode = SUCCESS | ERROR_OTHER

record 'a ImpulseResponse = "'a History" +
  mWavState :: LoadReturnCode
  mRawAudio :: "real list"
  mRawAudioSampleRate :: real
  mResampled :: "real list"
  ir_mSampleRate :: real
  mWeight :: "real list"

record IRData =
  irdata_mRawAudio :: "real list"
  irdata_mRawAudioSampleRate :: real

definition mMaxLength :: nat where
  "mMaxLength = 8192"

text \<open>\<open>mWeight[j] = gain * mResampled[i]\<close> with \<open>j = irLength - 1 - i\<close>.\<close>

definition set_weight ::
  "nat \<Rightarrow> real \<Rightarrow> nat \<Rightarrow> ('a, 'z) ImpulseResponse_scheme \<Rightarrow> (unit, ('a, 'z) ImpulseResponse_scheme) outcome" where
  "set_weight irLength gain i r =
     (let j = size_t_sub (size_t_sub irLength 1) i
      in case nth_opt (mResampled r) i of
           None \<Rightarrow> Undefined
         | Some x \<Rightarrow> if j < length (mWeight r)
                     then Returns () (r\<lparr>mWeight := (mWeight r)[j := gain * x]\<rparr>)
                     else Undefined)"

definition SetWeights ::
  "(real list \<Rightarrow> real \<Rightarrow> real \<Rightarrow> real \<Rightarrow> real list) \<Rightarrow> ('a, 'z) ImpulseResponse_scheme
     \<Rightarrow> (unit, ('a, 'z) ImpulseResponse_scheme) outcome" where
  "SetWeights resample r0 =
     (let r = (if mRawAudioSampleRate r0 = ir_mSampleRate r0
               then r0\<lparr>mResampled := mRawAudio r0\<rparr>
               else r0\<lparr>mResampled :=
                        resample (0 # mRawAudio r0 @ [0]) (mRawAudioSampleRate r0) (ir_mSampleRate r0) 0\<rparr>);
          irLength = min (length (mResampled r)) mMaxLength;
          gain = 10 powr (- 18 * 0.05) * 48000 / ir_mSampleRate r
      in obind (for_loop irLength (set_weight irLength gain) (r\<lparr>mWeight := resize irLength 0 (mWeight r)\<rparr>))
           (\<lambda>_ r. Returns () (r\<lparr>mHistoryRequired := size_t_sub irLength 1\<rparr>)))"

definition ImpulseResponse_of_data ::
  "(real list \<Rightarrow> real \<Rightarrow> real \<Rightarrow> real \<Rightarrow> real list) \<Rightarrow> IRData \<Rightarrow> real
     \<Rightarrow> (unit, real ImpulseResponse) outcome" where
  "ImpulseResponse_of_data resample irData sampleRate =
     SetWeights resample
       \<lparr>mOutputs = [], mOutputPointers = None, mOutputPointersSize = 0,
        mHistoryRequired = 0, mHistoryIndex = 0, mHistory = [],
        mWavState = SUCCESS, mRawAudio = irdata_mRawAudio irData,
        mRawAudioSampleRate = irdata_mRawAudioSampleRate irData, mResampled = [],
        ir_mSampleRate = sampleRate, mWeight = []\<rparr>"

text \<open>\<open>mWeight.dot(input)\<close>, and the loop body that stores it at \<open>mOutputs[0][i]\<close>.\<close>

definition dot :: "real list \<Rightarrow> real list \<Rightarrow> real" where
  "dot w xs = sum_list (map2 (*) w xs)"

definition convolve_frame ::
  "nat \<Rightarrow> nat \<Rightarrow> (real, 'z) ImpulseResponse_scheme \<Rightarrow> (unit, (real, 'z) ImpulseResponse_scheme) outcome" where
  "convolve_frame j0 i r =
     (let j = j0 + i;
          n = (mHistoryRequired r + 1) mod 2 ^ 64
      in if j + n \<le> length (mHistory r) \<and> length (mWeight r) = n
         then write_output 0 i (dot (mWeight r) (take n (drop j (mHistory r)))) r
         else Undefined)"

definition copy_channel0 ::
  "nat \<Rightarrow> nat \<Rightarrow> ('a, 'z) DSP_scheme \<Rightarrow> (unit, ('a, 'z) DSP_scheme) outcome" where
  "copy_channel0 c i d =
     (case at2 (mOutputs d) 0 i of
        None \<Rightarrow> Undefined
      | Some v \<Rightarrow> write_output c i v d)"

definition IR_Process ::
  "real list list \<Rightarrow> nat \<Rightarrow> nat \<Rightarrow> (real, 'z) ImpulseResponse_scheme
     \<Rightarrow> (nat option list option, (real, 'z) ImpulseResponse_scheme) outcome" where
  "IR_Process inputs numChannels numFrames r =
     obind (PrepareBuffers numChannels numFrames r) (\<lambda>_ r.
     obind (UpdateHistory inputs numChannels numFrames r) (\<lambda>_ r.
     obind (for_loop numFrames
              (convolve_frame (size_t_sub (mHistoryIndex r) (mHistoryRequired r))) r) (\<lambda>_ r.
     obind (for_loop (numChannels - 1) (\<lambda>k. for_loop numFrames (copy_channel0 (Suc k))) r) (\<lambda>_ r.
     GetPointers (AdvanceHistoryIndex numFrames r)))))"

text \<open>
  The engine after a load of a non-empty impulse: the weights are the \<open>mHistoryRequired + 1\<close>
  taps \<open>_SetWeights\<close> left, at most \<open>mMaxLength\<close> of them.
\<close>

definition IR_wf :: "(real, 'z) ImpulseResponse_scheme \<Rightarrow> bool" where
  "IR_wf r =
     (DSP_wf r \<and> History_wf r \<and> mWeight r \<noteq> [] \<and>
      mHistoryRequired r + 1 = length (mWeight r) \<and> length (mWeight r) \<le> mMaxLength)"

text \<open>The block the caller reads through the pointers a \<open>Process\<close> returned.\<close>

definition read_block ::
  "('a, 'z) DSP_scheme \<Rightarrow> nat option list option \<Rightarrow> nat \<Rightarrow> nat \<Rightarrow> 'a option list list" where
  "read_block d ptrs numChannels numFrames =
     map (\<lambda>c. map (\<lambda>s. deref d ptrs c s) [0..<numFrames]) [0..<numChannels]"

text \<open>
  A signal fed block by block: each element is one call \<open>Process(inputs, numChannels,
  numFrames)\<close>; the result lists what the caller reads after each call.
\<close>

fun IR_run ::
  "(real list list \<times> nat \<times> nat) list \<Rightarrow> (real, 'z) ImpulseResponse_scheme
     \<Rightarrow> (real option list list list, (real, 'z) ImpulseResponse_scheme) outcome" where
  "IR_run [] r = Returns [] r"
| "IR_run ((inputs, numChannels, numFrames) # calls) r =
     obind (IR_Process inputs numChannels numFrames r) (\<lambda>ptrs r1.
     obind (IR_run calls r1) (\<lambda>outs r2.
     Returns (read_block r1 ptrs numChannels numFrames # outs) r2))"

text \<open>
  The same signal with no rewind ever triggered, in the words of the specification: the
  history is an unbounded tape to which every block is appended, and each output frame is
  the dot product of the weights with the window of the tape that ends at that frame. The
  state is the capacity \<open>_EnsureHistorySize\<close> last allocated and the tape since then; a
  reallocation starts a fresh tape of \<open>historyRequired\<close> zeros, as \<open>_EnsureHistorySize\<close>
  does.
\<close>

definition norewind_Process ::
  "real list \<Rightarrow> real list \<Rightarrow> nat \<times> real list \<Rightarrow> real list \<times> (nat \<times> real list)" where
  "norewind_Process w block st =
     (let H = length w - 1;
          need = 10 * max (length block) H;
          tape = (if fst st < need then replicate H 0 else snd st);
          cap = (if fst st < need then need else fst st);
          tape' = tape @ block
      in (map (\<lambda>i. dot w (take (H + 1) (drop (length tape - H + i) tape'))) [0..<length block],
          (cap, tape')))"

fun norewind_run ::
  "real list \<Rightarrow> (real list list \<times> nat \<times> nat) list \<Rightarrow> nat \<times> real list \<Rightarrow> real option list list list" where
  "norewind_run w [] st = []"
| "norewind_run w ((inputs, numChannels, numFrames) # calls) st =
     (let res = norewind_Process w (take numFrames (inputs ! 0)) st
      in replicate numChannels (map Some (fst res)) # norewind_run w calls (snd res))"

text \<open>
  The ring and the tape hold the same history: the same capacity, and the
  \<open>mHistoryRequired\<close> samples before the cursor are the last ones of the tape.
\<close>

definition same_history :: "('a, 'z) History_scheme \<Rightarrow> nat \<times> real list \<Rightarrow> bool" where
  "same_history h st =
     (fst st = length (mHistory h) \<and>
      (mHistory h = [] \<or>
       (mHistoryRequired h \<le> length (snd st) \<and>
        recent h = drop (length (snd st) - mHistoryRequired h) (snd st))))"

text \<open>
  The calls of a run: each has a channel, a valid input block, and a block length for which
  \<open>_EnsureHistorySize\<close> can size the ring (ten times it is a size a vector can take).
\<close>

definition calls_ok :: "(real list list \<times> nat \<times> nat) list \<Rightarrow> bool" where
  "calls_ok calls = list_all (\<lambda>(inputs, numChannels, numFrames).
       1 \<le> numChannels \<and> block_ok inputs numChannels numFrames \<and> 10 * numFrames \<le> max_size) calls"

section \<open>The noise gate's trigger (NoiseGate.cpp, NoiseGate.h)\<close>

datatype State = MOVING | HOLDING

record TriggerParams =
  mTime :: real
  mThreshold :: real
  mRatio :: real
  mOpenTime :: real
  mHoldTime :: real
  mCloseTime :: real

text \<open>
  \<open>mGainListeners\<close> is a set of pointers to \<open>Gain\<close> objects: a list of addresses without
  repetition. The gains themselves live in a store outside the trigger.
\<close>

record 'a Trigger = "'a DSP" +
  mParams :: TriggerParams
  mState :: "State list"
  mLevel :: "real list"
  mGainReductionDB :: "real list list"
  mLastGainReductionDB :: "real list"
  mSampleRate :: real
  mTimeHeld :: "real list"
  mGainListeners :: "nat list"

definition Trigger_new :: "real Trigger" where
  "Trigger_new =
     \<lparr>mOutputs = [], mOutputPointers = None, mOutputPointersSize = 0,
      mParams = \<lparr>mTime = 0.05, mThreshold = - 60, mRatio = 1.5, mOpenTime = 0.002,
                  mHoldTime = 0.050, mCloseTime = 0.050\<rparr>,
      mState = [], mLevel = [], mGainReductionDB = [], mLastGainReductionDB = [],
      mSampleRate = 0, mTimeHeld = [], mGainListeners = []\<rparr>"

definition SetParams :: "TriggerParams \<Rightarrow> ('a, 'z) Trigger_scheme \<Rightarrow> ('a, 'z) Trigger_scheme" where
  "SetParams params t = t\<lparr>mParams := params\<rparr>"

definition SetSampleRate :: "real \<Rightarrow> ('a, 'z) Trigger_scheme \<Rightarrow> ('a, 'z) Trigger_scheme" where
  "SetSampleRate sampleRate t = t\<lparr>mSampleRate := sampleRate\<rparr>"

definition AddListener :: "nat \<Rightarrow> ('a, 'z) Trigger_scheme \<Rightarrow> ('a, 'z) Trigger_scheme" where
  "AddListener gain t =
     (if gain \<in> set (mGainListeners t) then t
      else t\<lparr>mGainListeners := gain # mGainListeners t\<rparr>)"

definition GetGainReduction :: "TriggerParams \<Rightarrow> real \<Rightarrow> real" where
  "GetGainReduction p levelDB =
     (let threshold = mThreshold p
      in if levelDB < threshold then - (mRatio p) * (levelDB - threshold) * (levelDB - threshold)
         else 0)"

definition GetMaxGainReduction :: "TriggerParams \<Rightarrow> real" where
  "GetMaxGainReduction p = GetGainReduction p MINIMUM_LOUDNESS_DB"

text \<open>\<open>std::clamp(v, lo, hi)\<close>\<close>

definition clamp :: "real \<Rightarrow> real \<Rightarrow> real \<Rightarrow> real" where
  "clamp v lo hi = (if v < lo then lo else if hi < v then hi else v)"

text \<open>"A bunch of numbers we'll use a few times": the constants \<open>Process\<close> computes per block.\<close>

record numbers =
  alpha :: real
  beta :: real
  threshold :: real
  dt :: real
  maxHold :: real
  maxGainReduction :: real
  dOpen :: real
  dClose :: real

definition block_numbers :: "('a, 'z) Trigger_scheme \<Rightarrow> numbers" where
  "block_numbers t =
     \<lparr>alpha = 0.5 powr (1 / (mTime (mParams t) * mSampleRate t)),
      beta = 1 - 0.5 powr (1 / (mTime (mParams t) * mSampleRate t)),
      threshold = mThreshold (mParams t),
      dt = 1 / mSampleRate t,
      maxHold = mHoldTime (mParams t),
      maxGainReduction = GetMaxGainReduction (mParams t),
      dOpen = - GetMaxGainReduction (mParams t) / mOpenTime (mParams t) * (1 / mSampleRate t),
      dClose = GetMaxGainReduction (mParams t) / mCloseTime (mParams t) * (1 / mSampleRate t)\<rparr>"

text \<open>
  The body of the main loop on one channel: from the channel's level, state, last gain
  reduction and held time and the input sample \<open>x\<close> to their new values and the gain
  reduction written to the matrix.
\<close>

definition gate_step ::
  "numbers \<Rightarrow> TriggerParams \<Rightarrow> real \<Rightarrow> real \<times> State \<times> real \<times> real
     \<Rightarrow> (real \<times> State \<times> real \<times> real) \<times> real" where
  "gate_step k p x ch =
     (case ch of (level0, state, lastGR, held) \<Rightarrow>
      let level = clamp (alpha k * level0 + beta k * (x * x)) MINIMUM_LOUDNESS_POWER 1000;
          levelDB = LevelToDB level
      in if state = HOLDING
         then (if levelDB < threshold k
               then ((level, if maxHold k \<le> held + dt k then MOVING else HOLDING, 0, held + dt k), 0)
               else ((level, HOLDING, 0, 0), 0))
         else (let targetGainReduction = GetGainReduction p levelDB
               in if lastGR < targetGainReduction
                  then (let dGain = clamp (0.5 * (targetGainReduction - lastGR)) 0 (dOpen k)
                        in if 0 \<le> lastGR + dGain
                           then ((level, HOLDING, 0, 0), 0)
                           else ((level, MOVING, lastGR + dGain, held), lastGR + dGain))
                  else if targetGainReduction < lastGR
                  then (let dGain = clamp (0.5 * (targetGainReduction - lastGR)) (dClose k) 0;
                            moved = (if lastGR + dGain < maxGainReduction k
                                     then maxGainReduction k else lastGR + dGain)
                        in ((level, MOVING, moved, held), moved))
                  else ((level, MOVING, lastGR, held), lastGR)))"

text \<open>
  The loop body at channel \<open>c\<close> and frame \<open>s\<close>: it reads the per-channel vectors and the
  input at their indices and writes them back together with \<open>mGainReductionDB[c][s]\<close>.
\<close>

definition Trigger_frame ::
  "real list list \<Rightarrow> numbers \<Rightarrow> nat \<Rightarrow> nat \<Rightarrow> ('a, 'z) Trigger_scheme
     \<Rightarrow> (unit, ('a, 'z) Trigger_scheme) outcome" where
  "Trigger_frame inputs k c s t =
     (case (nth_opt (mLevel t) c, at2 inputs c s, nth_opt (mState t) c,
            nth_opt (mLastGainReductionDB t) c, nth_opt (mTimeHeld t) c) of
        (Some level, Some x, Some state, Some lastGR, Some held) \<Rightarrow>
          (case gate_step k (mParams t) x (level, state, lastGR, held) of
             ((level', state', last', held'), reduction) \<Rightarrow>
               if c < length (mGainReductionDB t) \<and> s < length (mGainReductionDB t ! c)
               then Returns ()
                      (t\<lparr>mLevel := (mLevel t)[c := level'],
                         mState := (mState t)[c := state'],
                         mLastGainReductionDB := (mLastGainReductionDB t)[c := last'],
                         mTimeHeld := (mTimeHeld t)[c := held'],
                         mGainReductionDB :=
                           (mGainReductionDB t)[c := (mGainReductionDB t ! c)[s := reduction]]\<rparr>)
               else Undefined)
      | _ \<Rightarrow> Undefined)"

definition Trigger_PrepareBuffers ::
  "nat \<Rightarrow> nat \<Rightarrow> (real, 'z) Trigger_scheme \<Rightarrow> (unit, (real, 'z) Trigger_scheme) outcome" where
  "Trigger_PrepareBuffers numChannels numFrames t0 =
     (let oldChannels = GetNumChannels t0;
          oldFrames = GetNumFrames t0
      in obind (PrepareBuffers numChannels numFrames t0) (\<lambda>_ t.
           let updateChannels = (numChannels \<noteq> oldChannels);
               updateFrames = (updateChannels \<or> numFrames \<noteq> oldFrames)
           in if updateChannels \<or> updateFrames
              then (let maxGainReduction = GetMaxGainReduction (mParams t);
                        t1 = (if updateChannels
                              then t\<lparr>mGainReductionDB := resize numChannels [] (mGainReductionDB t),
                                      mLastGainReductionDB := replicate numChannels maxGainReduction,
                                      mState := replicate numChannels MOVING,
                                      mLevel := replicate numChannels MINIMUM_LOUDNESS_POWER,
                                      mTimeHeld := replicate numChannels 0\<rparr>
                              else t)
                    in Returns ()
                         (if updateFrames
                          then t1\<lparr>mGainReductionDB :=
                                     map (\<lambda>row. replicate numFrames maxGainReduction) (mGainReductionDB t1)\<rparr>
                          else t1))
              else Returns () t))"

text \<open>\<open>Process\<close> up to the end of the main algorithm.\<close>

definition Trigger_compute ::
  "real list list \<Rightarrow> nat \<Rightarrow> nat \<Rightarrow> (real, 'z) Trigger_scheme \<Rightarrow> (unit, (real, 'z) Trigger_scheme) outcome" where
  "Trigger_compute inputs numChannels numFrames t0 =
     obind (Trigger_PrepareBuffers numChannels numFrames t0) (\<lambda>_ t.
       for_loop numChannels (\<lambda>c. for_loop numFrames (Trigger_frame inputs (block_numbers t) c)) t)"

text \<open>
  The trigger and the store of the gains its listeners point into. A listener whose
  address holds no gain is a dangling pointer.
\<close>

record world =
  trig :: "real Trigger"
  gains :: "nat \<Rightarrow> real Gain option"

definition in_trigger ::
  "(real Trigger \<Rightarrow> ('a, real Trigger) outcome) \<Rightarrow> world \<Rightarrow> ('a, world) outcome" where
  "in_trigger f w =
     (case f (trig w) of
        Returns v t \<Rightarrow> Returns v (w\<lparr>trig := t\<rparr>)
      | Throws e t \<Rightarrow> Throws e (w\<lparr>trig := t\<rparr>)
      | Undefined \<Rightarrow> Undefined)"

text \<open>\<open>(*gain)->SetGainReductionDB(this->mGainReductionDB)\<close> for the \<open>i\<close>-th listener.\<close>

definition notify :: "nat \<Rightarrow> world \<Rightarrow> (unit, world) outcome" where
  "notify i w =
     (case nth_opt (mGainListeners (trig w)) i of
        None \<Rightarrow> Undefined
      | Some a \<Rightarrow> (case gains w a of
                     None \<Rightarrow> Undefined
                   | Some g \<Rightarrow> Returns ()
                       (w\<lparr>gains := (gains w)(a \<mapsto> SetGainReductionDB (mGainReductionDB (trig w)) g)\<rparr>)))"

text \<open>\<open>std::memcpy(mOutputs[c].data(), inputs[c], numFrames * sizeof(SampleType))\<close>\<close>

definition copy_input ::
  "'a list list \<Rightarrow> nat \<Rightarrow> nat \<Rightarrow> ('a, 'z) DSP_scheme \<Rightarrow> (unit, ('a, 'z) DSP_scheme) outcome" where
  "copy_input inputs numFrames c d =
     (case (nth_opt inputs c, nth_opt (mOutputs d) c) of
        (Some src, Some dst) \<Rightarrow>
          if numFrames \<le> length src \<and> numFrames \<le> length dst
          then Returns () (d\<lparr>mOutputs := (mOutputs d)[c := take numFrames src @ drop numFrames dst]\<rparr>)
          else Undefined
      | _ \<Rightarrow> Undefined)"

definition Trigger_Process ::
  "real list list \<Rightarrow> nat \<Rightarrow> nat \<Rightarrow> world \<Rightarrow> (nat option list option, world) outcome" where
  "Trigger_Process inputs numChannels numFrames w0 =
     obind (in_trigger (Trigger_compute inputs numChannels numFrames) w0) (\<lambda>_ w.
     obind (for_loop (length (mGainListeners (trig w))) notify w) (\<lambda>_.
     in_trigger (\<lambda>t. obind (for_loop numChannels (copy_input inputs numFrames) t) (\<lambda>_. GetPointers))))"

text \<open>
  The trigger's vectors have one entry per channel of the output storage, and the rows of
  its matrix one entry per frame; every listener points at a gain.
\<close>

definition Trigger_wf :: "('a, 'z) Trigger_scheme \<Rightarrow> bool" where
  "Trigger_wf t =
     (DSP_wf t \<and>
      length (mGainReductionDB t) = length (mOutputs t) \<and>
      list_all (\<lambda>row. length row = GetNumFrames t) (mGainReductionDB t) \<and>
      length (mState t) = length (mOutputs t) \<and>
      length (mLevel t) = length (mOutputs t) \<and>
      length (mLastGainReductionDB t) = length (mOutputs t) \<and>
      length (mTimeHeld t) = length (mOutputs t))"

definition world_wf :: "world \<Rightarrow> bool" where
  "world_wf w =
     (Trigger_wf (trig w) \<and> list_all (\<lambda>a. gains w a \<noteq> None) (mGainListeners (trig w)))"

text \<open>The bounds of the gain reduction: the last gain reduction of every channel lies between
  the maximum gain reduction of the current parameters and 0.\<close>

definition reduction_in_range :: "TriggerParams \<Rightarrow> real \<Rightarrow> bool" where
  "reduction_in_range p g = (GetMaxGainReduction p \<le> g \<and> g \<le> 0)"

definition params_ok :: "('a, 'z) Trigger_scheme \<Rightarrow> bool" where
  "params_ok t =
     (0 < mRatio (mParams t) \<and> MINIMUM_LOUDNESS_DB < mThreshold (mParams t) \<and>
      0 < mOpenTime (mParams t) \<and> 0 < mCloseTime (mParams t) \<and> 0 < mSampleRate t)"

section \<open>The recursive linear filter (RecursiveLinearFilter.cpp, RecursiveLinearFilter.h)\<close>

text \<open>
  The filter is modelled for any sample type with a zero, an addition and a
  multiplication; \<open>std::isnan\<close> is the parameter \<open>isnan\<close>. Nothing is assumed about the
  arithmetic, so the model covers \<open>float\<close> and \<open>double\<close> with their rounding, infinities
  and NaN. \<open>mInputStart\<close> and \<open>mOutputStart\<close> are \<open>long\<close>: integers.
\<close>

record 'a Filter = "'a DSP" +
  mInputCoefficients :: "'a list"
  mOutputCoefficients :: "'a list"
  mInputHistory :: "'a list list"
  mOutputHistory :: "'a list list"
  mInputStart :: int
  mOutputStart :: int

definition Base_new :: "nat \<Rightarrow> nat \<Rightarrow> ('a::zero) Filter" where
  "Base_new inputDegree outputDegree =
     \<lparr>mOutputs = [], mOutputPointers = None, mOutputPointersSize = 0,
      mInputCoefficients = replicate inputDegree 0,
      mOutputCoefficients = replicate outputDegree 0,
      mInputHistory = [], mOutputHistory = [],
      mInputStart = int inputDegree, mOutputStart = int outputDegree\<rparr>"

definition GetInputDegree :: "('a, 'z) Filter_scheme \<Rightarrow> nat" where
  "GetInputDegree f = length (mInputCoefficients f)"

definition GetOutputDegree :: "('a, 'z) Filter_scheme \<Rightarrow> nat" where
  "GetOutputDegree f = length (mOutputCoefficients f)"

definition Filter_PrepareBuffers ::
  "nat \<Rightarrow> nat \<Rightarrow> ('a::zero, 'z) Filter_scheme \<Rightarrow> (unit, ('a, 'z) Filter_scheme) outcome" where
  "Filter_PrepareBuffers numChannels numFrames f0 =
     (let newChannels = (GetNumChannels f0 \<noteq> numChannels)
      in obind (PrepareBuffers numChannels numFrames f0) (\<lambda>_ f.
           if newChannels
           then Returns ()
                  (f\<lparr>mInputHistory := replicate numChannels (replicate (GetInputDegree f) 0),
                     mOutputHistory := replicate numChannels (replicate (GetOutputDegree f) 0)\<rparr>)
           else Returns () f))"

text \<open>"Prevent a NaN from jamming the filter!"\<close>

definition nan_guard :: "('a \<Rightarrow> bool) \<Rightarrow> 'a::zero \<Rightarrow> 'a" where
  "nan_guard isnan out = (if isnan out then 0 else out)"

text \<open>\<open>start -= 1; if (start < 0) start = degree - 1;\<close>\<close>

definition next_start :: "int \<Rightarrow> nat \<Rightarrow> int" where
  "next_start start degree = (if start - 1 < 0 then int degree - 1 else start - 1)"

text \<open>\<open>mInputHistory[c][inputStart] = inputs[c][s]\<close>: "Store current input".\<close>

definition store_current_input ::
  "'a list list \<Rightarrow> nat \<Rightarrow> nat \<Rightarrow> int \<Rightarrow> ('a, 'z) Filter_scheme \<Rightarrow> (unit, ('a, 'z) Filter_scheme) outcome" where
  "store_current_input inputs c s inputStart f =
     (case (at2 inputs c s, nth_opt (mInputHistory f) c) of
        (Some x, Some ih) \<Rightarrow>
          if 0 \<le> inputStart \<and> nat inputStart < length ih
          then Returns () (f\<lparr>mInputHistory := (mInputHistory f)[c := ih[nat inputStart := x]]\<rparr>)
          else Undefined
      | _ \<Rightarrow> Undefined)"

text \<open>
  \<open>out += coefficients[i] * history[c][(start + i) % degree]\<close> for the indices \<open>i\<close> in turn,
  the degree being the number of coefficients; \<open>None\<close> when a read is out of range.
\<close>

definition add_terms ::
  "('a::{plus,times}) list \<Rightarrow> 'a list list \<Rightarrow> nat \<Rightarrow> nat \<Rightarrow> nat list \<Rightarrow> 'a \<Rightarrow> 'a option" where
  "add_terms coefficients history c start indices out0 =
     fold (\<lambda>i acc. case acc of
                     None \<Rightarrow> None
                   | Some out \<Rightarrow>
                       (case (nth_opt coefficients i,
                              at2 history c ((start + i) mod length coefficients)) of
                          (Some a, Some h) \<Rightarrow> Some (out + a * h)
                        | _ \<Rightarrow> None))
       indices (Some out0)"

text \<open>
  The value of \<open>out\<close> before the NaN test: from 0, the input terms for \<open>i = 0, ...\<close>, then the
  output terms for \<open>i = 1, ...\<close>.
\<close>

definition accumulate ::
  "('a::{zero,plus,times}, 'z) Filter_scheme \<Rightarrow> nat \<Rightarrow> nat \<Rightarrow> nat \<Rightarrow> 'a option" where
  "accumulate f c inputStart outputStart =
     (case add_terms (mInputCoefficients f) (mInputHistory f) c inputStart [0..<GetInputDegree f] 0 of
        None \<Rightarrow> None
      | Some out1 \<Rightarrow>
          add_terms (mOutputCoefficients f) (mOutputHistory f) c outputStart [1..<GetOutputDegree f] out1)"

text \<open>
  "Store the output!": \<open>if (outputDegree >= 1) mOutputHistory[c][outputStart] = out;
  mOutputs[c][s] = out;\<close>
\<close>

definition store_output ::
  "nat \<Rightarrow> nat \<Rightarrow> int \<Rightarrow> 'a \<Rightarrow> ('a, 'z) Filter_scheme \<Rightarrow> (unit, ('a, 'z) Filter_scheme) outcome" where
  "store_output c s outputStart out f =
     (if 1 \<le> GetOutputDegree f
      then (case nth_opt (mOutputHistory f) c of
              None \<Rightarrow> Undefined
            | Some oh \<Rightarrow>
                if 0 \<le> outputStart \<and> nat outputStart < length oh
                then write_output c s out
                       (f\<lparr>mOutputHistory := (mOutputHistory f)[c := oh[nat outputStart := out]]\<rparr>)
                else Undefined)
      else write_output c s out f)"

definition with_locals :: "'l \<Rightarrow> ('a, 's) outcome \<Rightarrow> ('a, 'l \<times> 's) outcome" where
  "with_locals l r =
     (case r of Returns v s \<Rightarrow> Returns v (l, s) | Throws e s \<Rightarrow> Throws e (l, s) | Undefined \<Rightarrow> Undefined)"

text \<open>
  The body of the frame loop. The state pairs the locals \<open>(inputStart, outputStart)\<close> with
  the filter; the value the recurrence accumulates passes \<open>nan_guard\<close> before it is stored.
\<close>

definition filter_frame ::
  "('a \<Rightarrow> bool) \<Rightarrow> 'a list list \<Rightarrow> nat \<Rightarrow> nat
     \<Rightarrow> (int \<times> int) \<times> ('a::{zero,plus,times}, 'z) Filter_scheme
     \<Rightarrow> (unit, (int \<times> int) \<times> ('a, 'z) Filter_scheme) outcome" where
  "filter_frame isnan inputs c s st =
     (case st of ((inputStart0, outputStart0), f) \<Rightarrow>
      let inputStart = next_start inputStart0 (GetInputDegree f);
          outputStart = next_start outputStart0 (GetOutputDegree f)
      in with_locals (inputStart, outputStart)
           (obind (store_current_input inputs c s inputStart f) (\<lambda>_ f.
              case accumulate f c (nat inputStart) (nat outputStart) of
                None \<Rightarrow> Undefined
              | Some out \<Rightarrow> store_output c s outputStart (nan_guard isnan out) f)))"

definition Filter_Process ::
  "('a \<Rightarrow> bool) \<Rightarrow> 'a list list \<Rightarrow> nat \<Rightarrow> nat \<Rightarrow> ('a::{zero,plus,times}, 'z) Filter_scheme
     \<Rightarrow> (nat option list option, ('a, 'z) Filter_scheme) outcome" where
  "Filter_Process isnan inputs numChannels numFrames f0 =
     obind (Filter_PrepareBuffers numChannels numFrames f0) (\<lambda>_ f.
       case for_loop numChannels
              (\<lambda>c st. for_loop numFrames (filter_frame isnan inputs c)
                         ((mInputStart (snd st), mOutputStart (snd st)), snd st))
              ((0, 0), f) of
         Returns _ ((inputStart, outputStart), f1) \<Rightarrow>
           GetPointers (f1\<lparr>mInputStart := inputStart, mOutputStart := outputStart\<rparr>)
       | Throws e (l, f1) \<Rightarrow> Throws e f1
       | Undefined \<Rightarrow> Undefined)"

text \<open>
  The filter between calls: one history row per channel, each as long as its degree, the
  cursors at most the degrees, and at least one input coefficient (every filter of the
  sources has).
\<close>

definition Filter_wf :: "('a, 'z) Filter_scheme \<Rightarrow> bool" where
  "Filter_wf f =
     (DSP_wf f \<and> 1 \<le> GetInputDegree f \<and>
      length (mInputHistory f) = length (mOutputs f) \<and>
      list_all (\<lambda>h. length h = GetInputDegree f) (mInputHistory f) \<and>
      length (mOutputHistory f) = length (mOutputs f) \<and>
      list_all (\<lambda>h. length h = GetOutputDegree f) (mOutputHistory f) \<and>
      mInputStart f \<le> int (GetInputDegree f) \<and>
      mOutputStart f \<le> int (GetOutputDegree f))"

text \<open>
  A sample type with a NaN for examples: \<open>NaN\<close> absorbs every operation, as it does in
  IEEE arithmetic.
\<close>

datatype sample = NaN | Num real

instantiation sample :: "{zero, plus, times}"
begin

definition zero_sample :: sample where
  "zero_sample = Num 0"

definition plus_sample :: "sample \<Rightarrow> sample \<Rightarrow> sample" where
  "plus_sample a b = (case (a, b) of (Num x, Num y) \<Rightarrow> Num (x + y) | _ \<Rightarrow> NaN)"

definition times_sample :: "sample \<Rightarrow> sample \<Rightarrow> sample" where
  "times_sample a b = (case (a, b) of (Num x, Num y) \<Rightarrow> Num (x * y) | _ \<Rightarrow> NaN)"

instance ..

end

definition is_NaN :: "sample \<Rightarrow> bool" where
  "is_NaN a = (a = NaN)"

text \<open>
  The invariant of the two loops of \<open>Process\<close>, at frame \<open>s\<close> of channel \<open>c\<close>; \<open>f\<close> is the
  filter as \<open>_PrepareBuffers\<close> left it.
\<close>

definition filter_inv ::
  "('a \<Rightarrow> bool) \<Rightarrow> ('a, 'z) Filter_scheme \<Rightarrow> nat \<Rightarrow> nat \<Rightarrow> nat \<Rightarrow> nat
     \<Rightarrow> (int \<times> int) \<times> ('a, 'z) Filter_scheme \<Rightarrow> bool" where
  "filter_inv isnan f nc nf c s st =
     (case st of ((inputStart, outputStart), t) \<Rightarrow>
        shaped t nc nf \<and>
        mInputCoefficients t = mInputCoefficients f \<and>
        mOutputCoefficients t = mOutputCoefficients f \<and>
        mInputStart t = mInputStart f \<and> mOutputStart t = mOutputStart f \<and>
        length (mInputHistory t) = nc \<and> length (mOutputHistory t) = nc \<and>
        (\<forall>k<nc. length (mInputHistory t ! k) = GetInputDegree f) \<and>
        (\<forall>k<nc. length (mOutputHistory t ! k) = GetOutputDegree f) \<and>
        (\<forall>k<nc. \<forall>i<GetOutputDegree f.
            isnan (mOutputHistory t ! k ! i) \<longrightarrow> mOutputHistory t ! k ! i = mOutputHistory f ! k ! i) \<and>
        inputStart \<le> int (GetInputDegree f) \<and> outputStart \<le> int (GetOutputDegree f) \<and>
        (\<forall>k<c. \<forall>j<nf. \<not> isnan (mOutputs t ! k ! j)) \<and>
        (\<forall>j<s. \<not> isnan (mOutputs t ! c ! j)))"

text \<open>A property of the object's state that holds however the call ends.\<close>

definition holds_after :: "('s \<Rightarrow> bool) \<Rightarrow> ('a, 's) outcome \<Rightarrow> bool" where
  "holds_after P r = (case r of Returns v s \<Rightarrow> P s | Throws e s \<Rightarrow> P s | Undefined \<Rightarrow> True)"

section \<open>Loops and outcomes\<close>

lemma obind_simps [simp]:
  "obind (Returns a s) f = f a s"
  "obind (Throws e s) f = Throws e s"
  "obind Undefined f = Undefined"
  by (simp_all add: obind_def)

lemma obind_eq_Returns:
  "obind m f = Returns b t \<longleftrightarrow> (\<exists>a s. m = Returns a s \<and> f a s = Returns b t)"
  by (cases m) simp_all

lemma for_loop_total:
  assumes "I 0 s"
    and "\<And>i t. i < n \<Longrightarrow> I i t \<Longrightarrow> \<exists>t'. body i t = Returns () t' \<and> I (Suc i) t'"
  shows "\<exists>s'. for_loop n body s = Returns () s' \<and> I n s'"
  using assms(2)
proof (induction n)
  case 0
  with assms(1) show ?case by simp
next
  case (Suc n)
  then obtain s1 where s1: "for_loop n body s = Returns () s1" "I n s1"
    by (metis less_Suc_eq)
  from Suc.prems [of n s1] s1 obtain s2 where "body n s1 = Returns () s2" "I (Suc n) s2"
    by auto
  with s1 show ?case by simp
qed

lemma for_loop_partial:
  assumes "for_loop n body s = Returns u s'"
    and "I 0 s"
    and "\<And>i t t'. i < n \<Longrightarrow> I i t \<Longrightarrow> body i t = Returns () t' \<Longrightarrow> I (Suc i) t'"
  shows "I n s'"
  using assms(1,3)
proof (induction n arbitrary: s' u)
  case 0
  with assms(2) show ?case by simp
next
  case (Suc n)
  from Suc.prems(1) obtain s1 where s1: "for_loop n body s = Returns () s1" "body n s1 = Returns u s'"
    by (auto simp: obind_eq_Returns)
  have "I n s1" using Suc.IH [OF s1(1)] Suc.prems(2) by (metis less_Suc_eq)
  with Suc.prems(2) [of n s1 s'] s1(2) show ?case by simp
qed

lemma for_loop_not_thrown:
  assumes "\<And>i t. \<not> is_thrown (body i t)"
  shows "\<not> is_thrown (for_loop n body s)"
proof (induction n)
  case 0
  show ?case by (simp add: is_thrown_def)
next
  case (Suc n)
  show ?case
  proof (cases "for_loop n body s")
    case (Returns a t)
    with assms [of n t] show ?thesis by simp
  next
    case (Throws e t)
    with Suc show ?thesis by simp
  next
    case Undefined
    then show ?thesis by (simp add: is_thrown_def)
  qed
qed

lemma list_all_length_nth: "list_all P xs \<longleftrightarrow> (\<forall>i<length xs. P (xs ! i))"
  by (simp add: list_all_length)


section \<open>The block processor prepares and returns its buffers\<close>

lemma resize_length [simp]: "length (resize n d xs) = n"
  by (simp add: resize_def)

lemma resize_loop:
  "k \<le> length (mOutputs d) \<Longrightarrow>
   for_loop k (resize_channel nf) d
     = Returns () (d\<lparr>mOutputs := map (resize nf 0) (take k (mOutputs d)) @ drop k (mOutputs d)\<rparr>)"
proof (induction k)
  case 0
  show ?case by simp
next
  case (Suc k)
  then have k: "k < length (mOutputs d)" by simp
  have upd: "(map (resize nf 0) (take k (mOutputs d)) @ drop k (mOutputs d))[k := resize nf 0 (mOutputs d ! k)]
        = map (resize nf 0) (take (Suc k) (mOutputs d)) @ drop (Suc k) (mOutputs d)"
    using k by (simp add: take_Suc_conv_app_nth list_update_append Cons_nth_drop_Suc [symmetric])
  have nth: "(map (resize nf 0) (take k (mOutputs d)) @ drop k (mOutputs d)) ! k = mOutputs d ! k"
    using k by (simp add: nth_append)
  show ?case
    using Suc.IH k upd nth by (simp add: resize_channel_def nth_opt_def)
qed

lemma PrepareBuffers_shaped:
  assumes "DSP_wf d"
  shows "\<exists>outs ptrs. PrepareBuffers numChannels numFrames d
           = Returns () (d\<lparr>mOutputs := outs, mOutputPointers := ptrs, mOutputPointersSize := numChannels\<rparr>)
         \<and> shaped (d\<lparr>mOutputs := outs, mOutputPointers := ptrs, mOutputPointersSize := numChannels\<rparr>) numChannels numFrames"
proof (cases "length (mOutputs d) = numChannels")
  case same: True
  show ?thesis
  proof (cases "GetNumFrames d = numFrames")
    case True
    have "PrepareBuffers numChannels numFrames d = Returns () d"
      using same True by (simp add: PrepareBuffers_def GetNumChannels_def)
    moreover have "shaped d numChannels numFrames"
      using assms same True by (auto simp: DSP_wf_def shaped_def split: option.splits)
    moreover have "d = d\<lparr>mOutputs := mOutputs d, mOutputPointers := mOutputPointers d, mOutputPointersSize := numChannels\<rparr>"
      using assms same by (simp add: DSP_wf_def)
    ultimately show ?thesis by metis
  next
    case False
    let ?outs = "map (resize numFrames 0) (mOutputs d)"
    have "PrepareBuffers numChannels numFrames d = Returns () (d\<lparr>mOutputs := ?outs\<rparr>)"
      using same False resize_loop [of numChannels d numFrames]
      by (simp add: PrepareBuffers_def GetNumChannels_def)
    moreover have "shaped (d\<lparr>mOutputs := ?outs\<rparr>) numChannels numFrames"
      using assms same by (auto simp: DSP_wf_def shaped_def list_all_iff split: option.splits)
    moreover have "d\<lparr>mOutputs := ?outs\<rparr> = d\<lparr>mOutputs := ?outs, mOutputPointers := mOutputPointers d, mOutputPointersSize := numChannels\<rparr>"
      using assms same by (simp add: DSP_wf_def)
    ultimately show ?thesis by metis
  qed
next
  case False
  let ?o1 = "resize numChannels [] (mOutputs d)"
  let ?outs = "map (resize numFrames 0) ?o1"
  let ?d' = "d\<lparr>mOutputs := ?outs, mOutputPointers := Some (replicate numChannels None), mOutputPointersSize := numChannels\<rparr>"
  have sz: "mOutputPointersSize d \<noteq> numChannels"
    using assms False by (simp add: DSP_wf_def)
  have "PrepareBuffers numChannels numFrames d = Returns () ?d'"
    using False sz
      resize_loop [of numChannels "d\<lparr>mOutputs := ?o1, mOutputPointers := Some (replicate numChannels None), mOutputPointersSize := numChannels\<rparr>" numFrames]
    by (simp add: PrepareBuffers_def GetNumChannels_def ResizePointers_def
        DeallocateOutputPointers_def AllocateOutputPointers_def)
  moreover have "shaped ?d' numChannels numFrames"
    by (auto simp: shaped_def list_all_iff)
  ultimately show ?thesis by blast
qed

lemma obind_not_thrown:
  "\<not> is_thrown m \<Longrightarrow> (\<And>a s. \<not> is_thrown (f a s)) \<Longrightarrow> \<not> is_thrown (obind m f)"
  by (cases m) (simp_all add: is_thrown_def)

lemma is_thrown_simps [simp]:
  "\<not> is_thrown (Returns a s)" "is_thrown (Throws e s)" "\<not> is_thrown Undefined"
  by (simp_all add: is_thrown_def)

lemma ResizePointers_not_thrown: "\<not> is_thrown (ResizePointers n d)"
  by (simp add: ResizePointers_def DeallocateOutputPointers_def AllocateOutputPointers_def)

lemma PrepareBuffers_not_thrown: "\<not> is_thrown (PrepareBuffers numChannels numFrames d)"
proof -
  have loop: "\<And>t. \<not> is_thrown (for_loop numChannels (resize_channel numFrames) t)"
    by (rule for_loop_not_thrown) (simp add: resize_channel_def split: option.splits)
  show ?thesis
    unfolding PrepareBuffers_def Let_def
    by (rule obind_not_thrown) (simp_all add: ResizePointers_not_thrown loop)
qed

lemma set_pointer_loop:
  assumes "mOutputPointers d = Some ps" "k \<le> length ps" "k \<le> length (mOutputs d)"
  shows "for_loop k set_pointer d
     = Returns () (d\<lparr>mOutputPointers := Some (map Some [0..<k] @ drop k ps)\<rparr>)"
  using assms(2,3)
proof (induction k)
  case 0
  show ?case using assms(1) by simp
next
  case (Suc k)
  have "(map Some [0..<k] @ drop k ps)[k := Some k] = map Some [0..<Suc k] @ drop (Suc k) ps"
    using Suc.prems by (simp add: list_update_append Cons_nth_drop_Suc [symmetric])
  then show ?case
    using Suc by (simp add: set_pointer_def)
qed

lemma GetPointers_shaped:
  assumes "shaped d numChannels numFrames"
  shows "\<exists>ptrs. GetPointers d = Returns ptrs (d\<lparr>mOutputPointers := ptrs\<rparr>)
           \<and> shaped (d\<lparr>mOutputPointers := ptrs\<rparr>) numChannels numFrames
           \<and> (\<forall>c<numChannels. \<forall>s<numFrames. deref (d\<lparr>mOutputPointers := ptrs\<rparr>) ptrs c s = Some (mOutputs d ! c ! s))"
proof (cases "mOutputPointers d")
  case None
  with assms have "numChannels = 0" "length (mOutputs d) = 0" by (auto simp: shaped_def)
  then show ?thesis using None assms by (simp add: GetPointers_def GetNumChannels_def shaped_def)
next
  case (Some ps)
  with assms have len: "length ps = numChannels" "length (mOutputs d) = numChannels"
    and rows: "\<And>c. c < numChannels \<Longrightarrow> length (mOutputs d ! c) = numFrames"
    by (auto simp: shaped_def list_all_length)
  have "GetPointers d = Returns (Some (map Some [0..<numChannels])) (d\<lparr>mOutputPointers := Some (map Some [0..<numChannels])\<rparr>)"
    using set_pointer_loop [OF Some, of numChannels] len by (simp add: GetPointers_def GetNumChannels_def)
  moreover have "\<forall>c<numChannels. \<forall>s<numFrames.
      deref (d\<lparr>mOutputPointers := Some (map Some [0..<numChannels])\<rparr>) (Some (map Some [0..<numChannels])) c s
        = Some (mOutputs d ! c ! s)"
    using len rows by (simp add: deref_def nth_opt_def at2_def)
  moreover have "shaped (d\<lparr>mOutputPointers := Some (map Some [0..<numChannels])\<rparr>) numChannels numFrames"
    using assms by (simp add: shaped_def)
  ultimately show ?thesis by blast
qed

lemma GetPointers_not_thrown: "\<not> is_thrown (GetPointers d)"
proof -
  have "\<not> is_thrown (for_loop (GetNumChannels d) set_pointer d)"
    by (rule for_loop_not_thrown) (simp add: set_pointer_def split: option.splits)
  then show ?thesis
    unfolding GetPointers_def by (rule obind_not_thrown) simp
qed

section \<open>The gain applies the stored gain reduction\<close>

lemma is_returned_simps [simp]:
  "is_returned (Returns a s)" "\<not> is_returned (Throws e s)" "\<not> is_returned Undefined"
  by (simp_all add: is_returned_def)

lemma block_ok_nth:
  "block_ok inputs nc nf \<Longrightarrow> c < nc \<Longrightarrow> s < nf \<Longrightarrow> at2 inputs c s = Some (inputs ! c ! s)"
proof -
  assume a: "block_ok inputs nc nf" "c < nc" "s < nf"
  then have "c < length inputs" by (simp add: block_ok_def)
  moreover from a have "nf \<le> length (take nc inputs ! c)"
    by (simp add: block_ok_def list_all_length)
  ultimately show ?thesis using a by (simp add: at2_def nth_opt_def)
qed

lemma apply_gain_loops:
  fixes g :: "(real, 'z) Gain_scheme"
  assumes shp: "shaped g nc nf"
    and blk: "block_ok inputs nc nf"
    and len: "length (gain_mGainReductionDB g) = nc"
    and rows: "list_all (\<lambda>r. length r = nf) (gain_mGainReductionDB g)"
  shows "\<exists>outs. for_loop nc (\<lambda>c. for_loop nf (apply_gain inputs c)) g = Returns () (g\<lparr>mOutputs := outs\<rparr>)
           \<and> shaped (g\<lparr>mOutputs := outs\<rparr>) nc nf
           \<and> (\<forall>c<nc. \<forall>s<nf. outs ! c ! s = gain_val (gain_mGainReductionDB g) inputs c s)"
proof -
  let ?M = "gain_mGainReductionDB g"
  let ?val = "gain_val ?M inputs"
  define ok where "ok outs \<longleftrightarrow> length outs = nc \<and> (\<forall>k<nc. length (outs ! k) = nf)" for outs :: "real list list"
  define Iin where "Iin c j t \<longleftrightarrow> (\<exists>outs. t = g\<lparr>mOutputs := outs\<rparr> \<and> ok outs
      \<and> (\<forall>c'<c. \<forall>s<nf. outs ! c' ! s = ?val c' s) \<and> (\<forall>s<j. outs ! c ! s = ?val c s))" for c j t
  define Iout where "Iout c t \<longleftrightarrow> (\<exists>outs. t = g\<lparr>mOutputs := outs\<rparr> \<and> ok outs
      \<and> (\<forall>c'<c. \<forall>s<nf. outs ! c' ! s = ?val c' s))" for c t
  have matrix: "at2 ?M c s = Some (?M ! c ! s)" if "c < nc" "s < nf" for c s
    using that len rows by (auto simp: at2_def nth_opt_def list_all_length)
  have inner_step: "\<exists>t'. apply_gain inputs c j t = Returns () t' \<and> Iin c (Suc j) t'"
    if "c < nc" "j < nf" "Iin c j t" for c j t
  proof -
    from that(3) obtain outs where t: "t = g\<lparr>mOutputs := outs\<rparr>" and ok: "ok outs"
      and prev: "\<forall>c'<c. \<forall>s<nf. outs ! c' ! s = ?val c' s" and cur: "\<forall>s<j. outs ! c ! s = ?val c s"
      unfolding Iin_def by blast
    let ?outs' = "outs[c := (outs ! c)[j := ?val c j]]"
    have "apply_gain inputs c j t = Returns () (g\<lparr>mOutputs := ?outs'\<rparr>)"
      using that(1,2) t ok matrix [of c j] block_ok_nth [OF blk, of c j]
      by (simp add: apply_gain_def write_output_def ok_def gain_val_def DBToLevel_def)
    moreover have "ok ?outs'"
      using ok by (cases "c < length outs") (auto simp: ok_def nth_list_update)
    moreover have "\<forall>c'<c. \<forall>s<nf. ?outs' ! c' ! s = ?val c' s"
      using prev by simp
    moreover have "\<forall>s<Suc j. ?outs' ! c ! s = ?val c s"
      using cur that(1,2) ok by (auto simp: ok_def nth_list_update less_Suc_eq)
    ultimately show ?thesis unfolding Iin_def by blast
  qed
  have outer_step: "\<exists>t'. for_loop nf (apply_gain inputs c) t = Returns () t' \<and> Iout (Suc c) t'"
    if "c < nc" "Iout c t" for c t
  proof -
    have "Iin c 0 t" using that(2) unfolding Iin_def Iout_def by auto
    from for_loop_total [where I = "Iin c" and body = "apply_gain inputs c" and n = nf, OF this]
      inner_step [OF that(1)]
    obtain t' where t': "for_loop nf (apply_gain inputs c) t = Returns () t'" "Iin c nf t'"
      by blast
    from t'(2) have "Iout (Suc c) t'"
      unfolding Iin_def Iout_def by (auto simp: less_Suc_eq)
    with t'(1) show ?thesis by blast
  qed
  have "Iout 0 g"
    using shp unfolding Iout_def ok_def
    by (auto simp: shaped_def list_all_length intro!: exI [of _ "mOutputs g"])
  from for_loop_total [where I = Iout and body = "\<lambda>c. for_loop nf (apply_gain inputs c)" and n = nc, OF this]
    outer_step
  obtain t' where t': "for_loop nc (\<lambda>c. for_loop nf (apply_gain inputs c)) g = Returns () t'" "Iout nc t'"
    by blast
  from t'(2) obtain outs where outs: "t' = g\<lparr>mOutputs := outs\<rparr>" "ok outs"
    "\<forall>c<nc. \<forall>s<nf. outs ! c ! s = ?val c s"
    unfolding Iout_def by blast
  have "shaped (g\<lparr>mOutputs := outs\<rparr>) nc nf"
    using shp outs(2) by (auto simp: shaped_def ok_def list_all_length)
  with t'(1) outs show ?thesis by blast
qed

lemma Gain_validate_not_Returns_changed:
  "Gain_validate nc nf g = Returns u g' \<Longrightarrow> g' = g"
  by (auto simp: Gain_validate_def split: if_splits option.splits)

lemma Gain_loops_not_thrown:
  "\<not> is_thrown (for_loop nc (\<lambda>c. for_loop nf (apply_gain inputs c)) g)"
proof (rule for_loop_not_thrown)
  fix c t
  show "\<not> is_thrown (for_loop nf (apply_gain inputs c) t)"
    by (rule for_loop_not_thrown)
      (simp add: apply_gain_def write_output_def split: option.splits prod.splits)
qed

lemma Gain_validate_thrown_iff:
  "is_thrown (Gain_validate nc nf g) \<longleftrightarrow>
     (length (gain_mGainReductionDB g) \<noteq> nc
      \<or> (gain_mGainReductionDB g = [] \<and> 0 < nf)
      \<or> (gain_mGainReductionDB g \<noteq> [] \<and> length (gain_mGainReductionDB g ! 0) \<noteq> nf))"
  by (auto simp: Gain_validate_def nth_opt_def)

lemma Gain_validate_Returns:
  "gain_mGainReductionDB g \<noteq> [] \<Longrightarrow> length (gain_mGainReductionDB g) = nc
     \<Longrightarrow> length (gain_mGainReductionDB g ! 0) = nf \<Longrightarrow> Gain_validate nc nf g = Returns () g"
  by (auto simp: Gain_validate_def nth_opt_def)

lemma Gain_Process_total:
  fixes g :: "(real, 'z) Gain_scheme"
  assumes wf: "DSP_wf g"
    and blk: "block_ok inputs nc nf"
    and ne: "gain_mGainReductionDB g \<noteq> []"
    and len: "length (gain_mGainReductionDB g) = nc"
    and rows: "list_all (\<lambda>r. length r = nf) (gain_mGainReductionDB g)"
  shows "\<exists>ptrs g'. Gain_Process inputs nc nf g = Returns ptrs g'
           \<and> gain_mGainReductionDB g' = gain_mGainReductionDB g
           \<and> (\<forall>c<nc. \<forall>s<nf. deref g' ptrs c s
                 = Some (10 powr (gain_mGainReductionDB g ! c ! s / 10) * inputs ! c ! s))"
proof -
  from PrepareBuffers_shaped [OF wf, of nc nf] obtain o1 p1 where
    pb: "PrepareBuffers nc nf g = Returns () (g\<lparr>mOutputs := o1, mOutputPointers := p1, mOutputPointersSize := nc\<rparr>)"
    and sh1: "shaped (g\<lparr>mOutputs := o1, mOutputPointers := p1, mOutputPointersSize := nc\<rparr>) nc nf"
    by blast
  let ?g1 = "g\<lparr>mOutputs := o1, mOutputPointers := p1, mOutputPointersSize := nc\<rparr>"
  have row0: "length (gain_mGainReductionDB g ! 0) = nf"
    using ne rows by (simp add: list_all_length)
  have val: "Gain_validate nc nf ?g1 = Returns () ?g1"
    using ne len row0 by (intro Gain_validate_Returns) simp_all
  from apply_gain_loops [OF sh1 blk] len rows obtain o2 where
    lp: "for_loop nc (\<lambda>c. for_loop nf (apply_gain inputs c)) ?g1 = Returns () (?g1\<lparr>mOutputs := o2\<rparr>)"
    and sh2: "shaped (?g1\<lparr>mOutputs := o2\<rparr>) nc nf"
    and vals: "\<forall>c<nc. \<forall>s<nf. o2 ! c ! s = gain_val (gain_mGainReductionDB g) inputs c s"
    by auto
  from GetPointers_shaped [OF sh2] obtain ptrs where
    gp: "GetPointers (?g1\<lparr>mOutputs := o2\<rparr>) = Returns ptrs (?g1\<lparr>mOutputs := o2, mOutputPointers := ptrs\<rparr>)"
    and dr: "\<forall>c<nc. \<forall>s<nf. deref (?g1\<lparr>mOutputs := o2, mOutputPointers := ptrs\<rparr>) ptrs c s = Some (o2 ! c ! s)"
    by auto
  have "Gain_Process inputs nc nf g = Returns ptrs (?g1\<lparr>mOutputs := o2, mOutputPointers := ptrs\<rparr>)"
    unfolding Gain_Process_def using gp by (simp add: pb val lp)
  moreover have "\<forall>c<nc. \<forall>s<nf. deref (?g1\<lparr>mOutputs := o2, mOutputPointers := ptrs\<rparr>) ptrs c s
       = Some (10 powr (gain_mGainReductionDB g ! c ! s / 10) * inputs ! c ! s)"
    using dr vals by (simp add: gain_val_def DBToLevel_def)
  ultimately show ?thesis by force
qed

text \<open>
  Claim C1. When the stored gain-reduction matrix has \<open>numChannels\<close> channels of \<open>numFrames\<close>
  frames each, \<open>Gain::Process\<close> on a well-formed processor and a valid input block returns
  (for at least one channel), and every sample read through the returned pointers is
  \<open>10 powr (reductionDB[c][s] / 10) * input[c][s]\<close>.
\<close>

theorem Gain_Process_output:
  fixes g :: "(real, 'z) Gain_scheme"
  assumes "DSP_wf g"
    and "block_ok inputs numChannels numFrames"
    and "length (gain_mGainReductionDB g) = numChannels"
    and "list_all (\<lambda>r. length r = numFrames) (gain_mGainReductionDB g)"
  shows "(0 < numChannels \<longrightarrow> is_returned (Gain_Process inputs numChannels numFrames g)) \<and>
         (\<forall>ptrs g'. Gain_Process inputs numChannels numFrames g = Returns ptrs g' \<longrightarrow>
            (\<forall>c<numChannels. \<forall>s<numFrames.
               deref g' ptrs c s
                 = Some (10 powr (gain_mGainReductionDB g ! c ! s / 10) * inputs ! c ! s)))"
proof (cases "0 < numChannels")
  case True
  with assms(3) have "gain_mGainReductionDB g \<noteq> []" by auto
  from Gain_Process_total [OF assms(1,2) this assms(3,4)] show ?thesis by auto
next
  case False
  then show ?thesis by simp
qed

theorem Gain_Process_output_witness:
  "is_returned (Gain_Process [[2, 3]] 1 2 (SetGainReductionDB [[0, 10]] Gain_new)) \<and>
   (\<exists>ptrs g'. Gain_Process [[2, 3]] 1 2 (SetGainReductionDB [[0, 10]] Gain_new) = Returns ptrs g'
      \<and> deref g' ptrs 0 0 = Some 2 \<and> deref g' ptrs 0 1 = Some 30)"
proof -
  let ?g = "SetGainReductionDB [[0, 10]] Gain_new"
  have h: "DSP_wf ?g" "block_ok [[2, 3]] 1 2" "length (gain_mGainReductionDB ?g) = 1"
    "list_all (\<lambda>r. length r = 2) (gain_mGainReductionDB ?g)"
    by (simp_all add: DSP_wf_def SetGainReductionDB_def Gain_new_def block_ok_def GetNumFrames_def GetNumChannels_def)
  from Gain_Process_output [OF h] have r: "is_returned (Gain_Process [[2, 3]] 1 2 ?g)"
    and v: "\<And>ptrs g' c s. Gain_Process [[2, 3]] 1 2 ?g = Returns ptrs g' \<Longrightarrow> c < 1 \<Longrightarrow> s < 2 \<Longrightarrow>
             deref g' ptrs c s = Some (10 powr (gain_mGainReductionDB ?g ! c ! s / 10) * [[2, 3]] ! c ! s)"
    by auto
  from r obtain ptrs g' where eq: "Gain_Process [[2, 3]] 1 2 ?g = Returns ptrs g'"
    by (auto simp: is_returned_def split: outcome.splits)
  from v [OF eq, of 0 0] v [OF eq, of 0 1]
  have "deref g' ptrs 0 0 = Some 2" "deref g' ptrs 0 1 = Some 30"
    by (simp_all add: SetGainReductionDB_def Gain_new_def)
  with r eq show ?thesis by blast
qed

lemma PrepareBuffers_zero_channels:
  "\<exists>outs ptrs sz. PrepareBuffers 0 nf d = Returns () (d\<lparr>mOutputs := outs, mOutputPointers := ptrs, mOutputPointersSize := sz\<rparr>)"
proof -
  have "\<exists>outs ptrs sz. d = d\<lparr>mOutputs := outs, mOutputPointers := ptrs, mOutputPointersSize := sz\<rparr>"
    by (rule exI [of _ "mOutputs d"], rule exI [of _ "mOutputPointers d"], rule exI [of _ "mOutputPointersSize d"]) simp
  moreover have "\<exists>outs ptrs sz. d\<lparr>mOutputs := x\<rparr> = d\<lparr>mOutputs := outs, mOutputPointers := ptrs, mOutputPointersSize := sz\<rparr>" for x
    by (rule exI [of _ x], rule exI [of _ "mOutputPointers d"], rule exI [of _ "mOutputPointersSize d"]) simp
  ultimately show ?thesis
    by (auto simp: PrepareBuffers_def Let_def ResizePointers_def DeallocateOutputPointers_def
        AllocateOutputPointers_def)
qed

text \<open>
  Claim C10. With an empty stored matrix, \<open>Gain::Process\<close> called with no channel and no
  frame passes both guards and reads \<open>mGainReductionDB[0]\<close> out of range: the read yields no
  value and the call is undefined. The validation is undefined in that case only: it is
  defined whenever the stored matrix is not empty.
\<close>

theorem Gain_Process_empty_matrix_undefined:
  fixes g :: "(real, 'z) Gain_scheme"
  assumes "gain_mGainReductionDB g = []"
  shows "nth_opt (gain_mGainReductionDB g) 0 = None \<and>
         Gain_Process inputs 0 0 g = Undefined \<and>
         (Gain_validate numChannels numFrames g = Undefined \<longleftrightarrow> numChannels = 0 \<and> numFrames = 0) \<and>
         (\<forall>h :: (real, 'z) Gain_scheme. gain_mGainReductionDB h \<noteq> [] \<longrightarrow>
             Gain_validate numChannels numFrames h \<noteq> Undefined)"
proof -
  from PrepareBuffers_zero_channels [of 0 g] obtain outs ptrs sz where
    pb: "PrepareBuffers 0 0 g = Returns () (g\<lparr>mOutputs := outs, mOutputPointers := ptrs, mOutputPointersSize := sz\<rparr>)"
    by blast
  have "Gain_Process inputs 0 0 g = Undefined"
    unfolding Gain_Process_def using assms by (simp add: pb Gain_validate_def nth_opt_def)
  moreover have "Gain_validate numChannels numFrames g = Undefined \<longleftrightarrow> numChannels = 0 \<and> numFrames = 0"
    using assms by (auto simp: Gain_validate_def nth_opt_def)
  moreover have "\<forall>h :: (real, 'z) Gain_scheme. gain_mGainReductionDB h \<noteq> [] \<longrightarrow>
             Gain_validate numChannels numFrames h \<noteq> Undefined"
    by (auto simp: Gain_validate_def nth_opt_def)
  ultimately show ?thesis using assms by (simp add: nth_opt_def)
qed

theorem Gain_Process_empty_matrix_undefined_witness:
  "gain_mGainReductionDB Gain_new = [] \<and> Gain_Process [] 0 0 Gain_new = Undefined \<and>
   Gain_validate 0 0 Gain_new = Undefined \<and>
   Gain_validate 1 2 (SetGainReductionDB [[0, 0]] Gain_new) \<noteq> Undefined"
proof -
  have e: "gain_mGainReductionDB Gain_new = []" by (simp add: Gain_new_def)
  have ne: "gain_mGainReductionDB (SetGainReductionDB [[0, 0]] Gain_new) \<noteq> []"
    by (simp add: SetGainReductionDB_def)
  from Gain_Process_empty_matrix_undefined [OF e, of "[]" 0 0]
    Gain_Process_empty_matrix_undefined [OF e, of "[]" 1 2] e ne
  show ?thesis by simp
qed

text \<open>
  Claim C4, as the code has it. \<open>Gain::Process\<close> throws exactly when the channel count of the
  stored matrix differs from \<open>numChannels\<close>, or the matrix is empty and \<open>numFrames\<close> is
  positive, or the matrix is not empty and the frame count of its channel 0 differs from
  \<open>numFrames\<close>. With a non-empty matrix of \<open>numChannels\<close> channels of \<open>numFrames\<close> frames and
  a valid input block the call returns.
\<close>

theorem Gain_Process_fault_iff:
  fixes g :: "(real, 'z) Gain_scheme"
  assumes "DSP_wf g"
  shows "(is_thrown (Gain_Process inputs numChannels numFrames g) \<longleftrightarrow>
            length (gain_mGainReductionDB g) \<noteq> numChannels
            \<or> (gain_mGainReductionDB g = [] \<and> 0 < numFrames)
            \<or> (gain_mGainReductionDB g \<noteq> [] \<and> length (gain_mGainReductionDB g ! 0) \<noteq> numFrames)) \<and>
         (block_ok inputs numChannels numFrames \<and> gain_mGainReductionDB g \<noteq> [] \<and>
          length (gain_mGainReductionDB g) = numChannels \<and>
          list_all (\<lambda>r. length r = numFrames) (gain_mGainReductionDB g)
            \<longrightarrow> is_returned (Gain_Process inputs numChannels numFrames g))"
proof -
  from PrepareBuffers_shaped [OF assms, of numChannels numFrames] obtain o1 p1 where
    pb: "PrepareBuffers numChannels numFrames g
           = Returns () (g\<lparr>mOutputs := o1, mOutputPointers := p1, mOutputPointersSize := numChannels\<rparr>)"
    by blast
  let ?g1 = "g\<lparr>mOutputs := o1, mOutputPointers := p1, mOutputPointersSize := numChannels\<rparr>"
  have rest: "\<not> is_thrown (obind (for_loop numChannels (\<lambda>c. for_loop numFrames (apply_gain inputs c)) t)
                  (\<lambda>_. GetPointers))" for t :: "(real, 'z) Gain_scheme"
    by (rule obind_not_thrown) (simp_all add: Gain_loops_not_thrown GetPointers_not_thrown)
  have "is_thrown (Gain_Process inputs numChannels numFrames g) \<longleftrightarrow> is_thrown (Gain_validate numChannels numFrames ?g1)"
  proof (cases "Gain_validate numChannels numFrames ?g1")
    case (Returns u t)
    then show ?thesis unfolding Gain_Process_def using rest [of t] by (simp add: pb)
  next
    case (Throws e t)
    then show ?thesis unfolding Gain_Process_def by (simp add: pb)
  next
    case Undefined
    then show ?thesis unfolding Gain_Process_def by (simp add: pb)
  qed
  then have "is_thrown (Gain_Process inputs numChannels numFrames g) \<longleftrightarrow>
            length (gain_mGainReductionDB g) \<noteq> numChannels
            \<or> (gain_mGainReductionDB g = [] \<and> 0 < numFrames)
            \<or> (gain_mGainReductionDB g \<noteq> [] \<and> length (gain_mGainReductionDB g ! 0) \<noteq> numFrames)"
    by (simp add: Gain_validate_thrown_iff)
  moreover have "is_returned (Gain_Process inputs numChannels numFrames g)"
    if "block_ok inputs numChannels numFrames" "gain_mGainReductionDB g \<noteq> []"
      "length (gain_mGainReductionDB g) = numChannels"
      "list_all (\<lambda>r. length r = numFrames) (gain_mGainReductionDB g)"
    using Gain_Process_total [OF assms that] by auto
  ultimately show ?thesis by blast
qed

theorem Gain_Process_fault_iff_witness:
  "is_thrown (Gain_Process [[2, 3]] 1 2 (SetGainReductionDB [[0]] Gain_new)) \<and>
   \<not> is_thrown (Gain_Process [[2, 3]] 1 2 (SetGainReductionDB [[0, 10]] Gain_new)) \<and>
   is_returned (Gain_Process [[2, 3]] 1 2 (SetGainReductionDB [[0, 10]] Gain_new))"
proof -
  have wf: "DSP_wf (SetGainReductionDB m Gain_new)" for m
    by (simp add: DSP_wf_def SetGainReductionDB_def Gain_new_def GetNumFrames_def GetNumChannels_def)
  from Gain_Process_fault_iff [OF wf, of "[[2, 3]]" 1 2 "[[0]]"]
    Gain_Process_fault_iff [OF wf, of "[[2, 3]]" 1 2 "[[0, 10]]"]
  show ?thesis by (simp add: SetGainReductionDB_def Gain_new_def block_ok_def)
qed

theorem Gain_Process_fault_counterexample:
  "is_thrown (Gain_Process [] 0 1 Gain_new) \<and>
   \<not> spec_shape_mismatch (gain_mGainReductionDB Gain_new) 0 1"
  by (simp add: Gain_Process_def PrepareBuffers_def Let_def GetNumChannels_def GetNumFrames_def
      Gain_new_def Gain_validate_def spec_shape_mismatch_def)

section \<open>Updating the history with no channel\<close>




section \<open>What a call leaves untouched\<close>

lemma holds_after_simps [simp]:
  "holds_after P (Returns a s) = P s" "holds_after P (Throws e s) = P s" "holds_after P Undefined"
  by (simp_all add: holds_after_def)

lemma holds_after_obind:
  "holds_after P m \<Longrightarrow> (\<And>a s. P s \<Longrightarrow> holds_after P (f a s)) \<Longrightarrow> holds_after P (obind m f)"
  by (cases m) simp_all

lemma holds_after_for_loop:
  assumes "P s" and "\<And>i t. P t \<Longrightarrow> holds_after P (body i t)"
  shows "holds_after P (for_loop n body s)"
proof (induction n)
  case 0
  with assms(1) show ?case by simp
next
  case (Suc n)
  then show ?case by (simp add: holds_after_obind assms(2))
qed

lemma PrepareBuffers_frame:
  assumes "\<And>t outs. P t \<Longrightarrow> P (t\<lparr>mOutputs := outs\<rparr>)"
    and "\<And>t ptrs. P t \<Longrightarrow> P (t\<lparr>mOutputPointers := ptrs\<rparr>)"
    and "\<And>t n. P t \<Longrightarrow> P (t\<lparr>mOutputPointersSize := n\<rparr>)"
    and "P d"
  shows "holds_after P (PrepareBuffers nc nf d)"
  unfolding PrepareBuffers_def Let_def
proof (rule holds_after_obind)
  show "holds_after P (if GetNumChannels d \<noteq> nc
          then ResizePointers nc (d\<lparr>mOutputs := resize nc [] (mOutputs d)\<rparr>) else Returns () d)"
    using assms
    by (simp add: ResizePointers_def DeallocateOutputPointers_def AllocateOutputPointers_def)
next
  fix a s assume "P s"
  then have "holds_after P (for_loop nc (resize_channel nf) s)"
    by (rule holds_after_for_loop) (simp add: resize_channel_def assms(1) split: option.splits)
  with \<open>P s\<close> show "holds_after P (if GetNumChannels d \<noteq> nc \<or> GetNumFrames d \<noteq> nf
        then for_loop nc (resize_channel nf) s else Returns () s)"
    by simp
qed

lemma GetPointers_frame:
  assumes "\<And>t ptrs. P t \<Longrightarrow> P (t\<lparr>mOutputPointers := ptrs\<rparr>)" and "P d"
  shows "holds_after P (GetPointers d)"
  unfolding GetPointers_def
proof (rule holds_after_obind)
  show "holds_after P (for_loop (GetNumChannels d) set_pointer d)"
    using assms(2)
    by (rule holds_after_for_loop) (simp add: set_pointer_def assms(1) split: option.splits)
qed simp

lemma write_output_frame:
  assumes "\<And>t outs. P t \<Longrightarrow> P (t\<lparr>mOutputs := outs\<rparr>)" and "P d"
  shows "holds_after P (write_output c s v d)"
  using assms by (simp add: write_output_def)

lemma UpdateHistory_frame:
  assumes "\<And>t x. P t \<Longrightarrow> P (t\<lparr>mHistory := x\<rparr>)"
    and "\<And>t n. P t \<Longrightarrow> P (t\<lparr>mHistoryIndex := n\<rparr>)"
    and "P h"
  shows "holds_after P (UpdateHistory inputs nc nf h)"
proof -
  have e: "holds_after P (EnsureHistorySize nf h)"
    using assms by (simp add: EnsureHistorySize_def Let_def)
  have rw: "holds_after P (RewindHistory t)" if "P t" for t
    unfolding RewindHistory_def
  proof (rule holds_after_obind)
    show "holds_after P (for_loop (mHistoryRequired t) (copy_back (size_t_sub (mHistoryIndex t) (mHistoryRequired t))) t)"
      using that by (rule holds_after_for_loop) (simp add: copy_back_def assms(1) split: option.splits)
  qed (simp add: assms(2))
  have st: "holds_after P (for_loop nf (store_input inputs) t)" if "P t" for t
    using that by (rule holds_after_for_loop) (simp add: store_input_def assms(1) split: option.splits)
  show ?thesis
    unfolding UpdateHistory_def
    using e rw st by (auto intro!: holds_after_obind)
qed

lemma IR_Process_frame:
  fixes r :: "(real, 'z) ImpulseResponse_scheme"
  assumes o: "\<And>(t :: (real, 'z) ImpulseResponse_scheme) outs. P t \<Longrightarrow> P (t\<lparr>mOutputs := outs\<rparr>)"
    and p: "\<And>(t :: (real, 'z) ImpulseResponse_scheme) ptrs. P t \<Longrightarrow> P (t\<lparr>mOutputPointers := ptrs\<rparr>)"
    and z: "\<And>(t :: (real, 'z) ImpulseResponse_scheme) n. P t \<Longrightarrow> P (t\<lparr>mOutputPointersSize := n\<rparr>)"
    and h: "\<And>(t :: (real, 'z) ImpulseResponse_scheme) x. P t \<Longrightarrow> P (t\<lparr>mHistory := x\<rparr>)"
    and i: "\<And>(t :: (real, 'z) ImpulseResponse_scheme) n. P t \<Longrightarrow> P (t\<lparr>mHistoryIndex := n\<rparr>)"
    and "P r"
  shows "holds_after P (IR_Process inputs nc nf r)"
  unfolding IR_Process_def
proof (intro holds_after_obind)
  show "holds_after P (PrepareBuffers nc nf r)"
    using o p z \<open>P r\<close> by (rule PrepareBuffers_frame)
next
  fix s :: "(real, 'z) ImpulseResponse_scheme" assume "P s"
  then show "holds_after P (UpdateHistory inputs nc nf s)"
    using h i by (intro UpdateHistory_frame)
  show "holds_after P (for_loop nf (convolve_frame (size_t_sub (mHistoryIndex s) (mHistoryRequired s))) s)"
    using \<open>P s\<close>
    by (rule holds_after_for_loop) (simp add: convolve_frame_def Let_def write_output_frame o)
  show "holds_after P (for_loop (nc - 1) (\<lambda>k. for_loop nf (copy_channel0 (Suc k))) s)"
    using \<open>P s\<close>
  proof (rule holds_after_for_loop)
    fix k t assume "P (t :: (real, 'z) ImpulseResponse_scheme)"
    then show "holds_after P (for_loop nf (copy_channel0 (Suc k)) t)"
      by (rule holds_after_for_loop) (simp add: copy_channel0_def write_output_frame o split: option.splits)
  qed
  show "holds_after P (GetPointers (AdvanceHistoryIndex nf s))"
  proof (rule GetPointers_frame [where P = P])
    show "P (AdvanceHistoryIndex nf s)"
      unfolding AdvanceHistoryIndex_def using \<open>P s\<close> by (rule i)
  qed (rule p)
qed

lemma IR_Process_keeps_weight:
  fixes r :: "(real, 'z) ImpulseResponse_scheme"
  shows "holds_after (\<lambda>s. mWeight s = mWeight r) (IR_Process inputs nc nf r)"
  by (rule IR_Process_frame) simp_all

section \<open>The weights of the impulse response\<close>

lemma size_t_sub_le: "b \<le> a \<Longrightarrow> size_t_sub a b = a - b"
  by (simp add: size_t_sub_def)

lemma size_t_sub_int:
  "a < 2 ^ 64 \<Longrightarrow> b \<le> 2 ^ 64 \<Longrightarrow> 0 < b \<Longrightarrow> int (size_t_sub a b) = (int a - int b) mod 2 ^ 64"
proof (cases "b \<le> a")
  case True
  assume "a < 2 ^ 64"
  with True have "int a - int b < 2 ^ 64" "0 \<le> int a - int b" by simp_all
  then have "(int a - int b) mod 2 ^ 64 = int a - int b" by simp
  with True show ?thesis by (simp add: size_t_sub_def of_nat_diff)
next
  case False
  assume a: "a < 2 ^ 64" "b \<le> 2 ^ 64" "0 < b"
  have "(int a - int b) mod 2 ^ 64 = (int a - int b + 2 ^ 64) mod 2 ^ 64"
    by (simp only: mod_add_self2)
  also have "\<dots> = int a - int b + 2 ^ 64"
    using False a by (intro mod_pos_pos_trivial) simp_all
  finally show ?thesis
    using False a by (simp add: size_t_sub_def of_nat_diff)
qed

lemma size_t_sub_Suc: "k < L \<Longrightarrow> size_t_sub (size_t_sub L (Suc 0)) k = L - Suc k"
  by (simp add: size_t_sub_def)

lemma set_weight_loop:
  fixes r :: "('a, 'z) ImpulseResponse_scheme"
  assumes "length (mWeight r) = L" "L \<le> length (mResampled r)"
  shows "\<exists>w. for_loop L (set_weight L gain) r = Returns () (r\<lparr>mWeight := w\<rparr>)
           \<and> length w = L \<and> (\<forall>i<L. w ! (L - 1 - i) = gain * mResampled r ! i)"
proof -
  define I where "I k t \<longleftrightarrow> (\<exists>w. t = r\<lparr>mWeight := w\<rparr> \<and> length w = L
      \<and> (\<forall>i<k. w ! (L - 1 - i) = gain * mResampled r ! i))" for k t
  have step: "\<exists>t'. set_weight L gain k t = Returns () t' \<and> I (Suc k) t'" if "k < L" "I k t" for k t
  proof -
    from that(2) obtain w where w: "t = r\<lparr>mWeight := w\<rparr>" "length w = L"
      "\<forall>i<k. w ! (L - 1 - i) = gain * mResampled r ! i"
      unfolding I_def by blast
    have j: "size_t_sub (size_t_sub L 1) k = L - Suc k"
      using size_t_sub_Suc [OF that(1)] by (simp only: One_nat_def)
    let ?w = "w[L - Suc k := gain * mResampled r ! k]"
    have rd: "nth_opt (mResampled t) k = Some (mResampled r ! k)"
      using that(1) assms(2) w(1) by (simp add: nth_opt_def)
    have "set_weight L gain k t = Returns () (r\<lparr>mWeight := ?w\<rparr>)"
      unfolding set_weight_def j Let_def rd using that(1) w(1,2) by simp
    moreover have "\<forall>i<Suc k. ?w ! (L - 1 - i) = gain * mResampled r ! i"
      using w(2,3) that(1) by (auto simp: nth_list_update less_Suc_eq)
    ultimately show ?thesis unfolding I_def using w(2) by auto
  qed
  have "I 0 r" unfolding I_def
    by (rule exI [of _ "mWeight r"]) (simp add: assms(1))
  from for_loop_total [where I = I and body = "set_weight L gain" and n = L, OF this step]
  obtain s' where "for_loop L (set_weight L gain) r = Returns () s'" "I L s'" by blast
  then show ?thesis
    unfolding I_def by blast
qed


text \<open>
  Claim C6. \<open>_SetWeights\<close> returns; the weight vector has length
  \<open>L = min (resampled length) 8192\<close>, its entry \<open>L - 1 - i\<close> is
  \<open>10 powr (- 18 * 0.05) * 48000 / sampleRate\<close> times the \<open>i\<close>-th resampled sample,
  \<open>mHistoryRequired\<close> is \<open>L - 1\<close> (computed in \<open>size_t\<close>), and \<open>Process\<close> leaves the weights as
  they are however it ends.
\<close>

theorem SetWeights_weights:
  fixes r :: "(real, 'z) ImpulseResponse_scheme"
  shows "\<exists>r'. SetWeights resample r = Returns () r' \<and>
           mResampled r' = (if mRawAudioSampleRate r = ir_mSampleRate r then mRawAudio r
                            else resample (0 # mRawAudio r @ [0]) (mRawAudioSampleRate r) (ir_mSampleRate r) 0) \<and>
           length (mWeight r') = min (length (mResampled r')) 8192 \<and>
           (\<forall>i < length (mWeight r').
              mWeight r' ! (length (mWeight r') - 1 - i)
                = 10 powr (- 18 * 0.05) * 48000 / ir_mSampleRate r * mResampled r' ! i) \<and>
           int (mHistoryRequired r') = (int (length (mWeight r')) - 1) mod 2 ^ 64 \<and>
           (0 < length (mWeight r') \<longrightarrow> mHistoryRequired r' = length (mWeight r') - 1) \<and>
           holds_after (\<lambda>s. mWeight s = mWeight r') (IR_Process inputs numChannels numFrames r')"
proof -
  define res where "res = (if mRawAudioSampleRate r = ir_mSampleRate r then mRawAudio r
       else resample (0 # mRawAudio r @ [0]) (mRawAudioSampleRate r) (ir_mSampleRate r) 0)"
  define L where "L = min (length res) mMaxLength"
  define gain where "gain = 10 powr (- 18 * 0.05) * 48000 / ir_mSampleRate r"
  define r1 where "r1 = r\<lparr>mResampled := res, mWeight := resize L 0 (mWeight r)\<rparr>"
  have L: "L \<le> 8192" "L < 2 ^ 64" "L \<le> length res"
    by (simp_all add: L_def mMaxLength_def)
  have "length (mWeight r1) = L" "L \<le> length (mResampled r1)"
    using L(3) by (simp_all add: r1_def resize_def)
  from set_weight_loop [OF this, of gain] obtain w where
    w: "for_loop L (set_weight L gain) r1 = Returns () (r1\<lparr>mWeight := w\<rparr>)" "length w = L"
       "\<forall>i<L. w ! (L - 1 - i) = gain * res ! i"
    by (auto simp: r1_def)
  let ?r' = "r1\<lparr>mWeight := w, mHistoryRequired := size_t_sub L 1\<rparr>"
  have sw: "SetWeights resample r = Returns () ?r'"
    using w(1)
    by (auto simp: SetWeights_def Let_def res_def L_def gain_def r1_def)
  have hr: "int (size_t_sub L 1) = (int L - 1) mod 2 ^ 64"
    using size_t_sub_int [of L 1] L(2) by simp
  have hr1: "size_t_sub L 1 = L - 1" if "0 < L"
    using that by (intro size_t_sub_le) simp_all
  have "holds_after (\<lambda>s. mWeight s = mWeight ?r') (IR_Process inputs numChannels numFrames ?r')"
    by (rule IR_Process_keeps_weight)
  with sw w(2,3) hr hr1 show ?thesis
    by (intro exI [of _ ?r']) (simp add: r1_def res_def [symmetric] L_def mMaxLength_def gain_def)
qed

theorem SetWeights_weights_witness:
  "\<exists>r'. ImpulseResponse_of_data (\<lambda>xs a b c. xs)
          \<lparr>irdata_mRawAudio = [1, 2], irdata_mRawAudioSampleRate = 48000\<rparr> 48000 = Returns () r' \<and>
        length (mWeight r') = 2 \<and>
        mWeight r' ! 1 = 10 powr (- 18 * 0.05) \<and>
        mWeight r' ! 0 = 10 powr (- 18 * 0.05) * 2 \<and>
        mHistoryRequired r' = 1"
proof -
  let ?r = "\<lparr>mOutputs = [], mOutputPointers = None, mOutputPointersSize = 0,
           mHistoryRequired = 0, mHistoryIndex = 0, mHistory = [],
           mWavState = SUCCESS, mRawAudio = [1, 2], mRawAudioSampleRate = 48000,
           mResampled = [], ir_mSampleRate = 48000, mWeight = []\<rparr> :: real ImpulseResponse"
  from SetWeights_weights [of "\<lambda>xs a b c. xs" ?r "[]" 0 0] obtain r' where
    r': "SetWeights (\<lambda>xs a b c. xs) ?r = Returns () r'"
      "mResampled r' = [1, 2]"
      "length (mWeight r') = 2"
      "\<forall>i < length (mWeight r'). mWeight r' ! (length (mWeight r') - 1 - i)
         = 10 powr (- 18 * 0.05) * 48000 / 48000 * mResampled r' ! i"
      "0 < length (mWeight r') \<longrightarrow> mHistoryRequired r' = length (mWeight r') - 1"
    by auto
  have "(0::nat) < length (mWeight r')" "(1::nat) < length (mWeight r')"
    using r'(3) by simp_all
  with r'(4) have "mWeight r' ! (length (mWeight r') - 1 - 0) = 10 powr (- 18 * 0.05) * 48000 / 48000 * mResampled r' ! 0"
    and "mWeight r' ! (length (mWeight r') - 1 - 1) = 10 powr (- 18 * 0.05) * 48000 / 48000 * mResampled r' ! 1"
    by blast+
  then have "mWeight r' ! 1 = 10 powr (- 18 * 0.05)" "mWeight r' ! 0 = 10 powr (- 18 * 0.05) * 2"
    using r'(2,3) by simp_all
  with r'(1,3,5) show ?thesis by (simp add: ImpulseResponse_of_data_def)
qed

section \<open>History continuity of the impulse response\<close>

lemma copy_back_loop:
  fixes h :: "('a, 'z) History_scheme"
  assumes "j0 + n \<le> length (mHistory h)"
  shows "\<exists>ring. for_loop n (copy_back j0) h = Returns () (h\<lparr>mHistory := ring\<rparr>)
           \<and> length ring = length (mHistory h)
           \<and> (\<forall>i<n. ring ! i = mHistory h ! (j0 + i))
           \<and> (\<forall>i. n \<le> i \<longrightarrow> ring ! i = mHistory h ! i)"
proof -
  let ?old = "mHistory h"
  define I where "I k t \<longleftrightarrow> (\<exists>ring. t = h\<lparr>mHistory := ring\<rparr> \<and> length ring = length ?old
      \<and> (\<forall>i<k. ring ! i = ?old ! (j0 + i)) \<and> (\<forall>i. k \<le> i \<longrightarrow> ring ! i = ?old ! i))" for k t
  have step: "\<exists>t'. copy_back j0 k t = Returns () t' \<and> I (Suc k) t'" if "k < n" "I k t" for k t
  proof -
    from that(2) obtain ring where r: "t = h\<lparr>mHistory := ring\<rparr>" "length ring = length ?old"
      "\<forall>i<k. ring ! i = ?old ! (j0 + i)" "\<forall>i. k \<le> i \<longrightarrow> ring ! i = ?old ! i"
      unfolding I_def by blast
    have rd: "nth_opt (mHistory t) (j0 + k) = Some (?old ! (j0 + k))"
      using that(1) assms r by (simp add: nth_opt_def)
    have k: "k < length ring" using that(1) assms r(2) by simp
    let ?ring = "ring[k := ?old ! (j0 + k)]"
    have "copy_back j0 k t = Returns () (h\<lparr>mHistory := ?ring\<rparr>)"
      unfolding copy_back_def rd using k r(1) by simp
    moreover have "\<forall>i<Suc k. ?ring ! i = ?old ! (j0 + i)"
      using r(3) k by (auto simp: nth_list_update less_Suc_eq)
    moreover have "\<forall>i. Suc k \<le> i \<longrightarrow> ?ring ! i = ?old ! i"
      using r(4) by (auto simp: nth_list_update)
    ultimately show ?thesis unfolding I_def using r(2) by auto
  qed
  have "I 0 h" unfolding I_def by (rule exI [of _ ?old]) simp
  from for_loop_total [where I = I and body = "copy_back j0" and n = n, OF this step]
  obtain s' where "for_loop n (copy_back j0) h = Returns () s'" "I n s'" by blast
  then show ?thesis unfolding I_def by blast
qed

lemma RewindHistory_spec:
  fixes h :: "('a, 'z) History_scheme"
  assumes "mHistoryRequired h \<le> mHistoryIndex h" "mHistoryIndex h \<le> length (mHistory h)"
  shows "\<exists>ring. RewindHistory h = Returns () (h\<lparr>mHistory := ring, mHistoryIndex := mHistoryRequired h\<rparr>)
           \<and> length ring = length (mHistory h)
           \<and> (\<forall>i<mHistoryRequired h. ring ! i = mHistory h ! (mHistoryIndex h - mHistoryRequired h + i))
           \<and> take (mHistoryRequired h) ring = recent h"
proof -
  let ?H = "mHistoryRequired h" and ?j = "mHistoryIndex h"
  have j0: "size_t_sub ?j ?H = ?j - ?H" using assms(1) by (rule size_t_sub_le)
  have "?j - ?H + ?H \<le> length (mHistory h)" using assms by simp
  from copy_back_loop [OF this] obtain ring where
    r: "for_loop ?H (copy_back (?j - ?H)) h = Returns () (h\<lparr>mHistory := ring\<rparr>)"
       "length ring = length (mHistory h)"
       "\<forall>i<?H. ring ! i = mHistory h ! (?j - ?H + i)"
    by blast
  have "RewindHistory h = Returns () (h\<lparr>mHistory := ring, mHistoryIndex := ?H\<rparr>)"
    unfolding RewindHistory_def j0 r(1) by simp
  moreover have "take ?H ring = recent h"
    unfolding recent_def
    using r(2,3) assms by (intro nth_equalityI) simp_all
  ultimately show ?thesis using r(2,3) by blast
qed

lemma store_input_loop:
  fixes h :: "('a, 'z) History_scheme"
  assumes "mHistoryIndex h + n \<le> length (mHistory h)"
    and "inputs \<noteq> []" "n \<le> length (inputs ! 0)"
  shows "\<exists>ring. for_loop n (store_input inputs) h = Returns () (h\<lparr>mHistory := ring\<rparr>)
           \<and> length ring = length (mHistory h)
           \<and> (\<forall>i. ring ! i = (if mHistoryIndex h \<le> i \<and> i < mHistoryIndex h + n
                               then inputs ! 0 ! (i - mHistoryIndex h) else mHistory h ! i))"
proof -
  let ?old = "mHistory h" and ?j = "mHistoryIndex h"
  define I where "I k t \<longleftrightarrow> (\<exists>ring. t = h\<lparr>mHistory := ring\<rparr> \<and> length ring = length ?old
      \<and> (\<forall>i. ring ! i = (if ?j \<le> i \<and> i < ?j + k then inputs ! 0 ! (i - ?j) else ?old ! i)))" for k t
  have step: "\<exists>t'. store_input inputs k t = Returns () t' \<and> I (Suc k) t'" if "k < n" "I k t" for k t
  proof -
    from that(2) obtain ring where r: "t = h\<lparr>mHistory := ring\<rparr>" "length ring = length ?old"
      "\<forall>i. ring ! i = (if ?j \<le> i \<and> i < ?j + k then inputs ! 0 ! (i - ?j) else ?old ! i)"
      unfolding I_def by blast
    have rd: "at2 inputs 0 k = Some (inputs ! 0 ! k)"
      using that(1) assms(2,3) by (simp add: at2_def nth_opt_def)
    have k: "?j + k < length ring" using that(1) assms(1) r(2) by simp
    let ?ring = "ring[?j + k := inputs ! 0 ! k]"
    have "store_input inputs k t = Returns () (h\<lparr>mHistory := ?ring\<rparr>)"
      unfolding store_input_def rd using k r(1) by simp
    moreover have "\<forall>i. ?ring ! i = (if ?j \<le> i \<and> i < ?j + Suc k then inputs ! 0 ! (i - ?j) else ?old ! i)"
    proof
      fix i
      show "?ring ! i = (if ?j \<le> i \<and> i < ?j + Suc k then inputs ! 0 ! (i - ?j) else ?old ! i)"
      proof (cases "i = ?j + k")
        case True
        then show ?thesis using k by simp
      next
        case False
        then have "?ring ! i = ring ! i" by simp
        with r(3) False show ?thesis by auto
      qed
    qed
    ultimately show ?thesis unfolding I_def using r(2) by auto
  qed
  have "I 0 h" unfolding I_def by (rule exI [of _ ?old]) simp
  from for_loop_total [where I = I and body = "store_input inputs" and n = n, OF this step]
  obtain s' where "for_loop n (store_input inputs) h = Returns () s'" "I n s'" by blast
  then show ?thesis unfolding I_def by blast
qed

lemma EnsureHistorySize_fits:
  assumes "10 * max nf (mHistoryRequired h) \<le> max_size"
  shows "EnsureHistorySize nf h
           = Returns () (if length (mHistory h) < 10 * max nf (mHistoryRequired h)
                         then h\<lparr>mHistory := replicate (10 * max nf (mHistoryRequired h)) 0,
                                 mHistoryIndex := mHistoryRequired h\<rparr>
                         else h)"
proof -
  have "max_size < 2 ^ 64" by (simp add: max_size_def)
  with assms have "10 * max nf (mHistoryRequired h) < 2 ^ 64" by (rule le_less_trans)
  then have "(10 * max nf (mHistoryRequired h)) mod 2 ^ 64 = 10 * max nf (mHistoryRequired h)"
    by (rule mod_less)
  then show ?thesis
    using assms unfolding EnsureHistorySize_def Let_def by simp
qed

lemma UpdateHistory_spec:
  fixes h :: "('a, 'z) History_scheme"
  assumes wf: "History_wf h" and nc: "1 \<le> nc" and inp: "inputs \<noteq> []" "nf \<le> length (inputs ! 0)"
    and fits: "10 * max nf (mHistoryRequired h) \<le> max_size"
  defines "H \<equiv> mHistoryRequired h"
  defines "need \<equiv> 10 * max nf (mHistoryRequired h)"
  shows "\<exists>ring j. UpdateHistory inputs nc nf h = Returns () (h\<lparr>mHistory := ring, mHistoryIndex := j\<rparr>)
           \<and> H \<le> j \<and> j + nf \<le> length ring
           \<and> length ring = (if length (mHistory h) < need then need else length (mHistory h))
           \<and> (\<forall>i<H. ring ! (j - H + i)
                  = (if length (mHistory h) < need then 0 else mHistory h ! (mHistoryIndex h - H + i)))
           \<and> (\<forall>i<nf. ring ! (j + i) = inputs ! 0 ! i)"
proof -
  define e0 where "e0 = (if length (mHistory h) < need
      then h\<lparr>mHistory := replicate need 0, mHistoryIndex := H\<rparr> else h)"
  have ens: "EnsureHistorySize nf h = Returns () e0"
    unfolding e0_def need_def H_def using fits by (rule EnsureHistorySize_fits)
  have fin: "\<exists>ring j. UpdateHistory inputs nc nf h = Returns () (h\<lparr>mHistory := ring, mHistoryIndex := j\<rparr>)
           \<and> H \<le> j \<and> j + nf \<le> length ring
           \<and> length ring = (if length (mHistory h) < need then need else length (mHistory h))
           \<and> (\<forall>i<H. ring ! (j - H + i)
                  = (if length (mHistory h) < need then 0 else mHistory h ! (mHistoryIndex h - H + i)))
           \<and> (\<forall>i<nf. ring ! (j + i) = inputs ! 0 ! i)"
    if pre: "obind (if length (mHistory (e0)) \<le> mHistoryIndex (e0) + nf
                then RewindHistory (e0) else Returns () (e0))
               (\<lambda>_. for_loop nf (store_input inputs))
             = for_loop nf (store_input inputs) (h\<lparr>mHistory := rg, mHistoryIndex := j\<rparr>)"
      and j: "H \<le> j" "j + nf \<le> length rg"
      and len: "length rg = (if length (mHistory h) < need then need else length (mHistory h))"
      and old: "\<forall>i<H. rg ! (j - H + i)
                  = (if length (mHistory h) < need then 0 else mHistory h ! (mHistoryIndex h - H + i))"
    for rg j
  proof -
    let ?h1 = "h\<lparr>mHistory := rg, mHistoryIndex := j\<rparr>"
    have "mHistoryIndex ?h1 + nf \<le> length (mHistory ?h1)" using j(2) by simp
    from store_input_loop [OF this inp] obtain ring where
      r: "for_loop nf (store_input inputs) ?h1 = Returns () (?h1\<lparr>mHistory := ring\<rparr>)"
         "length ring = length rg"
         "\<forall>i. ring ! i = (if j \<le> i \<and> i < j + nf then inputs ! 0 ! (i - j) else rg ! i)"
      by auto
    have "UpdateHistory inputs nc nf h = Returns () (h\<lparr>mHistory := ring, mHistoryIndex := j\<rparr>)"
      unfolding UpdateHistory_def ens using nc pre r(1) by simp
    moreover have "\<forall>i<H. ring ! (j - H + i)
                  = (if length (mHistory h) < need then 0 else mHistory h ! (mHistoryIndex h - H + i))"
      using r(3) old j(1) by auto
    moreover have "\<forall>i<nf. ring ! (j + i) = inputs ! 0 ! i"
      using r(3) by simp
    moreover have "length ring = (if length (mHistory h) < need then need else length (mHistory h))"
      using r(2) len by simp
    moreover have "j + nf \<le> length ring" using j(2) r(2) by simp
    ultimately show ?thesis using j(1) by blast
  qed
  show ?thesis
  proof (cases "length (mHistory h) < need")
    case grown: True
    let ?e = "h\<lparr>mHistory := replicate need 0, mHistoryIndex := H\<rparr>"
    have e: "e0 = ?e"
      using grown by (simp add: e0_def)
    have "0 < need" using grown by simp
    then have "0 < max nf H" by (simp add: need_def H_def)
    then have fit: "H + nf < need" by (simp add: need_def H_def max_def split: if_splits)
    show ?thesis
    proof (rule fin [where rg = "replicate need 0" and j = H])
      show "obind (if length (mHistory (e0)) \<le> mHistoryIndex (e0) + nf
                then RewindHistory (e0) else Returns () (e0))
               (\<lambda>_. for_loop nf (store_input inputs))
             = for_loop nf (store_input inputs) ?e"
        unfolding e using fit by simp
      show "\<forall>i<H. replicate need 0 ! (H - H + i)
                  = (if length (mHistory h) < need then 0 else mHistory h ! (mHistoryIndex h - H + i))"
        using grown fit by simp
    qed (use grown fit in simp_all)
  next
    case same: False
    have e: "e0 = h"
      using same by (simp add: e0_def)
    have fit: "H + nf \<le> length (mHistory h)"
      using same by (simp add: need_def H_def max_def split: if_splits)
    show ?thesis
    proof (cases "length (mHistory h) \<le> mHistoryIndex h + nf")
      case norew: False
      have bnd: "H \<le> mHistoryIndex h"
        using wf norew by (auto simp: History_wf_def H_def)
      show ?thesis
      proof (rule fin [where rg = "mHistory h" and j = "mHistoryIndex h"])
        show "obind (if length (mHistory (e0)) \<le> mHistoryIndex (e0) + nf
                then RewindHistory (e0) else Returns () (e0))
               (\<lambda>_. for_loop nf (store_input inputs))
             = for_loop nf (store_input inputs) (h\<lparr>mHistory := mHistory h, mHistoryIndex := mHistoryIndex h\<rparr>)"
          unfolding e using norew by simp
      qed (use same norew bnd in simp_all)
    next
      case rew: True
      have "\<exists>ring. RewindHistory h = Returns () (h\<lparr>mHistory := ring, mHistoryIndex := H\<rparr>)
           \<and> length ring = length (mHistory h)
           \<and> (\<forall>i<H. ring ! i = mHistory h ! (mHistoryIndex h - H + i))"
      proof (cases "mHistory h = []")
        case True
        with fit have "H = 0" by simp
        then have "RewindHistory h = Returns () (h\<lparr>mHistory := mHistory h, mHistoryIndex := H\<rparr>)"
          by (simp add: RewindHistory_def H_def)
        with \<open>H = 0\<close> show ?thesis by (intro exI [of _ "mHistory h"]) simp
      next
        case False
        with wf have "mHistoryRequired h \<le> mHistoryIndex h" "mHistoryIndex h \<le> length (mHistory h)"
          by (auto simp: History_wf_def)
        from RewindHistory_spec [OF this] show ?thesis unfolding H_def by blast
      qed
      then obtain ring where
        rw: "RewindHistory h = Returns () (h\<lparr>mHistory := ring, mHistoryIndex := H\<rparr>)"
            "length ring = length (mHistory h)"
            "\<forall>i<H. ring ! i = mHistory h ! (mHistoryIndex h - H + i)"
        by blast
      show ?thesis
      proof (rule fin [where rg = ring and j = H])
        show "obind (if length (mHistory (e0)) \<le> mHistoryIndex (e0) + nf
                then RewindHistory (e0) else Returns () (e0))
               (\<lambda>_. for_loop nf (store_input inputs))
             = for_loop nf (store_input inputs) (h\<lparr>mHistory := ring, mHistoryIndex := H\<rparr>)"
          unfolding e using rew rw(1) by simp
      qed (use same rw fit in simp_all)
    qed
  qed
qed

lemma shaped_rows:
  "shaped d nc nf \<Longrightarrow> length (mOutputs d) = nc \<and> (\<forall>c<nc. length (mOutputs d ! c) = nf)"
  by (auto simp: shaped_def list_all_length)

lemma shaped_outputs:
  "shaped d nc nf \<Longrightarrow> length outs = nc \<Longrightarrow> \<forall>c<nc. length (outs ! c) = nf
     \<Longrightarrow> shaped (d\<lparr>mOutputs := outs\<rparr>) nc nf"
  by (auto simp: shaped_def list_all_length)

lemma convolve_loop:
  fixes r :: "(real, 'z) ImpulseResponse_scheme"
  assumes shp: "shaped r nc nf" and nc: "1 \<le> nc"
    and w: "mHistoryRequired r + 1 = length (mWeight r)" "length (mWeight r) \<le> mMaxLength"
    and fit: "j0 + mHistoryRequired r + nf \<le> length (mHistory r)"
  shows "\<exists>outs. for_loop nf (convolve_frame j0) r = Returns () (r\<lparr>mOutputs := outs\<rparr>)
           \<and> shaped (r\<lparr>mOutputs := outs\<rparr>) nc nf
           \<and> (\<forall>i<nf. outs ! 0 ! i
                  = dot (mWeight r) (take (mHistoryRequired r + 1) (drop (j0 + i) (mHistory r))))"
proof -
  let ?H = "mHistoryRequired r"
  let ?val = "\<lambda>i. dot (mWeight r) (take (?H + 1) (drop (j0 + i) (mHistory r)))"
  have n: "(?H + 1) mod 2 ^ 64 = ?H + 1"
  proof -
    have "?H + 1 \<le> 8192" using w by (simp add: mMaxLength_def)
    then have "?H + 1 < 2 ^ 64" by simp
    then show ?thesis by (rule mod_less)
  qed
  define ok where "ok outs \<longleftrightarrow> length outs = nc \<and> (\<forall>c<nc. length (outs ! c) = nf)" for outs :: "real list list"
  define I where "I k t \<longleftrightarrow> (\<exists>outs. t = r\<lparr>mOutputs := outs\<rparr> \<and> ok outs \<and> (\<forall>i<k. outs ! 0 ! i = ?val i))" for k t
  have step: "\<exists>t'. convolve_frame j0 k t = Returns () t' \<and> I (Suc k) t'" if "k < nf" "I k t" for k t
  proof -
    from that(2) obtain outs where o: "t = r\<lparr>mOutputs := outs\<rparr>" "ok outs" "\<forall>i<k. outs ! 0 ! i = ?val i"
      unfolding I_def by blast
    let ?outs = "outs[0 := (outs ! 0)[k := ?val k]]"
    have b: "j0 + k + (?H + 1) \<le> length (mHistory r)" using that(1) fit by simp
    have sel: "mHistoryRequired t = ?H" "mHistory t = mHistory r" "mWeight t = mWeight r"
      using o(1) by simp_all
    have "convolve_frame j0 k t = write_output 0 k (?val k) t"
      unfolding convolve_frame_def Let_def sel n using b w(1) by simp
    moreover have "0 < length outs" "k < length (outs ! 0)"
      using o(2) that(1) nc unfolding ok_def by auto
    ultimately have "convolve_frame j0 k t = Returns () (r\<lparr>mOutputs := ?outs\<rparr>)"
      using o(1) by (simp add: write_output_def)
    moreover have "ok ?outs"
      using o(2) nc unfolding ok_def by (auto simp: nth_list_update)
    moreover have "\<forall>i<Suc k. ?outs ! 0 ! i = ?val i"
      using o(2,3) nc that(1) unfolding ok_def by (auto simp: nth_list_update less_Suc_eq)
    ultimately show ?thesis unfolding I_def by blast
  qed
  have "I 0 r" unfolding I_def ok_def
    using shaped_rows [OF shp] by (intro exI [of _ "mOutputs r"]) simp
  from for_loop_total [where I = I and body = "convolve_frame j0" and n = nf, OF this step]
  obtain s' where s': "for_loop nf (convolve_frame j0) r = Returns () s'" "I nf s'" by blast
  then obtain outs where o: "s' = r\<lparr>mOutputs := outs\<rparr>" "ok outs" "\<forall>i<nf. outs ! 0 ! i = ?val i"
    unfolding I_def by blast
  have "shaped (r\<lparr>mOutputs := outs\<rparr>) nc nf"
    using shp o(2) unfolding ok_def by (intro shaped_outputs) simp_all
  with s'(1) o(1,3) show ?thesis by blast
qed

lemma copy_channel0_loops:
  fixes d :: "('a, 'z) DSP_scheme"
  assumes shp: "shaped d nc nf" and nc: "1 \<le> nc"
  shows "\<exists>outs. for_loop (nc - 1) (\<lambda>k. for_loop nf (copy_channel0 (Suc k))) d
             = Returns () (d\<lparr>mOutputs := outs\<rparr>)
           \<and> shaped (d\<lparr>mOutputs := outs\<rparr>) nc nf
           \<and> (\<forall>c<nc. \<forall>i<nf. outs ! c ! i = mOutputs d ! 0 ! i)"
proof -
  let ?row0 = "mOutputs d ! 0"
  define ok where "ok outs \<longleftrightarrow> length outs = nc \<and> (\<forall>c<nc. length (outs ! c) = nf) \<and> outs ! 0 = ?row0"
    for outs :: "'a list list"
  define Iin where "Iin k i t \<longleftrightarrow> (\<exists>outs. t = d\<lparr>mOutputs := outs\<rparr> \<and> ok outs
      \<and> (\<forall>c\<le>k. \<forall>s<nf. outs ! c ! s = ?row0 ! s) \<and> (\<forall>s<i. outs ! Suc k ! s = ?row0 ! s))" for k i t
  define Iout where "Iout k t \<longleftrightarrow> (\<exists>outs. t = d\<lparr>mOutputs := outs\<rparr> \<and> ok outs
      \<and> (\<forall>c\<le>k. \<forall>s<nf. outs ! c ! s = ?row0 ! s))" for k t
  have inner: "\<exists>t'. copy_channel0 (Suc k) i t = Returns () t' \<and> Iin k (Suc i) t'"
    if "k < nc - 1" "i < nf" "Iin k i t" for k i t
  proof -
    from that(3) obtain outs where o: "t = d\<lparr>mOutputs := outs\<rparr>" "ok outs"
      "\<forall>c\<le>k. \<forall>s<nf. outs ! c ! s = ?row0 ! s" "\<forall>s<i. outs ! Suc k ! s = ?row0 ! s"
      unfolding Iin_def by blast
    have len: "length outs = nc" "length (outs ! 0) = nf" "length (outs ! Suc k) = nf" "outs ! 0 = ?row0"
    proof -
      from o(2) have a: "length outs = nc" "\<forall>c<nc. length (outs ! c) = nf" "outs ! 0 = ?row0"
        unfolding ok_def by blast+
      from a(2) nc have "length (outs ! 0) = nf" by simp
      moreover from a(2) that(1) have "length (outs ! Suc k) = nf" by simp
      ultimately show "length outs = nc" "length (outs ! 0) = nf" "length (outs ! Suc k) = nf" "outs ! 0 = ?row0"
        using a by simp_all
    qed
    let ?outs = "outs[Suc k := (outs ! Suc k)[i := ?row0 ! i]]"
    have rd: "at2 (mOutputs t) 0 i = Some (?row0 ! i)"
      using o(1) len that(2) nc by (simp add: at2_def nth_opt_def)
    have "copy_channel0 (Suc k) i t = Returns () (d\<lparr>mOutputs := ?outs\<rparr>)"
      unfolding copy_channel0_def rd using o(1) len that(1,2) by (simp add: write_output_def)
    moreover have "ok ?outs"
      using len unfolding ok_def
    proof (intro conjI allI impI)
      fix c assume "c < nc"
      with o(2) have "length (outs ! c) = nf" unfolding ok_def by blast
      with len(1,3) \<open>c < nc\<close> show "length (?outs ! c) = nf"
        by (cases "c = Suc k") simp_all
    qed simp_all
    moreover have "\<forall>c\<le>k. \<forall>s<nf. ?outs ! c ! s = ?row0 ! s"
      using o(3) by simp
    moreover have "\<forall>s<Suc i. ?outs ! Suc k ! s = ?row0 ! s"
      using o(4) len that(1,2) by (auto simp: nth_list_update less_Suc_eq)
    ultimately show ?thesis unfolding Iin_def by blast
  qed
  have outer: "\<exists>t'. for_loop nf (copy_channel0 (Suc k)) t = Returns () t' \<and> Iout (Suc k) t'"
    if "k < nc - 1" "Iout k t" for k t
  proof -
    have "Iin k 0 t" using that(2) unfolding Iin_def Iout_def by auto
    from for_loop_total [where I = "Iin k" and body = "copy_channel0 (Suc k)" and n = nf, OF this]
      inner [OF that(1)]
    obtain t' where t': "for_loop nf (copy_channel0 (Suc k)) t = Returns () t'" "Iin k nf t'"
      by blast
    from t'(2) have "Iout (Suc k) t'"
      unfolding Iin_def Iout_def by (auto simp: le_Suc_eq)
    with t'(1) show ?thesis by blast
  qed
  have "Iout 0 d" unfolding Iout_def ok_def
    using shaped_rows [OF shp] by (intro exI [of _ "mOutputs d"]) simp
  from for_loop_total [where I = Iout and body = "\<lambda>k. for_loop nf (copy_channel0 (Suc k))" and n = "nc - 1",
      OF this outer]
  obtain s' where s': "for_loop (nc - 1) (\<lambda>k. for_loop nf (copy_channel0 (Suc k))) d = Returns () s'"
    "Iout (nc - 1) s'" by blast
  then obtain outs where o: "s' = d\<lparr>mOutputs := outs\<rparr>" "ok outs"
    "\<forall>c\<le>nc - 1. \<forall>s<nf. outs ! c ! s = ?row0 ! s"
    unfolding Iout_def by blast
  have "shaped (d\<lparr>mOutputs := outs\<rparr>) nc nf"
    using shp o(2) unfolding ok_def by (intro shaped_outputs) simp_all
  moreover have "\<forall>c<nc. \<forall>i<nf. outs ! c ! i = ?row0 ! i"
    using o(3) by auto
  ultimately show ?thesis using s'(1) o(1) by blast
qed

lemma shaped_DSP_wf: "shaped d nc nf \<Longrightarrow> DSP_wf d"
proof -
  assume s: "shaped d nc nf"
  then have rows: "length (mOutputs d) = nc" "\<forall>c<nc. length (mOutputs d ! c) = nf"
    using shaped_rows by blast+
  have "list_all (\<lambda>ch. length ch = GetNumFrames d) (mOutputs d)"
    using rows by (cases "nc = 0") (auto simp: GetNumFrames_def GetNumChannels_def list_all_length)
  with s show ?thesis
    by (auto simp: shaped_def DSP_wf_def split: option.splits)
qed

lemma block_ok_channel0:
  "block_ok inputs nc nf \<Longrightarrow> 1 \<le> nc \<Longrightarrow> inputs \<noteq> [] \<and> nf \<le> length (inputs ! 0)"
proof -
  assume a: "block_ok inputs nc nf" "1 \<le> nc"
  then have "0 < length inputs" by (cases inputs) (auto simp: block_ok_def)
  moreover from a have "\<forall>n<length (take nc inputs). nf \<le> length (take nc inputs ! n)"
    by (simp add: block_ok_def list_all_length)
  then have "nf \<le> length (take nc inputs ! 0)"
    using a(2) \<open>0 < length inputs\<close> by simp
  ultimately show ?thesis using a(2) by simp
qed

lemma UpdateHistory_spec_fields:
  fixes h :: "('a, 'z) History_scheme"
  assumes "History_wf h" "1 \<le> nc" "inputs \<noteq> []" "nf \<le> length (inputs ! 0)"
    and "10 * max nf (mHistoryRequired h) \<le> max_size"
    and "mHistoryRequired h = H" "mHistory h = old" "mHistoryIndex h = idx"
  shows "\<exists>ring j. UpdateHistory inputs nc nf h = Returns () (h\<lparr>mHistory := ring, mHistoryIndex := j\<rparr>)
           \<and> H \<le> j \<and> j + nf \<le> length ring
           \<and> length ring = (if length old < 10 * max nf H then 10 * max nf H else length old)
           \<and> (\<forall>i<H. ring ! (j - H + i) = (if length old < 10 * max nf H then 0 else old ! (idx - H + i)))
           \<and> (\<forall>i<nf. ring ! (j + i) = inputs ! 0 ! i)"
  using UpdateHistory_spec [OF assms(1-5)] unfolding assms(6-8) .

lemma IR_Process_concrete:
  fixes r :: "(real, 'z) ImpulseResponse_scheme"
  assumes wf: "IR_wf r" and nc: "1 \<le> nc" and blk: "block_ok inputs nc nf"
    and sz: "10 * nf \<le> max_size"
  defines "H \<equiv> mHistoryRequired r"
  defines "need \<equiv> 10 * max nf (mHistoryRequired r)"
  shows "\<exists>ptrs r' ring j. IR_Process inputs nc nf r = Returns ptrs r'
           \<and> IR_wf r' \<and> mWeight r' = mWeight r \<and> mHistoryRequired r' = H
           \<and> mHistory r' = ring \<and> mHistoryIndex r' = j + nf
           \<and> H \<le> j \<and> j + nf \<le> length ring
           \<and> length ring = (if length (mHistory r) < need then need else length (mHistory r))
           \<and> (\<forall>i<H. ring ! (j - H + i)
                  = (if length (mHistory r) < need then 0 else mHistory r ! (mHistoryIndex r - H + i)))
           \<and> (\<forall>i<nf. ring ! (j + i) = inputs ! 0 ! i)
           \<and> (\<forall>c<nc. \<forall>s<nf. deref r' ptrs c s
                  = Some (dot (mWeight r) (take (H + 1) (drop (j - H + s) ring))))"
proof -
  from wf have dwf: "DSP_wf r" and hwf: "History_wf r"
    and w: "mHistoryRequired r + 1 = length (mWeight r)" "length (mWeight r) \<le> mMaxLength"
    and wne: "mWeight r \<noteq> []"
    by (simp_all add: IR_wf_def)
  from PrepareBuffers_shaped [OF dwf, of nc nf] obtain o1 p1 where
    pb: "PrepareBuffers nc nf r = Returns () (r\<lparr>mOutputs := o1, mOutputPointers := p1, mOutputPointersSize := nc\<rparr>)"
    and sh1: "shaped (r\<lparr>mOutputs := o1, mOutputPointers := p1, mOutputPointersSize := nc\<rparr>) nc nf"
    by blast
  let ?r1 = "r\<lparr>mOutputs := o1, mOutputPointers := p1, mOutputPointersSize := nc\<rparr>"
  have hwf1: "History_wf ?r1" using hwf by (simp add: History_wf_def)
  from block_ok_channel0 [OF blk nc] have inp: "inputs \<noteq> []" "nf \<le> length (inputs ! 0)" by simp_all
  have "10 * mHistoryRequired r \<le> max_size"
    using w by (simp add: mMaxLength_def max_size_def)
  with sz have fits: "10 * max nf (mHistoryRequired ?r1) \<le> max_size"
    by (simp add: max_def)
  have "\<exists>ring j. UpdateHistory inputs nc nf ?r1 = Returns () (?r1\<lparr>mHistory := ring, mHistoryIndex := j\<rparr>)
           \<and> H \<le> j \<and> j + nf \<le> length ring
           \<and> length ring = (if length (mHistory r) < 10 * max nf H then 10 * max nf H else length (mHistory r))
           \<and> (\<forall>i<H. ring ! (j - H + i)
                 = (if length (mHistory r) < 10 * max nf H then 0 else mHistory r ! (mHistoryIndex r - H + i)))
           \<and> (\<forall>i<nf. ring ! (j + i) = inputs ! 0 ! i)"
    by (rule UpdateHistory_spec_fields [OF hwf1 nc inp fits]) (simp_all add: H_def)
  then obtain ring j where
    uh: "UpdateHistory inputs nc nf ?r1 = Returns () (?r1\<lparr>mHistory := ring, mHistoryIndex := j\<rparr>)"
    and j: "H \<le> j" "j + nf \<le> length ring"
    and len: "length ring = (if length (mHistory r) < need then need else length (mHistory r))"
    and old: "\<forall>i<H. ring ! (j - H + i)
                  = (if length (mHistory r) < need then 0 else mHistory r ! (mHistoryIndex r - H + i))"
    and new: "\<forall>i<nf. ring ! (j + i) = inputs ! 0 ! i"
    unfolding need_def H_def [symmetric] by blast
  let ?r2 = "?r1\<lparr>mHistory := ring, mHistoryIndex := j\<rparr>"
  have sh2: "shaped ?r2 nc nf" using sh1 by (simp add: shaped_def)
  have j0: "size_t_sub (mHistoryIndex ?r2) (mHistoryRequired ?r2) = j - H"
    using j(1) by (simp add: size_t_sub_le H_def)
  have fit: "(j - H) + mHistoryRequired ?r2 + nf \<le> length (mHistory ?r2)"
    using j by (simp add: H_def)
  from convolve_loop [OF sh2 nc _ _ fit] w obtain o3 where
    cv: "for_loop nf (convolve_frame (j - H)) ?r2 = Returns () (?r2\<lparr>mOutputs := o3\<rparr>)"
    and sh3: "shaped (?r2\<lparr>mOutputs := o3\<rparr>) nc nf"
    and v3: "\<forall>i<nf. o3 ! 0 ! i = dot (mWeight r) (take (H + 1) (drop (j - H + i) ring))"
    by (auto simp: H_def)
  let ?r3 = "?r2\<lparr>mOutputs := o3\<rparr>"
  from copy_channel0_loops [OF sh3 nc] obtain o4 where
    cp: "for_loop (nc - 1) (\<lambda>k. for_loop nf (copy_channel0 (Suc k))) ?r3 = Returns () (?r3\<lparr>mOutputs := o4\<rparr>)"
    and sh4: "shaped (?r3\<lparr>mOutputs := o4\<rparr>) nc nf"
    and v4: "\<forall>c<nc. \<forall>i<nf. o4 ! c ! i = o3 ! 0 ! i"
    by auto
  let ?r5 = "AdvanceHistoryIndex nf (?r3\<lparr>mOutputs := o4\<rparr>)"
  have sh5: "shaped ?r5 nc nf" using sh4 by (simp add: shaped_def AdvanceHistoryIndex_def)
  from GetPointers_shaped [OF sh5] obtain ptrs where
    gp: "GetPointers ?r5 = Returns ptrs (?r5\<lparr>mOutputPointers := ptrs\<rparr>)"
    and sh': "shaped (?r5\<lparr>mOutputPointers := ptrs\<rparr>) nc nf"
    and dr: "\<forall>c<nc. \<forall>s<nf. deref (?r5\<lparr>mOutputPointers := ptrs\<rparr>) ptrs c s = Some (mOutputs ?r5 ! c ! s)"
    by blast
  let ?r' = "?r5\<lparr>mOutputPointers := ptrs\<rparr>"
  have proc: "IR_Process inputs nc nf r = Returns ptrs ?r'"
    unfolding IR_Process_def pb obind_simps uh j0 cv cp gp ..
  have "IR_wf ?r'"
    unfolding IR_wf_def
    using shaped_DSP_wf [OF sh'] w wne j
    by (simp add: History_wf_def AdvanceHistoryIndex_def H_def)
  moreover have "\<forall>c<nc. \<forall>s<nf. deref ?r' ptrs c s
                  = Some (dot (mWeight r) (take (H + 1) (drop (j - H + s) ring)))"
    using dr v4 v3 by (simp add: AdvanceHistoryIndex_def)
  moreover have "mWeight ?r' = mWeight r" "mHistoryRequired ?r' = H" "mHistory ?r' = ring"
    "mHistoryIndex ?r' = j + nf"
    by (simp_all add: AdvanceHistoryIndex_def H_def)
  ultimately show ?thesis using proc j len old new by blast
qed

lemma window_eq:
  fixes ring tb :: "real list"
  assumes reg: "\<forall>m<H + nf. ring ! (a + m) = tb ! (lt - H + m)"
    and H: "H \<le> lt" and len: "length tb = lt + nf"
    and fit: "a + H + nf \<le> length ring" and s: "s < nf"
  shows "take (H + 1) (drop (a + s) ring) = take (H + 1) (drop (lt - H + s) tb)"
proof (rule nth_equalityI)
  show "length (take (H + 1) (drop (a + s) ring)) = length (take (H + 1) (drop (lt - H + s) tb))"
    using H len fit s by simp
next
  fix k assume "k < length (take (H + 1) (drop (a + s) ring))"
  then have k: "k \<le> H" by simp
  have "ring ! (a + (s + k)) = tb ! (lt - H + (s + k))"
    using reg k s by simp
  then show "take (H + 1) (drop (a + s) ring) ! k = take (H + 1) (drop (lt - H + s) tb) ! k"
    using k H len fit s by (simp add: add.assoc)
qed

lemma recent_eq:
  fixes ring tb :: "real list"
  assumes reg: "\<forall>m<H + nf. ring ! (a + m) = tb ! (lt - H + m)"
    and H: "H \<le> lt" and len: "length tb = lt + nf"
    and fit: "a + H + nf \<le> length ring"
  shows "take H (drop (a + nf) ring) = drop (length tb - H) tb"
proof (rule nth_equalityI)
  show "length (take H (drop (a + nf) ring)) = length (drop (length tb - H) tb)"
    using H len fit by simp
next
  fix k assume "k < length (take H (drop (a + nf) ring))"
  then have k: "k < H" by simp
  have "ring ! (a + (nf + k)) = tb ! (lt - H + (nf + k))"
    using reg k by simp
  moreover have "length tb - H + k = lt - H + (nf + k)"
    using H len by simp
  ultimately show "take H (drop (a + nf) ring) ! k = drop (length tb - H) tb ! k"
    using k H len fit by (simp add: add.assoc)
qed

lemma map_upt_const: "(\<And>c. c < n \<Longrightarrow> f c = v) \<Longrightarrow> map f [0..<n] = replicate n v"
  by (rule nth_equalityI) simp_all

lemma IR_Process_step:
  fixes r :: "(real, 'z) ImpulseResponse_scheme"
  assumes wf: "IR_wf r" and rel: "same_history r st" and nc: "1 \<le> nc" and blk: "block_ok inputs nc nf"
    and sz: "10 * nf \<le> max_size"
  shows "\<exists>ptrs r'. IR_Process inputs nc nf r = Returns ptrs r'
           \<and> IR_wf r' \<and> mWeight r' = mWeight r
           \<and> same_history r' (snd (norewind_Process (mWeight r) (take nf (inputs ! 0)) st))
           \<and> read_block r' ptrs nc nf
                = replicate nc (map Some (fst (norewind_Process (mWeight r) (take nf (inputs ! 0)) st)))"
proof -
  define H where "H = mHistoryRequired r"
  define need where "need = 10 * max nf H"
  define block where "block = take nf (inputs ! 0)"
  define grown where "grown \<longleftrightarrow> length (mHistory r) < need"
  define tape where "tape = (if grown then replicate H 0 else snd st)"
  define tb where "tb = tape @ block"
  define lt where "lt = length tape"
  from wf have w: "H + 1 = length (mWeight r)" and hwf: "History_wf r"
    by (simp_all add: IR_wf_def H_def)
  from block_ok_channel0 [OF blk nc] have nfb: "length block = nf"
    by (simp add: block_def)
  from rel have cap: "fst st = length (mHistory r)" by (simp add: same_history_def)
  have nr: "norewind_Process (mWeight r) block st
      = (map (\<lambda>i. dot (mWeight r) (take (H + 1) (drop (lt - H + i) tb))) [0..<nf],
         (if grown then need else length (mHistory r), tb))"
  proof -
    have "length (mWeight r) - 1 = H" using w by simp
    then show ?thesis
      unfolding norewind_Process_def Let_def
      by (simp add: nfb cap need_def grown_def tape_def tb_def lt_def)
  qed
  have Hlt: "H \<le> lt" and old: "\<not> grown \<Longrightarrow> m < H \<Longrightarrow> mHistory r ! (mHistoryIndex r - H + m) = tape ! (lt - H + m)" for m
  proof -
    show "H \<le> lt"
    proof (cases grown)
      case True
      then show ?thesis by (simp add: lt_def tape_def)
    next
      case False
      show ?thesis
      proof (cases "mHistory r = []")
        case True
        with False have "need = 0" by (simp add: grown_def)
        then show ?thesis by (simp add: need_def)
      next
        case ne: False
        with rel False show ?thesis
          by (simp add: same_history_def lt_def tape_def H_def)
      qed
    qed
    assume ng: "\<not> grown" and m: "m < H"
    then have "0 < need" by (simp add: need_def)
    with ng have ne: "mHistory r \<noteq> []" by (auto simp: grown_def)
    with rel have rc: "recent r = drop (lt - H) tape"
      using ng by (simp add: same_history_def lt_def tape_def H_def)
    from ne hwf have b: "H \<le> mHistoryIndex r" "mHistoryIndex r \<le> length (mHistory r)"
      by (auto simp: History_wf_def H_def)
    have "recent r ! m = mHistory r ! (mHistoryIndex r - H + m)"
      using m b unfolding recent_def H_def [symmetric] by simp
    moreover have "drop (lt - H) tape ! m = tape ! (lt - H + m)"
      using m \<open>H \<le> lt\<close> by (simp add: lt_def)
    ultimately show "mHistory r ! (mHistoryIndex r - H + m) = tape ! (lt - H + m)"
      using rc by simp
  qed
  from IR_Process_concrete [OF wf nc blk sz] obtain ptrs r' ring j where
    proc: "IR_Process inputs nc nf r = Returns ptrs r'"
    and wf': "IR_wf r'" and same: "mWeight r' = mWeight r" "mHistoryRequired r' = H"
      "mHistory r' = ring" "mHistoryIndex r' = j + nf"
    and j: "H \<le> j" "j + nf \<le> length ring"
    and len: "length ring = (if grown then need else length (mHistory r))"
    and o: "\<forall>i<H. ring ! (j - H + i) = (if grown then 0 else mHistory r ! (mHistoryIndex r - H + i))"
    and n: "\<forall>i<nf. ring ! (j + i) = inputs ! 0 ! i"
    and dr: "\<forall>c<nc. \<forall>s<nf. deref r' ptrs c s = Some (dot (mWeight r) (take (H + 1) (drop (j - H + s) ring)))"
    unfolding H_def [symmetric] need_def [symmetric] grown_def [symmetric] by blast
  have reg: "\<forall>m<H + nf. ring ! (j - H + m) = tb ! (lt - H + m)"
  proof (intro allI impI)
    fix m assume m: "m < H + nf"
    show "ring ! (j - H + m) = tb ! (lt - H + m)"
    proof (cases "m < H")
      case True
      then have "lt - H + m < length tape"
        using Hlt by (simp add: lt_def)
      then have "tb ! (lt - H + m) = tape ! (lt - H + m)"
        unfolding tb_def by (rule nth_append_left)
      moreover have "ring ! (j - H + m) = tape ! (lt - H + m)"
      proof (cases grown)
        case True
        with o \<open>m < H\<close> have "ring ! (j - H + m) = 0" by simp
        moreover have "tape ! (lt - H + m) = 0"
          using True \<open>m < H\<close> by (simp add: tape_def lt_def)
        ultimately show ?thesis by simp
      next
        case False
        with o \<open>m < H\<close> have "ring ! (j - H + m) = mHistory r ! (mHistoryIndex r - H + m)" by simp
        with old [OF False \<open>m < H\<close>] show ?thesis by simp
      qed
      ultimately show ?thesis by simp
    next
      case False
      then have e1: "j - H + m = j + (m - H)" using j(1) by simp
      have e2: "lt - H + m = lt + (m - H)" using False Hlt by simp
      have "m - H < nf" using m False by simp
      with n have "ring ! (j + (m - H)) = inputs ! 0 ! (m - H)" by simp
      moreover have "tb ! (lt + (m - H)) = block ! (m - H)"
        by (simp add: tb_def lt_def)
      moreover have "block ! (m - H) = inputs ! 0 ! (m - H)"
        using \<open>m - H < nf\<close> by (simp add: block_def)
      ultimately show ?thesis unfolding e1 e2 by simp
    qed
  qed
  have ltb: "length tb = lt + nf" by (simp add: tb_def lt_def nfb)
  have fit: "j - H + H + nf \<le> length ring" using j by simp
  have win: "take (H + 1) (drop (j - H + s) ring) = take (H + 1) (drop (lt - H + s) tb)" if "s < nf" for s
    using reg Hlt ltb fit that by (rule window_eq)
  have "read_block r' ptrs nc nf
      = replicate nc (map Some (map (\<lambda>i. dot (mWeight r) (take (H + 1) (drop (lt - H + i) tb))) [0..<nf]))"
    unfolding read_block_def
  proof (rule map_upt_const)
    fix c assume "c < nc"
    with dr win show "map (deref r' ptrs c) [0..<nf]
        = map Some (map (\<lambda>i. dot (mWeight r) (take (H + 1) (drop (lt - H + i) tb))) [0..<nf])"
      by simp
  qed
  moreover have "same_history r' (if grown then need else length (mHistory r), tb)"
  proof -
    have "take H (drop (j - H + nf) ring) = drop (length tb - H) tb"
      using reg Hlt ltb fit by (rule recent_eq)
    moreover have "j - H + nf = j + nf - H" using j(1) by simp
    ultimately have "recent r' = drop (length tb - H) tb"
      unfolding recent_def same by simp
    moreover have "H \<le> length tb" using Hlt ltb by simp
    ultimately show ?thesis
      unfolding same_history_def using same len by simp
  qed
  ultimately show ?thesis
    using proc wf' same(1) unfolding block_def [symmetric] nr by simp
qed

lemma IR_run_refines:
  fixes r :: "(real, 'z) ImpulseResponse_scheme"
  assumes "IR_wf r" "same_history r st" "calls_ok calls"
  shows "\<exists>r'. IR_run calls r = Returns (norewind_run (mWeight r) calls st) r' \<and> IR_wf r'"
  using assms
proof (induction calls arbitrary: r st)
  case Nil
  then show ?case by simp
next
  case (Cons call calls)
  obtain inputs nc nf where call: "call = (inputs, nc, nf)" by (cases call)
  from Cons.prems(3) have ok: "1 \<le> nc" "block_ok inputs nc nf" "calls_ok calls"
    and sz: "10 * nf \<le> max_size"
    by (simp_all add: calls_ok_def call)
  let ?res = "norewind_Process (mWeight r) (take nf (inputs ! 0)) st"
  from IR_Process_step [OF Cons.prems(1,2) ok(1,2) sz] obtain ptrs r1 where
    p: "IR_Process inputs nc nf r = Returns ptrs r1" "IR_wf r1" "mWeight r1 = mWeight r"
       "same_history r1 (snd ?res)"
       "read_block r1 ptrs nc nf = replicate nc (map Some (fst ?res))"
    by blast
  from Cons.IH [OF p(2,4) ok(3)] obtain r2 where
    q: "IR_run calls r1 = Returns (norewind_run (mWeight r1) calls (snd ?res)) r2" "IR_wf r2"
    by blast
  show ?case
    unfolding call using p q by (simp add: Let_def)
qed

text \<open>
  Claim C3. Fed block by block, the impulse response engine returns the outputs of the
  reference that never rewinds (\<open>norewind_run\<close>); and \<open>_RewindHistory\<close> leaves the
  \<open>mHistoryRequired\<close> most recent samples at positions \<open>0 .. H - 1\<close> of the ring, in order,
  with the cursor at \<open>H\<close>, so the windows \<open>Process\<close> reads are the same.
\<close>

theorem IR_history_continuity:
  fixes r :: "(real, 'z) ImpulseResponse_scheme" and h :: "('a, 'y) History_scheme"
  shows "(IR_wf r \<and> same_history r st \<and> calls_ok calls \<longrightarrow>
            (\<exists>r'. IR_run calls r = Returns (norewind_run (mWeight r) calls st) r')) \<and>
         (mHistoryRequired h \<le> mHistoryIndex h \<and> mHistoryIndex h \<le> length (mHistory h) \<longrightarrow>
            (\<exists>h'. RewindHistory h = Returns () h' \<and>
                   mHistoryIndex h' = mHistoryRequired h \<and>
                   mHistoryRequired h' = mHistoryRequired h \<and>
                   length (mHistory h') = length (mHistory h) \<and>
                   take (mHistoryRequired h) (mHistory h') = recent h \<and>
                   recent h' = recent h))"
proof (intro conjI impI)
  assume "IR_wf r \<and> same_history r st \<and> calls_ok calls"
  then show "\<exists>r'. IR_run calls r = Returns (norewind_run (mWeight r) calls st) r'"
    using IR_run_refines [of r st calls] by blast
next
  assume a: "mHistoryRequired h \<le> mHistoryIndex h \<and> mHistoryIndex h \<le> length (mHistory h)"
  then have "mHistoryRequired h \<le> mHistoryIndex h" "mHistoryIndex h \<le> length (mHistory h)"
    by simp_all
  from RewindHistory_spec [OF this] obtain ring where
    r: "RewindHistory h = Returns () (h\<lparr>mHistory := ring, mHistoryIndex := mHistoryRequired h\<rparr>)"
       "length ring = length (mHistory h)" "take (mHistoryRequired h) ring = recent h"
    by blast
  have "recent (h\<lparr>mHistory := ring, mHistoryIndex := mHistoryRequired h\<rparr>) = recent h"
    using r(3) by (simp add: recent_def)
  with r show "\<exists>h'. RewindHistory h = Returns () h' \<and>
                   mHistoryIndex h' = mHistoryRequired h \<and>
                   mHistoryRequired h' = mHistoryRequired h \<and>
                   length (mHistory h') = length (mHistory h) \<and>
                   take (mHistoryRequired h) (mHistory h') = recent h \<and>
                   recent h' = recent h"
    by simp
qed

theorem IR_history_continuity_witness:
  "(\<exists>r'. IR_run [([[1]], 1, 1), ([[2]], 1, 1), ([[3]], 1, 1), ([[4]], 1, 1), ([[5]], 1, 1),
                  ([[6]], 1, 1), ([[7]], 1, 1), ([[8]], 1, 1), ([[9]], 1, 1), ([[10]], 1, 1)]
          (\<lparr>mOutputs = [], mOutputPointers = None, mOutputPointersSize = 0,
            mHistoryRequired = 1, mHistoryIndex = 0, mHistory = [],
            mWavState = SUCCESS, mRawAudio = [1, 2], mRawAudioSampleRate = 48000,
            mResampled = [1, 2], ir_mSampleRate = 48000, mWeight = [2, 1]\<rparr> :: real ImpulseResponse)
        = Returns [[[Some 1]], [[Some 4]], [[Some 7]], [[Some 10]], [[Some 13]],
                   [[Some 16]], [[Some 19]], [[Some 22]], [[Some 25]], [[Some 28]]] r') \<and>
   RewindHistory (History_new\<lparr>mHistoryRequired := 2, mHistoryIndex := 5, mHistory := [1, 2, 3, 4, 5, 6]\<rparr>)
     = Returns () (History_new\<lparr>mHistoryRequired := 2, mHistoryIndex := 2, mHistory := [4, 5, 3, 4, 5, 6]\<rparr>)"
proof -
  let ?r = "\<lparr>mOutputs = [], mOutputPointers = None, mOutputPointersSize = 0,
            mHistoryRequired = 1, mHistoryIndex = 0, mHistory = [],
            mWavState = SUCCESS, mRawAudio = [1, 2], mRawAudioSampleRate = 48000,
            mResampled = [1, 2], ir_mSampleRate = 48000, mWeight = [2, 1]\<rparr> :: real ImpulseResponse"
  let ?calls = "[([[1]], 1, 1), ([[2]], 1, 1), ([[3]], 1, 1), ([[4]], 1, 1), ([[5]], 1, 1),
                  ([[6]], 1, 1), ([[7]], 1, 1), ([[8]], 1, 1), ([[9]], 1, 1), ([[10]], 1, 1)]
                :: (real list list \<times> nat \<times> nat) list"
  let ?h = "History_new\<lparr>mHistoryRequired := 2, mHistoryIndex := 5, mHistory := [1, 2, 3, 4, 5, 6]\<rparr>"
  have wf: "IR_wf ?r"
    by (simp add: IR_wf_def DSP_wf_def History_wf_def mMaxLength_def GetNumFrames_def GetNumChannels_def)
  have sh: "same_history ?r (0, [])" by (simp add: same_history_def)
  have ok: "calls_ok ?calls" by (simp add: calls_ok_def block_ok_def max_size_def)
  have hh: "mHistoryRequired ?h \<le> mHistoryIndex ?h \<and> mHistoryIndex ?h \<le> length (mHistory ?h)"
    by simp
  have nr: "norewind_run (mWeight ?r) ?calls (0, [])
      = [[[Some 1]], [[Some 4]], [[Some 7]], [[Some 10]], [[Some 13]],
         [[Some 16]], [[Some 19]], [[Some 22]], [[Some 25]], [[Some 28]]]"
    by code_simp
  from IR_history_continuity [of ?r "(0, [])" ?calls ?h] wf sh ok hh
  obtain r' h' where
    a: "IR_run ?calls ?r = Returns (norewind_run (mWeight ?r) ?calls (0, [])) r'"
    and b: "RewindHistory ?h = Returns () h'" "mHistoryIndex h' = mHistoryRequired ?h"
      "take (mHistoryRequired ?h) (mHistory h') = recent ?h"
    by blast
  have "RewindHistory ?h
      = Returns () (History_new\<lparr>mHistoryRequired := 2, mHistoryIndex := 2, mHistory := [4, 5, 3, 4, 5, 6]\<rparr>)"
    by (simp add: RewindHistory_def size_t_sub_def copy_back_def nth_opt_def numeral_2_eq_2 History_new_def)
  with a nr show ?thesis by simp
qed

section \<open>The trigger: gain reduction, pass-through and publication\<close>

lemma GetMaxGainReduction_eq:
  "MINIMUM_LOUDNESS_DB < mThreshold p \<Longrightarrow>
   GetMaxGainReduction p = - mRatio p * (mThreshold p - MINIMUM_LOUDNESS_DB)\<^sup>2"
  by (simp add: GetMaxGainReduction_def GetGainReduction_def Let_def power2_eq_square algebra_simps)

lemma GetMaxGainReduction_nonpos:
  "0 < mRatio p \<Longrightarrow> GetMaxGainReduction p \<le> 0"
proof (cases "MINIMUM_LOUDNESS_DB < mThreshold p")
  case True
  assume r: "0 < mRatio p"
  have "0 \<le> (mThreshold p - MINIMUM_LOUDNESS_DB)\<^sup>2" by simp
  with r have "0 \<le> mRatio p * (mThreshold p - MINIMUM_LOUDNESS_DB)\<^sup>2"
    by (intro mult_nonneg_nonneg) simp_all
  then show ?thesis unfolding GetMaxGainReduction_eq [OF True] by simp
next
  case False
  then show ?thesis by (simp add: GetMaxGainReduction_def GetGainReduction_def Let_def)
qed

lemma block_numbers_signs:
  assumes "params_ok t"
  shows "0 \<le> dOpen (block_numbers t)" "dClose (block_numbers t) \<le> 0"
    "maxGainReduction (block_numbers t) = GetMaxGainReduction (mParams t)"
proof -
  from assms have p: "0 < mRatio (mParams t)" "0 < mOpenTime (mParams t)" "0 < mCloseTime (mParams t)"
    "0 < mSampleRate t"
    by (simp_all add: params_ok_def)
  have m: "GetMaxGainReduction (mParams t) \<le> 0" using p(1) by (rule GetMaxGainReduction_nonpos)
  have "0 \<le> (- GetMaxGainReduction (mParams t)) / mOpenTime (mParams t) * (1 / mSampleRate t)"
    using m p by (intro mult_nonneg_nonneg divide_nonneg_pos) simp_all
  then show "0 \<le> dOpen (block_numbers t)" by (simp add: block_numbers_def)
  have "0 \<le> (- GetMaxGainReduction (mParams t)) / mCloseTime (mParams t) * (1 / mSampleRate t)"
    using m p by (intro mult_nonneg_nonneg divide_nonneg_pos) simp_all
  then show "dClose (block_numbers t) \<le> 0" by (simp add: block_numbers_def)
  show "maxGainReduction (block_numbers t) = GetMaxGainReduction (mParams t)"
    by (simp add: block_numbers_def)
qed

lemma clamp_open: "0 \<le> hi \<Longrightarrow> 0 < v \<Longrightarrow> 0 \<le> clamp v 0 hi \<and> clamp v 0 hi \<le> v"
  by (simp add: clamp_def)

lemma clamp_close: "lo \<le> 0 \<Longrightarrow> v < 0 \<Longrightarrow> clamp v lo 0 \<le> 0 \<and> v \<le> clamp v lo 0"
  by (simp add: clamp_def)

lemma gate_step_range:
  assumes o: "0 \<le> dOpen k" and c: "dClose k \<le> 0"
    and m: "maxGainReduction k = GetMaxGainReduction p"
    and neg: "GetMaxGainReduction p \<le> 0"
    and rng: "reduction_in_range p lastGR"
    and step: "gate_step k p x (level, state, lastGR, held) = ((level', state', last', held'), reduction)"
  shows "reduction_in_range p last' \<and> reduction_in_range p reduction \<and> reduction = last'
         \<and> (state = HOLDING \<or> state' = HOLDING \<longrightarrow> reduction = 0)"
proof -
  define lv where "lv = clamp (alpha k * level + beta k * (x * x)) MINIMUM_LOUDNESS_POWER 1000"
  define T where "T = GetGainReduction p (LevelToDB lv)"
  define go where "go = clamp (0.5 * (T - lastGR)) 0 (dOpen k)"
  define gc where "gc = clamp (0.5 * (T - lastGR)) (dClose k) 0"
  define moved where "moved = (if lastGR + gc < GetMaxGainReduction p then GetMaxGainReduction p else lastGR + gc)"
  have gs: "gate_step k p x (level, state, lastGR, held)
      = (if state = HOLDING
         then (if LevelToDB lv < threshold k
               then ((lv, if maxHold k \<le> held + dt k then MOVING else HOLDING, 0, held + dt k), 0)
               else ((lv, HOLDING, 0, 0), 0))
         else if lastGR < T
         then (if 0 \<le> lastGR + go then ((lv, HOLDING, 0, 0), 0)
               else ((lv, MOVING, lastGR + go, held), lastGR + go))
         else if T < lastGR then ((lv, MOVING, moved, held), moved)
         else ((lv, MOVING, lastGR, held), lastGR))"
    by (simp add: gate_step_def Let_def lv_def T_def go_def gc_def moved_def m)
  from rng have r: "GetMaxGainReduction p \<le> lastGR" "lastGR \<le> 0"
    by (simp_all add: reduction_in_range_def)
  have zero: "reduction_in_range p 0" using neg by (simp add: reduction_in_range_def)
  have go: "0 \<le> go" if "lastGR < T"
  proof -
    have "0 < 0.5 * (T - lastGR)" using that by simp
    from clamp_open [OF o this] show ?thesis by (simp add: go_def)
  qed
  have gc: "gc \<le> 0" if "T < lastGR"
  proof -
    have "0.5 * (T - lastGR) < 0" using that by simp
    from clamp_close [OF c this] show ?thesis by (simp add: gc_def)
  qed
  have mv: "reduction_in_range p moved" if "T < lastGR"
    using r gc [OF that] neg by (simp add: reduction_in_range_def moved_def)
  have op: "reduction_in_range p (lastGR + go)" if "lastGR < T" "\<not> 0 \<le> lastGR + go"
    using r go [OF that(1)] that(2) by (simp add: reduction_in_range_def)
  from step [unfolded gs] zero rng mv op show ?thesis
    by (auto split: if_splits)
qed

lemma shaped_GetNumFrames: "shaped d nc nf \<Longrightarrow> 0 < nc \<Longrightarrow> GetNumFrames d = nf"
  by (auto simp: shaped_def GetNumFrames_def GetNumChannels_def list_all_length)

lemma Trigger_wf_shaped:
  assumes "shaped t nc nf"
    and "length (mGainReductionDB t) = nc" "list_all (\<lambda>row. length row = nf) (mGainReductionDB t)"
    and "length (mState t) = nc" "length (mLevel t) = nc" "length (mLastGainReductionDB t) = nc"
    and "length (mTimeHeld t) = nc"
  shows "Trigger_wf t"
proof -
  have d: "DSP_wf t" using assms(1) by (rule shaped_DSP_wf)
  have n: "length (mOutputs t) = nc" using assms(1) by (simp add: shaped_def)
  have "list_all (\<lambda>row. length row = GetNumFrames t) (mGainReductionDB t)"
  proof (cases "nc = 0")
    case True
    with assms(2) show ?thesis by simp
  next
    case False
    then have "GetNumFrames t = nf" using shaped_GetNumFrames [OF assms(1)] by simp
    with assms(3) show ?thesis by simp
  qed
  with d n assms(2,4-7) show ?thesis by (simp add: Trigger_wf_def)
qed

lemma Trigger_wf_rows:
  assumes "Trigger_wf t" "shaped t nc nf"
  shows "length (mGainReductionDB t) = nc" "list_all (\<lambda>row. length row = nf) (mGainReductionDB t)"
    "length (mState t) = nc" "length (mLevel t) = nc" "length (mLastGainReductionDB t) = nc"
    "length (mTimeHeld t) = nc"
proof -
  have n: "length (mOutputs t) = nc" using assms(2) by (simp add: shaped_def)
  with assms(1) show "length (mGainReductionDB t) = nc" "length (mState t) = nc" "length (mLevel t) = nc"
    "length (mLastGainReductionDB t) = nc" "length (mTimeHeld t) = nc"
    by (simp_all add: Trigger_wf_def)
  show "list_all (\<lambda>row. length row = nf) (mGainReductionDB t)"
  proof (cases "nc = 0")
    case True
    with \<open>length (mGainReductionDB t) = nc\<close> show ?thesis by simp
  next
    case False
    then have "GetNumFrames t = nf" using shaped_GetNumFrames [OF assms(2)] by simp
    with assms(1) show ?thesis by (simp add: Trigger_wf_def)
  qed
qed

lemma Trigger_PrepareBuffers_spec:
  fixes t :: "(real, 'z) Trigger_scheme"
  assumes wf: "Trigger_wf t"
  shows "\<exists>t'. Trigger_PrepareBuffers nc nf t = Returns () t' \<and> Trigger_wf t' \<and> shaped t' nc nf
           \<and> mParams t' = mParams t \<and> mSampleRate t' = mSampleRate t
           \<and> mGainListeners t' = mGainListeners t
           \<and> (GetMaxGainReduction (mParams t) \<le> 0 \<longrightarrow>
                nc \<noteq> length (mOutputs t) \<or>
                list_all (reduction_in_range (mParams t)) (mLastGainReductionDB t) \<longrightarrow>
                list_all (reduction_in_range (mParams t)) (mLastGainReductionDB t'))"
proof -
  let ?mx = "GetMaxGainReduction (mParams t)"
  from wf have dwf: "DSP_wf t" by (simp add: Trigger_wf_def)
  from PrepareBuffers_shaped [OF dwf, of nc nf] obtain o1 p1 where
    pb: "PrepareBuffers nc nf t = Returns () (t\<lparr>mOutputs := o1, mOutputPointers := p1, mOutputPointersSize := nc\<rparr>)"
    and sh1: "shaped (t\<lparr>mOutputs := o1, mOutputPointers := p1, mOutputPointersSize := nc\<rparr>) nc nf"
    by blast
  let ?t1 = "t\<lparr>mOutputs := o1, mOutputPointers := p1, mOutputPointersSize := nc\<rparr>"
  show ?thesis
  proof (cases "nc \<noteq> length (mOutputs t)")
    case chan: True
    let ?t' = "?t1\<lparr>mGainReductionDB := map (\<lambda>row. replicate nf ?mx) (resize nc [] (mGainReductionDB t)),
                   mLastGainReductionDB := replicate nc ?mx,
                   mState := replicate nc MOVING,
                   mLevel := replicate nc MINIMUM_LOUDNESS_POWER,
                   mTimeHeld := replicate nc 0\<rparr>"
    have eq: "Trigger_PrepareBuffers nc nf t = Returns () ?t'"
      using chan by (simp add: Trigger_PrepareBuffers_def Let_def pb GetNumChannels_def)
    have sh: "shaped ?t' nc nf" using sh1 by (simp add: shaped_def)
    have "Trigger_wf ?t'"
      using sh by (rule Trigger_wf_shaped) (simp_all add: list_all_length)
    moreover have "?mx \<le> 0 \<longrightarrow> list_all (reduction_in_range (mParams t)) (mLastGainReductionDB ?t')"
      by (simp add: list_all_length reduction_in_range_def)
    ultimately show ?thesis using eq sh by (intro exI [of _ ?t']) simp
  next
    case same: False
    then have n: "length (mOutputs t) = nc" by simp
    show ?thesis
    proof (cases "nf \<noteq> GetNumFrames t")
      case frm: True
      let ?t' = "?t1\<lparr>mGainReductionDB := map (\<lambda>row. replicate nf ?mx) (mGainReductionDB t)\<rparr>"
      have eq: "Trigger_PrepareBuffers nc nf t = Returns () ?t'"
        unfolding Trigger_PrepareBuffers_def Let_def pb obind_simps GetNumChannels_def n
        using frm by simp
      have sh: "shaped ?t' nc nf" using sh1 by (simp add: shaped_def)
      have "Trigger_wf ?t'"
        using sh wf n by (intro Trigger_wf_shaped [of _ nc nf]) (simp_all add: list_all_length Trigger_wf_def)
      with eq sh same show ?thesis by (intro exI [of _ ?t']) simp
    next
      case False
      have eq: "Trigger_PrepareBuffers nc nf t = Returns () ?t1"
        unfolding Trigger_PrepareBuffers_def Let_def pb obind_simps GetNumChannels_def n
        using False by simp
      have rows: "list_all (\<lambda>row. length row = nf) (mGainReductionDB t)"
        using wf False by (simp add: Trigger_wf_def)
      have "Trigger_wf ?t1"
        using sh1 wf n rows by (intro Trigger_wf_shaped [of _ nc nf]) (simp_all add: Trigger_wf_def)
      with eq sh1 same show ?thesis by (intro exI [of _ ?t1]) simp
    qed
  qed
qed

lemma Trigger_loops:
  fixes t :: "(real, 'z) Trigger_scheme"
  assumes wf: "Trigger_wf t" and sh: "shaped t nc nf" and blk: "block_ok inputs nc nf"
    and step: "\<And>x level st lastGR held level' st' last' held' red.
        Q lastGR \<Longrightarrow> gate_step k (mParams t) x (level, st, lastGR, held) = ((level', st', last', held'), red)
          \<Longrightarrow> Q last' \<and> Q red"
    and init: "\<forall>c<nc. Q (mLastGainReductionDB t ! c)"
  shows "\<exists>lev sta las hel mat.
           for_loop nc (\<lambda>c. for_loop nf (Trigger_frame inputs k c)) t
             = Returns () (t\<lparr>mLevel := lev, mState := sta, mLastGainReductionDB := las,
                             mTimeHeld := hel, mGainReductionDB := mat\<rparr>)
           \<and> length lev = nc \<and> length sta = nc \<and> length las = nc \<and> length hel = nc
           \<and> length mat = nc \<and> (\<forall>c<nc. length (mat ! c) = nf)
           \<and> (\<forall>c<nc. Q (las ! c)) \<and> (\<forall>c<nc. \<forall>s<nf. Q (mat ! c ! s))"
proof -
  define ok where "ok lev sta las hel mat \<longleftrightarrow>
      length lev = nc \<and> length sta = nc \<and> length las = nc \<and> length hel = nc \<and> length mat = nc
      \<and> (\<forall>c<nc. length (mat ! c) = nf) \<and> (\<forall>c<nc. Q (las ! c))"
    for lev :: "real list" and sta :: "State list" and las hel :: "real list" and mat :: "real list list"
  define Iin where "Iin c s u \<longleftrightarrow> (\<exists>lev sta las hel mat.
      u = t\<lparr>mLevel := lev, mState := sta, mLastGainReductionDB := las, mTimeHeld := hel, mGainReductionDB := mat\<rparr>
      \<and> ok lev sta las hel mat
      \<and> (\<forall>c'<c. \<forall>s'<nf. Q (mat ! c' ! s')) \<and> (\<forall>s'<s. Q (mat ! c ! s')))" for c s u
  define Iout where "Iout c u \<longleftrightarrow> (\<exists>lev sta las hel mat.
      u = t\<lparr>mLevel := lev, mState := sta, mLastGainReductionDB := las, mTimeHeld := hel, mGainReductionDB := mat\<rparr>
      \<and> ok lev sta las hel mat
      \<and> (\<forall>c'<c. \<forall>s'<nf. Q (mat ! c' ! s')))" for c u
  have inner: "\<exists>u'. Trigger_frame inputs k c s u = Returns () u' \<and> Iin c (Suc s) u'"
    if c: "c < nc" and s: "s < nf" and I: "Iin c s u" for c s u
  proof -
    from I obtain lev sta las hel mat where
      u: "u = t\<lparr>mLevel := lev, mState := sta, mLastGainReductionDB := las, mTimeHeld := hel, mGainReductionDB := mat\<rparr>"
      and ok: "ok lev sta las hel mat"
      and prev: "\<forall>c'<c. \<forall>s'<nf. Q (mat ! c' ! s')" and cur: "\<forall>s'<s. Q (mat ! c ! s')"
      unfolding Iin_def by blast
    from ok have len: "length lev = nc" "length sta = nc" "length las = nc" "length hel = nc"
      "length mat = nc" and rows: "\<forall>c<nc. length (mat ! c) = nf" and q: "\<forall>c<nc. Q (las ! c)"
      unfolding ok_def by blast+
    obtain level' st' last' held' red where
      gs: "gate_step k (mParams t) (inputs ! c ! s) (lev ! c, sta ! c, las ! c, hel ! c)
             = ((level', st', last', held'), red)"
      by (cases "gate_step k (mParams t) (inputs ! c ! s) (lev ! c, sta ! c, las ! c, hel ! c)") auto
    from step [OF _ gs] q c have q': "Q last'" "Q red" by simp_all
    let ?mat = "mat[c := (mat ! c)[s := red]]"
    let ?u' = "t\<lparr>mLevel := lev[c := level'], mState := sta[c := st'],
                  mLastGainReductionDB := las[c := last'], mTimeHeld := hel[c := held'],
                  mGainReductionDB := ?mat\<rparr>"
    have rd: "nth_opt (mLevel u) c = Some (lev ! c)" "nth_opt (mState u) c = Some (sta ! c)"
      "nth_opt (mLastGainReductionDB u) c = Some (las ! c)" "nth_opt (mTimeHeld u) c = Some (hel ! c)"
      "at2 inputs c s = Some (inputs ! c ! s)" "mParams u = mParams t"
      using u len c block_ok_nth [OF blk c s] by (simp_all add: nth_opt_def)
    have wr: "c < length (mGainReductionDB u)" "s < length (mGainReductionDB u ! c)"
      using u len rows c s by simp_all
    have "Trigger_frame inputs k c s u = Returns () ?u'"
      unfolding Trigger_frame_def rd using wr gs u by simp
    moreover have "ok (lev[c := level']) (sta[c := st']) (las[c := last']) (hel[c := held']) ?mat"
      unfolding ok_def
    proof (intro conjI allI impI)
      fix c' assume c': "c' < nc"
      show "length (?mat ! c') = nf"
        using rows c' len by (cases "c' = c") simp_all
      show "Q (las[c := last'] ! c')"
        using q c' len q'(1) by (cases "c' = c") simp_all
    qed (simp_all add: len)
    moreover have "\<forall>c'<c. \<forall>s'<nf. Q (?mat ! c' ! s')"
      using prev by simp
    moreover have "\<forall>s'<Suc s. Q (?mat ! c ! s')"
    proof (intro allI impI)
      fix s' assume "s' < Suc s"
      then show "Q (?mat ! c ! s')"
        using cur q'(2) c s len rows by (cases "s' = s") (simp_all add: less_Suc_eq)
    qed
    ultimately show ?thesis unfolding Iin_def by blast
  qed
  have outer: "\<exists>u'. for_loop nf (Trigger_frame inputs k c) u = Returns () u' \<and> Iout (Suc c) u'"
    if c: "c < nc" and I: "Iout c u" for c u
  proof -
    have "Iin c 0 u" using I unfolding Iin_def Iout_def by auto
    from for_loop_total [where I = "Iin c" and body = "Trigger_frame inputs k c" and n = nf, OF this]
      inner [OF c]
    obtain u' where u': "for_loop nf (Trigger_frame inputs k c) u = Returns () u'" "Iin c nf u'"
      by blast
    from u'(2) obtain lev sta las hel mat where
      a: "u' = t\<lparr>mLevel := lev, mState := sta, mLastGainReductionDB := las, mTimeHeld := hel, mGainReductionDB := mat\<rparr>"
         "ok lev sta las hel mat" "\<forall>c'<c. \<forall>s'<nf. Q (mat ! c' ! s')" "\<forall>s'<nf. Q (mat ! c ! s')"
      unfolding Iin_def by blast
    from a(3,4) have "\<forall>c'<Suc c. \<forall>s'<nf. Q (mat ! c' ! s')"
      by (simp add: less_Suc_eq)
    with a(1,2) have "Iout (Suc c) u'" unfolding Iout_def by blast
    with u'(1) show ?thesis by blast
  qed
  have "Iout 0 t"
    unfolding Iout_def ok_def
    using Trigger_wf_rows [OF wf sh] init
    by (intro exI [of _ "mLevel t"] exI [of _ "mState t"] exI [of _ "mLastGainReductionDB t"]
        exI [of _ "mTimeHeld t"] exI [of _ "mGainReductionDB t"]) (simp add: list_all_length)
  from for_loop_total [where I = Iout and body = "\<lambda>c. for_loop nf (Trigger_frame inputs k c)" and n = nc,
      OF this outer]
  obtain u' where u': "for_loop nc (\<lambda>c. for_loop nf (Trigger_frame inputs k c)) t = Returns () u'"
    "Iout nc u'" by blast
  then show ?thesis unfolding Iout_def ok_def by blast
qed

lemma Trigger_compute_spec:
  fixes t :: "(real, 'z) Trigger_scheme"
  assumes wf: "Trigger_wf t" and blk: "block_ok inputs nc nf"
  shows "\<exists>t'. Trigger_compute inputs nc nf t = Returns () t' \<and> Trigger_wf t' \<and> shaped t' nc nf
           \<and> mParams t' = mParams t \<and> mSampleRate t' = mSampleRate t
           \<and> mGainListeners t' = mGainListeners t
           \<and> (params_ok t \<and> (nc \<noteq> length (mOutputs t) \<or>
                 list_all (reduction_in_range (mParams t)) (mLastGainReductionDB t)) \<longrightarrow>
                list_all (reduction_in_range (mParams t)) (mLastGainReductionDB t') \<and>
                (\<forall>c<nc. \<forall>s<nf. reduction_in_range (mParams t) (mGainReductionDB t' ! c ! s)))"
proof -
  define good where "good \<longleftrightarrow> params_ok t \<and> (nc \<noteq> length (mOutputs t) \<or>
                 list_all (reduction_in_range (mParams t)) (mLastGainReductionDB t))"
  define Q where "Q g \<longleftrightarrow> (good \<longrightarrow> reduction_in_range (mParams t) g)" for g
  from Trigger_PrepareBuffers_spec [OF wf, of nc nf] obtain t1 where
    pb: "Trigger_PrepareBuffers nc nf t = Returns () t1" and wf1: "Trigger_wf t1" and sh1: "shaped t1 nc nf"
    and same: "mParams t1 = mParams t" "mSampleRate t1 = mSampleRate t" "mGainListeners t1 = mGainListeners t"
    and rng: "GetMaxGainReduction (mParams t) \<le> 0 \<longrightarrow>
                nc \<noteq> length (mOutputs t) \<or>
                list_all (reduction_in_range (mParams t)) (mLastGainReductionDB t) \<longrightarrow>
                list_all (reduction_in_range (mParams t)) (mLastGainReductionDB t1)"
    by blast
  have neg: "GetMaxGainReduction (mParams t) \<le> 0" if good
    using that by (intro GetMaxGainReduction_nonpos) (simp add: good_def params_ok_def)
  have pok1: "params_ok t1" if good
    using that same by (simp add: good_def params_ok_def)
  have step: "Q last' \<and> Q red"
    if "Q lastGR"
      "gate_step (block_numbers t1) (mParams t1) x (level, st, lastGR, held) = ((level', st', last', held'), red)"
    for x level st lastGR held level' st' last' held' red
  proof (cases good)
    case True
    from block_numbers_signs [OF pok1 [OF True]] have
      s: "0 \<le> dOpen (block_numbers t1)" "dClose (block_numbers t1) \<le> 0"
         "maxGainReduction (block_numbers t1) = GetMaxGainReduction (mParams t)"
      by (simp_all add: same)
    from that(1) True have "reduction_in_range (mParams t) lastGR" by (simp add: Q_def)
    from gate_step_range [OF s neg [OF True] this that(2) [unfolded same]]
    show ?thesis by (simp add: Q_def)
  next
    case False
    then show ?thesis by (simp add: Q_def)
  qed
  have len1: "length (mLastGainReductionDB t1) = nc" using Trigger_wf_rows [OF wf1 sh1] by simp
  have init: "\<forall>c<nc. Q (mLastGainReductionDB t1 ! c)"
  proof (cases good)
    case True
    with rng neg have "list_all (reduction_in_range (mParams t)) (mLastGainReductionDB t1)"
      by (simp add: good_def)
    with len1 show ?thesis by (simp add: list_all_length Q_def)
  next
    case False
    then show ?thesis by (simp add: Q_def)
  qed
  have "\<exists>lev sta las hel mat.
           for_loop nc (\<lambda>c. for_loop nf (Trigger_frame inputs (block_numbers t1) c)) t1
             = Returns () (t1\<lparr>mLevel := lev, mState := sta, mLastGainReductionDB := las,
                             mTimeHeld := hel, mGainReductionDB := mat\<rparr>)
           \<and> length lev = nc \<and> length sta = nc \<and> length las = nc \<and> length hel = nc
           \<and> length mat = nc \<and> (\<forall>c<nc. length (mat ! c) = nf)
           \<and> (\<forall>c<nc. Q (las ! c)) \<and> (\<forall>c<nc. \<forall>s<nf. Q (mat ! c ! s))"
    by (rule Trigger_loops [where Q = Q and k = "block_numbers t1", OF wf1 sh1 blk _ init])
      (rule step; assumption)
  then obtain lev sta las hel mat where
    lp: "for_loop nc (\<lambda>c. for_loop nf (Trigger_frame inputs (block_numbers t1) c)) t1
             = Returns () (t1\<lparr>mLevel := lev, mState := sta, mLastGainReductionDB := las,
                             mTimeHeld := hel, mGainReductionDB := mat\<rparr>)"
    and len: "length lev = nc" "length sta = nc" "length las = nc" "length hel = nc" "length mat = nc"
    and rows: "\<forall>c<nc. length (mat ! c) = nf"
    and q: "\<forall>c<nc. Q (las ! c)" "\<forall>c<nc. \<forall>s<nf. Q (mat ! c ! s)"
    by blast
  let ?t' = "t1\<lparr>mLevel := lev, mState := sta, mLastGainReductionDB := las,
                 mTimeHeld := hel, mGainReductionDB := mat\<rparr>"
  have eq: "Trigger_compute inputs nc nf t = Returns () ?t'"
    unfolding Trigger_compute_def pb obind_simps lp ..
  have sh: "shaped ?t' nc nf" using sh1 by (simp add: shaped_def)
  have wf': "Trigger_wf ?t'"
    using sh by (rule Trigger_wf_shaped) (simp_all add: len rows list_all_length)
  have "good \<longrightarrow> list_all (reduction_in_range (mParams t)) (mLastGainReductionDB ?t') \<and>
                (\<forall>c<nc. \<forall>s<nf. reduction_in_range (mParams t) (mGainReductionDB ?t' ! c ! s))"
    using q len by (simp add: Q_def list_all_length)
  with eq sh wf' same show ?thesis
    unfolding good_def by (intro exI [of _ ?t']) simp
qed

lemma notify_loop:
  assumes alive: "list_all (\<lambda>a. gains w a \<noteq> None) (mGainListeners (trig w))"
    and n: "n \<le> length (mGainListeners (trig w))"
  shows "\<exists>G. for_loop n notify w = Returns () (w\<lparr>gains := G\<rparr>)
           \<and> (\<forall>a. G a = (if a \<in> set (take n (mGainListeners (trig w)))
                          then map_option (SetGainReductionDB (mGainReductionDB (trig w))) (gains w a)
                          else gains w a))"
  using n
proof (induction n)
  case 0
  have "w = w\<lparr>gains := gains w\<rparr>" by simp
  then show ?case by (intro exI [of _ "gains w"]) simp
next
  case (Suc n)
  let ?ls = "mGainListeners (trig w)" and ?M = "mGainReductionDB (trig w)"
  from Suc obtain G where
    G: "for_loop n notify w = Returns () (w\<lparr>gains := G\<rparr>)"
       "\<forall>a. G a = (if a \<in> set (take n ?ls) then map_option (SetGainReductionDB ?M) (gains w a) else gains w a)"
    by auto
  from Suc.prems have n: "n < length ?ls" by simp
  let ?a = "?ls ! n"
  from alive n have "gains w ?a \<noteq> None" by (simp add: list_all_length)
  then obtain g0 where g0: "gains w ?a = Some g0" by auto
  define g where "g = (if ?a \<in> set (take n ?ls) then SetGainReductionDB ?M g0 else g0)"
  have Ga: "G ?a = Some g" using G(2) g0 by (simp add: g_def)
  have sg: "SetGainReductionDB ?M g = SetGainReductionDB ?M g0"
    by (simp add: g_def SetGainReductionDB_def)
  let ?G = "G(?a \<mapsto> SetGainReductionDB ?M g)"
  have "notify n (w\<lparr>gains := G\<rparr>) = Returns () (w\<lparr>gains := ?G\<rparr>)"
    using n Ga by (simp add: notify_def nth_opt_def)
  then have "for_loop (Suc n) notify w = Returns () (w\<lparr>gains := ?G\<rparr>)"
    using G(1) by simp
  moreover have "\<forall>a. ?G a = (if a \<in> set (take (Suc n) ?ls)
                          then map_option (SetGainReductionDB ?M) (gains w a) else gains w a)"
    using G(2) n g0 sg by (auto simp: take_Suc_conv_app_nth)
  ultimately show ?case by blast
qed

lemma copy_input_loop:
  fixes d :: "('a, 'z) DSP_scheme"
  assumes shp: "shaped d nc nf" and blk: "block_ok inputs nc nf"
  shows "\<exists>outs. for_loop nc (copy_input inputs nf) d = Returns () (d\<lparr>mOutputs := outs\<rparr>)
           \<and> shaped (d\<lparr>mOutputs := outs\<rparr>) nc nf
           \<and> (\<forall>c<nc. \<forall>s<nf. outs ! c ! s = inputs ! c ! s)"
proof -
  define ok where "ok outs \<longleftrightarrow> length outs = nc \<and> (\<forall>c<nc. length (outs ! c) = nf)" for outs :: "'a list list"
  define I where "I k t \<longleftrightarrow> (\<exists>outs. t = d\<lparr>mOutputs := outs\<rparr> \<and> ok outs
      \<and> (\<forall>c<k. \<forall>s<nf. outs ! c ! s = inputs ! c ! s))" for k t
  have inl: "c < length inputs" "nf \<le> length (inputs ! c)" if "c < nc" for c
  proof -
    from blk that show "c < length inputs" by (simp add: block_ok_def)
    from blk have "\<forall>i<length (take nc inputs). nf \<le> length (take nc inputs ! i)"
      by (simp add: block_ok_def list_all_length)
    with that \<open>c < length inputs\<close> show "nf \<le> length (inputs ! c)" by simp
  qed
  have step: "\<exists>t'. copy_input inputs nf k t = Returns () t' \<and> I (Suc k) t'" if "k < nc" "I k t" for k t
  proof -
    from that(2) obtain outs where o: "t = d\<lparr>mOutputs := outs\<rparr>" "ok outs"
      "\<forall>c<k. \<forall>s<nf. outs ! c ! s = inputs ! c ! s"
      unfolding I_def by blast
    from o(2) that(1) have len: "length outs = nc" "length (outs ! k) = nf"
      and rows: "\<forall>c<nc. length (outs ! c) = nf"
      unfolding ok_def by simp_all
    let ?row = "take nf (inputs ! k) @ drop nf (outs ! k)"
    let ?outs = "outs[k := ?row]"
    have rd: "nth_opt inputs k = Some (inputs ! k)" "nth_opt (mOutputs t) k = Some (outs ! k)"
      using inl(1) [OF that(1)] o(1) len that(1) by (simp_all add: nth_opt_def)
    have "copy_input inputs nf k t = Returns () (d\<lparr>mOutputs := ?outs\<rparr>)"
      unfolding copy_input_def rd using inl(2) [OF that(1)] len o(1) by simp
    moreover have "ok ?outs"
      unfolding ok_def
    proof (intro conjI allI impI)
      fix c assume "c < nc"
      then show "length (?outs ! c) = nf"
        using rows len inl(2) [OF that(1)] by (cases "c = k") simp_all
    qed (simp add: len)
    moreover have "\<forall>c<Suc k. \<forall>s<nf. ?outs ! c ! s = inputs ! c ! s"
    proof (intro allI impI)
      fix c s assume cs: "c < Suc k" "s < nf"
      show "?outs ! c ! s = inputs ! c ! s"
      proof (cases "c = k")
        case True
        then show ?thesis
          using cs(2) len that(1) inl(2) [OF that(1)] by (simp add: nth_append)
      next
        case False
        with cs o(3) show ?thesis by simp
      qed
    qed
    ultimately show ?thesis unfolding I_def by blast
  qed
  have "I 0 d" unfolding I_def ok_def
    using shaped_rows [OF shp] by (intro exI [of _ "mOutputs d"]) simp
  from for_loop_total [where I = I and body = "copy_input inputs nf" and n = nc, OF this step]
  obtain s' where s': "for_loop nc (copy_input inputs nf) d = Returns () s'" "I nc s'" by blast
  then obtain outs where o: "s' = d\<lparr>mOutputs := outs\<rparr>" "ok outs"
    "\<forall>c<nc. \<forall>s<nf. outs ! c ! s = inputs ! c ! s"
    unfolding I_def by blast
  have "shaped (d\<lparr>mOutputs := outs\<rparr>) nc nf"
    using shp o(2) unfolding ok_def by (intro shaped_outputs) simp_all
  with s'(1) o(1,3) show ?thesis by blast
qed

lemma Trigger_Process_spec:
  assumes wf: "world_wf w" and blk: "block_ok inputs nc nf"
  shows "\<exists>ptrs w' t1 outs.
           Trigger_Process inputs nc nf w = Returns ptrs w'
           \<and> Trigger_compute inputs nc nf (trig w) = Returns () t1
           \<and> trig w' = t1\<lparr>mOutputs := outs, mOutputPointers := ptrs\<rparr>
           \<and> world_wf w' \<and> shaped (trig w') nc nf
           \<and> (\<forall>a. gains w' a = (if a \<in> set (mGainListeners (trig w))
                                  then map_option (SetGainReductionDB (mGainReductionDB t1)) (gains w a)
                                  else gains w a))
           \<and> (\<forall>c<nc. \<forall>s<nf. deref (trig w') ptrs c s = Some (inputs ! c ! s))"
proof -
  from wf have twf: "Trigger_wf (trig w)"
    and alive: "list_all (\<lambda>a. gains w a \<noteq> None) (mGainListeners (trig w))"
    by (simp_all add: world_wf_def)
  from Trigger_compute_spec [OF twf blk] obtain t1 where
    cp: "Trigger_compute inputs nc nf (trig w) = Returns () t1" and wf1: "Trigger_wf t1"
    and sh1: "shaped t1 nc nf" and ls: "mGainListeners t1 = mGainListeners (trig w)"
    by blast
  let ?w1 = "w\<lparr>trig := t1\<rparr>"
  have c1: "in_trigger (Trigger_compute inputs nc nf) w = Returns () ?w1"
    by (simp add: in_trigger_def cp)
  have alive1: "list_all (\<lambda>a. gains ?w1 a \<noteq> None) (mGainListeners (trig ?w1))"
    using alive ls by simp
  from notify_loop [OF alive1 order_refl] obtain G where
    nt: "for_loop (length (mGainListeners (trig ?w1))) notify ?w1 = Returns () (?w1\<lparr>gains := G\<rparr>)"
    and G: "\<forall>a. G a = (if a \<in> set (mGainListeners (trig w))
                          then map_option (SetGainReductionDB (mGainReductionDB t1)) (gains w a)
                          else gains w a)"
    using ls by auto
  from copy_input_loop [OF sh1 blk] obtain outs where
    ci: "for_loop nc (copy_input inputs nf) t1 = Returns () (t1\<lparr>mOutputs := outs\<rparr>)"
    and sh2: "shaped (t1\<lparr>mOutputs := outs\<rparr>) nc nf"
    and vals: "\<forall>c<nc. \<forall>s<nf. outs ! c ! s = inputs ! c ! s"
    by blast
  from GetPointers_shaped [OF sh2] obtain ptrs where
    gp: "GetPointers (t1\<lparr>mOutputs := outs\<rparr>) = Returns ptrs (t1\<lparr>mOutputs := outs, mOutputPointers := ptrs\<rparr>)"
    and sh3: "shaped (t1\<lparr>mOutputs := outs, mOutputPointers := ptrs\<rparr>) nc nf"
    and dr: "\<forall>c<nc. \<forall>s<nf. deref (t1\<lparr>mOutputs := outs, mOutputPointers := ptrs\<rparr>) ptrs c s
               = Some (mOutputs (t1\<lparr>mOutputs := outs\<rparr>) ! c ! s)"
    by auto
  let ?t' = "t1\<lparr>mOutputs := outs, mOutputPointers := ptrs\<rparr>"
  let ?w' = "w\<lparr>trig := ?t', gains := G\<rparr>"
  have c3: "in_trigger (\<lambda>t. obind (for_loop nc (copy_input inputs nf) t) (\<lambda>_. GetPointers)) (?w1\<lparr>gains := G\<rparr>)
      = Returns ptrs ?w'"
    by (simp add: in_trigger_def ci gp)
  have proc: "Trigger_Process inputs nc nf w = Returns ptrs ?w'"
    unfolding Trigger_Process_def c1 obind_simps nt c3 ..
  have wf': "Trigger_wf ?t'"
    using sh3 Trigger_wf_rows [OF wf1 sh1] by (intro Trigger_wf_shaped [of _ nc nf]) simp_all
  have "list_all (\<lambda>a. G a \<noteq> None) (mGainListeners (trig w))"
    using alive G by (simp add: list_all_iff)
  with wf' ls have "world_wf ?w'" by (simp add: world_wf_def)
  moreover have "\<forall>c<nc. \<forall>s<nf. deref (trig ?w') ptrs c s = Some (inputs ! c ! s)"
    using dr vals by simp
  ultimately show ?thesis using proc cp sh3 G
    by (intro exI [of _ ptrs] exI [of _ ?w'] exI [of _ t1] exI [of _ outs]) simp
qed

text \<open>
  Claim C5. \<open>Trigger::Process\<close> returns, and the output block read through the returned
  pointers equals the input block, sample for sample, on every channel and frame.
\<close>

theorem Trigger_Process_passes_input:
  assumes "world_wf w" and "block_ok inputs numChannels numFrames"
  shows "\<exists>ptrs w'. Trigger_Process inputs numChannels numFrames w = Returns ptrs w'
           \<and> (\<forall>c<numChannels. \<forall>s<numFrames. deref (trig w') ptrs c s = Some (inputs ! c ! s))"
  using Trigger_Process_spec [OF assms] by blast

text \<open>
  Claim C9. After \<open>Trigger::Process\<close> every subscribed gain holds a copy of the trigger's
  gain-reduction matrix and the other gains are untouched; what a later call computes in
  the trigger, rewriting its own matrix, changes no gain.
\<close>

theorem Trigger_Process_publishes:
  assumes "world_wf w" and "block_ok inputs numChannels numFrames"
  shows "\<exists>ptrs w'. Trigger_Process inputs numChannels numFrames w = Returns ptrs w'
           \<and> mGainListeners (trig w') = mGainListeners (trig w)
           \<and> (\<forall>a \<in> set (mGainListeners (trig w')).
                 \<exists>g. gains w' a = Some g \<and> gain_mGainReductionDB g = mGainReductionDB (trig w'))
           \<and> (\<forall>a. gains w' a = (if a \<in> set (mGainListeners (trig w))
                                  then map_option (SetGainReductionDB (mGainReductionDB (trig w'))) (gains w a)
                                  else gains w a))
           \<and> (\<forall>inputs2 nc2 nf2. holds_after (\<lambda>u. gains u = gains w')
                 (in_trigger (Trigger_compute inputs2 nc2 nf2) w'))"
proof -
  from Trigger_Process_spec [OF assms] obtain ptrs w' t1 outs where
    p: "Trigger_Process inputs numChannels numFrames w = Returns ptrs w'"
    and c: "Trigger_compute inputs numChannels numFrames (trig w) = Returns () t1"
    and t: "trig w' = t1\<lparr>mOutputs := outs, mOutputPointers := ptrs\<rparr>"
    and wf': "world_wf w'"
    and G: "\<forall>a. gains w' a = (if a \<in> set (mGainListeners (trig w))
                                  then map_option (SetGainReductionDB (mGainReductionDB t1)) (gains w a)
                                  else gains w a)"
    by blast
  from Trigger_compute_spec [of "trig w" inputs numChannels numFrames] assms c
  have ls: "mGainListeners t1 = mGainListeners (trig w)" by (auto simp: world_wf_def)
  have M: "mGainReductionDB (trig w') = mGainReductionDB t1" using t by simp
  have ls': "mGainListeners (trig w') = mGainListeners (trig w)" using t ls by simp
  from assms(1) have alive: "\<forall>a\<in>set (mGainListeners (trig w)). gains w a \<noteq> None"
    by (simp add: world_wf_def list_all_iff)
  have pub: "\<forall>a \<in> set (mGainListeners (trig w')).
                 \<exists>g. gains w' a = Some g \<and> gain_mGainReductionDB g = mGainReductionDB (trig w')"
  proof
    fix a assume "a \<in> set (mGainListeners (trig w'))"
    then have a: "a \<in> set (mGainListeners (trig w))" using ls' by simp
    with alive obtain g0 where "gains w a = Some g0" by auto
    with G a have "gains w' a = Some (SetGainReductionDB (mGainReductionDB t1) g0)" by simp
    then show "\<exists>g. gains w' a = Some g \<and> gain_mGainReductionDB g = mGainReductionDB (trig w')"
      using M by (simp add: SetGainReductionDB_def)
  qed
  have fr: "holds_after (\<lambda>u. gains u = gains w') (in_trigger f w')" for f :: "real Trigger \<Rightarrow> (unit, real Trigger) outcome"
    by (cases "f (trig w')") (simp_all add: in_trigger_def)
  from p ls' pub G M fr show ?thesis by simp
qed

lemma gate_step_holding:
  "gate_step k p x (level, state, lastGR, held) = ((level', state', last', held'), reduction)
     \<Longrightarrow> state = HOLDING \<or> state' = HOLDING \<Longrightarrow> reduction = 0"
  by (auto simp: gate_step_def Let_def split: if_splits)

text \<open>
  Claim C2, as the code has it. With positive ratio, open time, close time and sample rate,
  a threshold above \<open>MINIMUM_LOUDNESS_DB\<close>, and the last gain reductions kept from earlier
  calls within \<open>[- ratio * (threshold + 120)\<^sup>2, 0]\<close> (or a call that changes the channel
  count), every gain reduction \<open>Trigger::Process\<close> writes lies in that interval, and so do
  the last gain reductions afterwards. A sample processed in, or ending in, the \<open>HOLDING\<close>
  state gets exactly 0 dB.
\<close>

theorem Trigger_Process_reduction_range:
  assumes "world_wf w" and "block_ok inputs numChannels numFrames"
    and "0 < mRatio (mParams (trig w))" and "MINIMUM_LOUDNESS_DB < mThreshold (mParams (trig w))"
    and "0 < mOpenTime (mParams (trig w))" and "0 < mCloseTime (mParams (trig w))"
    and "0 < mSampleRate (trig w)"
    and "numChannels \<noteq> length (mOutputs (trig w)) \<or>
         list_all (reduction_in_range (mParams (trig w))) (mLastGainReductionDB (trig w))"
  shows "\<exists>ptrs w'. Trigger_Process inputs numChannels numFrames w = Returns ptrs w'
           \<and> (\<forall>c<numChannels. \<forall>s<numFrames.
                 - mRatio (mParams (trig w)) * (mThreshold (mParams (trig w)) - MINIMUM_LOUDNESS_DB)\<^sup>2
                   \<le> mGainReductionDB (trig w') ! c ! s
                 \<and> mGainReductionDB (trig w') ! c ! s \<le> 0)
           \<and> mParams (trig w') = mParams (trig w)
           \<and> length (mOutputs (trig w')) = numChannels
           \<and> list_all (reduction_in_range (mParams (trig w'))) (mLastGainReductionDB (trig w'))
           \<and> (\<forall>k p x level state lastGR held level' state' last' held' reduction.
                 gate_step k p x (level, state, lastGR, held) = ((level', state', last', held'), reduction)
                 \<and> (state = HOLDING \<or> state' = HOLDING) \<longrightarrow> reduction = 0)"
proof -
  let ?p = "mParams (trig w)"
  from Trigger_Process_spec [OF assms(1,2)] obtain ptrs w' t1 outs where
    p: "Trigger_Process inputs numChannels numFrames w = Returns ptrs w'"
    and c: "Trigger_compute inputs numChannels numFrames (trig w) = Returns () t1"
    and t: "trig w' = t1\<lparr>mOutputs := outs, mOutputPointers := ptrs\<rparr>"
    and sh: "shaped (trig w') numChannels numFrames"
    by blast
  have pok: "params_ok (trig w)" using assms(3-7) by (simp add: params_ok_def)
  from assms(1) have twf: "Trigger_wf (trig w)" by (simp add: world_wf_def)
  from Trigger_compute_spec [OF twf assms(2)] c pok assms(8)
  have same: "mParams t1 = ?p"
    and rng: "list_all (reduction_in_range ?p) (mLastGainReductionDB t1)"
      "\<forall>c<numChannels. \<forall>s<numFrames. reduction_in_range ?p (mGainReductionDB t1 ! c ! s)"
    by auto
  have mx: "GetMaxGainReduction ?p = - mRatio ?p * (mThreshold ?p - MINIMUM_LOUDNESS_DB)\<^sup>2"
    using assms(4) by (rule GetMaxGainReduction_eq)
  have "\<forall>c<numChannels. \<forall>s<numFrames.
                 - mRatio ?p * (mThreshold ?p - MINIMUM_LOUDNESS_DB)\<^sup>2 \<le> mGainReductionDB (trig w') ! c ! s
                 \<and> mGainReductionDB (trig w') ! c ! s \<le> 0"
    using rng(2) t unfolding reduction_in_range_def mx by simp
  moreover have "mParams (trig w') = ?p" using t same by simp
  moreover have "list_all (reduction_in_range (mParams (trig w'))) (mLastGainReductionDB (trig w'))"
    using rng(1) t same by simp
  moreover have "length (mOutputs (trig w')) = numChannels" using sh by (simp add: shaped_def)
  moreover have "\<forall>k p x level state lastGR held level' state' last' held' reduction.
                 gate_step k p x (level, state, lastGR, held) = ((level', state', last', held'), reduction)
                 \<and> (state = HOLDING \<or> state' = HOLDING) \<longrightarrow> reduction = 0"
    using gate_step_holding by blast
  ultimately show ?thesis using p by blast
qed

lemma min_power_level: "LevelToDB MINIMUM_LOUDNESS_POWER = - 120"
  by (simp add: LevelToDB_def MINIMUM_LOUDNESS_POWER_def MINIMUM_LOUDNESS_DB_def)

lemma silent_level:
  "clamp (0.5 * MINIMUM_LOUDNESS_POWER + (1 - 0.5) * (0 * 0)) MINIMUM_LOUDNESS_POWER 1000 = MINIMUM_LOUDNESS_POWER"
proof -
  have "0 < MINIMUM_LOUDNESS_POWER" by (simp add: MINIMUM_LOUDNESS_POWER_def)
  then show ?thesis by (simp add: clamp_def)
qed

lemmas trigger_eval =
  Trigger_Process_def in_trigger_def Trigger_compute_def Trigger_PrepareBuffers_def PrepareBuffers_def
  Let_def GetNumChannels_def GetNumFrames_def ResizePointers_def DeallocateOutputPointers_def
  AllocateOutputPointers_def resize_channel_def resize_def nth_opt_def at2_def
  SetSampleRate_def SetParams_def Trigger_new_def Trigger_frame_def gate_step_def block_numbers_def
  GetMaxGainReduction_def GetGainReduction_def MINIMUM_LOUDNESS_DB_def clamp_def
  copy_input_def GetPointers_def set_pointer_def notify_def

theorem Trigger_Process_reduction_counterexample:
  "Trigger_Process [[0]] 1 1 \<lparr>trig = SetSampleRate 20 Trigger_new, gains = Map.empty\<rparr>
     = Returns (Some [Some 0])
         \<lparr>trig = Trigger_new\<lparr>mOutputs := [[0]], mOutputPointers := Some [Some 0], mOutputPointersSize := 1,
            mState := [MOVING], mLevel := [MINIMUM_LOUDNESS_POWER], mGainReductionDB := [[- 5400]],
            mLastGainReductionDB := [- 5400], mSampleRate := 20, mTimeHeld := [0]\<rparr>,
          gains = Map.empty\<rparr> \<and>
   Trigger_Process [[0]] 1 1
     \<lparr>trig = SetParams \<lparr>mTime = 0.05, mThreshold = - 60, mRatio = 1, mOpenTime = 0.002,
                         mHoldTime = 0.050, mCloseTime = 0.050\<rparr>
              (Trigger_new\<lparr>mOutputs := [[0]], mOutputPointers := Some [Some 0], mOutputPointersSize := 1,
                 mState := [MOVING], mLevel := [MINIMUM_LOUDNESS_POWER], mGainReductionDB := [[- 5400]],
                 mLastGainReductionDB := [- 5400], mSampleRate := 20, mTimeHeld := [0]\<rparr>),
      gains = Map.empty\<rparr>
     = Returns (Some [Some 0])
         \<lparr>trig = Trigger_new\<lparr>mOutputs := [[0]], mOutputPointers := Some [Some 0], mOutputPointersSize := 1,
            mParams := \<lparr>mTime = 0.05, mThreshold = - 60, mRatio = 1, mOpenTime = 0.002,
                         mHoldTime = 0.050, mCloseTime = 0.050\<rparr>,
            mState := [MOVING], mLevel := [MINIMUM_LOUDNESS_POWER], mGainReductionDB := [[- 4500]],
            mLastGainReductionDB := [- 4500], mSampleRate := 20, mTimeHeld := [0]\<rparr>,
          gains = Map.empty\<rparr> \<and>
   (- 4500 :: real) < - 1 * (- 60 - MINIMUM_LOUDNESS_DB)\<^sup>2"
  using silent_level min_power_level
  by (simp add: trigger_eval)

lemma example_world_wf:
  "world_wf \<lparr>trig = AddListener 7 (SetSampleRate 20 Trigger_new), gains = [7 \<mapsto> Gain_new]\<rparr>"
  by (simp add: world_wf_def Trigger_wf_def DSP_wf_def AddListener_def SetSampleRate_def Trigger_new_def
      GetNumFrames_def GetNumChannels_def)

theorem Trigger_Process_reduction_range_witness:
  "\<exists>ptrs w'. Trigger_Process [[0.5, - 0.25]] 1 2
                \<lparr>trig = AddListener 7 (SetSampleRate 20 Trigger_new), gains = [7 \<mapsto> Gain_new]\<rparr>
              = Returns ptrs w'
      \<and> - 5400 \<le> mGainReductionDB (trig w') ! 0 ! 0 \<and> mGainReductionDB (trig w') ! 0 ! 0 \<le> 0
      \<and> - 5400 \<le> mGainReductionDB (trig w') ! 0 ! 1 \<and> mGainReductionDB (trig w') ! 0 ! 1 \<le> 0"
proof -
  let ?w = "\<lparr>trig = AddListener 7 (SetSampleRate 20 Trigger_new), gains = [7 \<mapsto> Gain_new]\<rparr>"
  have b: "block_ok [[0.5, - 0.25 :: real]] 1 2" by (simp add: block_ok_def)
  have p: "0 < mRatio (mParams (trig ?w))" "MINIMUM_LOUDNESS_DB < mThreshold (mParams (trig ?w))"
    "0 < mOpenTime (mParams (trig ?w))" "0 < mCloseTime (mParams (trig ?w))" "0 < mSampleRate (trig ?w)"
    "1 \<noteq> length (mOutputs (trig ?w)) \<or>
       list_all (reduction_in_range (mParams (trig ?w))) (mLastGainReductionDB (trig ?w))"
    by (simp_all add: AddListener_def SetSampleRate_def Trigger_new_def MINIMUM_LOUDNESS_DB_def)
  from Trigger_Process_reduction_range [OF example_world_wf b p] obtain ptrs w' where
    r: "Trigger_Process [[0.5, - 0.25]] 1 2 ?w = Returns ptrs w'"
    and g: "\<forall>c<1. \<forall>s<2.
                 - mRatio (mParams (trig ?w)) * (mThreshold (mParams (trig ?w)) - MINIMUM_LOUDNESS_DB)\<^sup>2
                   \<le> mGainReductionDB (trig w') ! c ! s
                 \<and> mGainReductionDB (trig w') ! c ! s \<le> 0"
    by blast
  have m: "- mRatio (mParams (trig ?w)) * (mThreshold (mParams (trig ?w)) - MINIMUM_LOUDNESS_DB)\<^sup>2 = - 5400"
    by (simp add: AddListener_def SetSampleRate_def Trigger_new_def MINIMUM_LOUDNESS_DB_def)
  from g have "- 5400 \<le> mGainReductionDB (trig w') ! 0 ! 0 \<and> mGainReductionDB (trig w') ! 0 ! 0 \<le> 0"
    and "- 5400 \<le> mGainReductionDB (trig w') ! 0 ! 1 \<and> mGainReductionDB (trig w') ! 0 ! 1 \<le> 0"
    unfolding m by simp_all
  with r show ?thesis by blast
qed

theorem Trigger_Process_passes_input_witness:
  "\<exists>ptrs w'. Trigger_Process [[0.5, - 0.25]] 1 2
                \<lparr>trig = AddListener 7 (SetSampleRate 20 Trigger_new), gains = [7 \<mapsto> Gain_new]\<rparr>
              = Returns ptrs w'
      \<and> deref (trig w') ptrs 0 0 = Some 0.5 \<and> deref (trig w') ptrs 0 1 = Some (- 0.25)"
proof -
  let ?w = "\<lparr>trig = AddListener 7 (SetSampleRate 20 Trigger_new), gains = [7 \<mapsto> Gain_new]\<rparr>"
  have b: "block_ok [[0.5, - 0.25 :: real]] 1 2" by (simp add: block_ok_def)
  from Trigger_Process_passes_input [OF example_world_wf b] obtain ptrs w' where
    r: "Trigger_Process [[0.5, - 0.25]] 1 2 ?w = Returns ptrs w'"
    and d: "\<forall>c<1. \<forall>s<2. deref (trig w') ptrs c s = Some ([[0.5, - 0.25]] ! c ! s)"
    by blast
  from d have "deref (trig w') ptrs 0 0 = Some 0.5" "deref (trig w') ptrs 0 1 = Some (- 0.25)"
    by simp_all
  with r show ?thesis by blast
qed

theorem Trigger_Process_publishes_witness:
  "\<exists>ptrs w' g. Trigger_Process [[0]] 1 1
                \<lparr>trig = AddListener 7 (SetSampleRate 20 Trigger_new), gains = [7 \<mapsto> Gain_new]\<rparr>
              = Returns ptrs w'
      \<and> gains w' 7 = Some g \<and> gain_mGainReductionDB g = mGainReductionDB (trig w')
      \<and> mGainReductionDB (trig w') = [[- 5400]]
      \<and> is_returned
           (in_trigger (Trigger_compute [[0]] 1 1)
              (w'\<lparr>trig := SetParams \<lparr>mTime = 0.05, mThreshold = - 60, mRatio = 1, mOpenTime = 0.002,
                                      mHoldTime = 0.050, mCloseTime = 0.050\<rparr> (trig w')\<rparr>))
      \<and> holds_after (\<lambda>u. gains u = gains w' \<and> mGainReductionDB (trig u) = [[- 4500]])
           (in_trigger (Trigger_compute [[0]] 1 1)
              (w'\<lparr>trig := SetParams \<lparr>mTime = 0.05, mThreshold = - 60, mRatio = 1, mOpenTime = 0.002,
                                      mHoldTime = 0.050, mCloseTime = 0.050\<rparr> (trig w')\<rparr>))"
proof -
  let ?w = "\<lparr>trig = AddListener 7 (SetSampleRate 20 Trigger_new), gains = [7 \<mapsto> Gain_new]\<rparr>"
  have b: "block_ok [[0 :: real]] 1 1" by (simp add: block_ok_def)
  from Trigger_Process_publishes [OF example_world_wf b] obtain ptrs w' where
    r: "Trigger_Process [[0]] 1 1 ?w = Returns ptrs w'"
    and l: "mGainListeners (trig w') = mGainListeners (trig ?w)"
    and g: "\<forall>a \<in> set (mGainListeners (trig w')).
                 \<exists>g. gains w' a = Some g \<and> gain_mGainReductionDB g = mGainReductionDB (trig w')"
    by blast
  from l have "7 \<in> set (mGainListeners (trig w'))"
    by (simp add: AddListener_def SetSampleRate_def Trigger_new_def)
  with g obtain g7 where g7: "gains w' 7 = Some g7" "gain_mGainReductionDB g7 = mGainReductionDB (trig w')"
    by blast
  have e: "Trigger_Process [[0]] 1 1 ?w
     = Returns (Some [Some 0])
         \<lparr>trig = Trigger_new\<lparr>mOutputs := [[0]], mOutputPointers := Some [Some 0], mOutputPointersSize := 1,
            mState := [MOVING], mLevel := [MINIMUM_LOUDNESS_POWER], mGainReductionDB := [[- 5400]],
            mLastGainReductionDB := [- 5400], mSampleRate := 20, mTimeHeld := [0], mGainListeners := [7]\<rparr>,
          gains = [7 \<mapsto> SetGainReductionDB [[- 5400]] Gain_new]\<rparr>"
    using silent_level min_power_level
    by (simp add: trigger_eval AddListener_def)
  with r have w': "w' = \<lparr>trig = Trigger_new\<lparr>mOutputs := [[0]], mOutputPointers := Some [Some 0], mOutputPointersSize := 1,
            mState := [MOVING], mLevel := [MINIMUM_LOUDNESS_POWER], mGainReductionDB := [[- 5400]],
            mLastGainReductionDB := [- 5400], mSampleRate := 20, mTimeHeld := [0], mGainListeners := [7]\<rparr>,
          gains = [7 \<mapsto> SetGainReductionDB [[- 5400]] Gain_new]\<rparr>"
    by simp
  have "is_returned
           (in_trigger (Trigger_compute [[0]] 1 1)
              (w'\<lparr>trig := SetParams \<lparr>mTime = 0.05, mThreshold = - 60, mRatio = 1, mOpenTime = 0.002,
                                      mHoldTime = 0.050, mCloseTime = 0.050\<rparr> (trig w')\<rparr>))
      \<and> holds_after (\<lambda>u. gains u = gains w' \<and> mGainReductionDB (trig u) = [[- 4500]])
           (in_trigger (Trigger_compute [[0]] 1 1)
              (w'\<lparr>trig := SetParams \<lparr>mTime = 0.05, mThreshold = - 60, mRatio = 1, mOpenTime = 0.002,
                                      mHoldTime = 0.050, mCloseTime = 0.050\<rparr> (trig w')\<rparr>))"
    unfolding w' using silent_level min_power_level
    by (simp add: trigger_eval)
  moreover have "mGainReductionDB (trig w') = [[- 5400]]" unfolding w' by (simp add: Trigger_new_def)
  ultimately show ?thesis using r g7 by blast
qed

section \<open>The recursive linear filter stores no NaN\<close>

lemma nan_guard_not_nan: "\<not> isnan 0 \<Longrightarrow> \<not> isnan (nan_guard isnan v)"
  by (simp add: nan_guard_def)

lemma add_terms_total:
  assumes "\<forall>i\<in>set idxs. i < length coeffs"
    and "c < length history" and "length (history ! c) = length coeffs"
  shows "\<exists>v. add_terms coeffs history c start idxs out0 = Some v"
  using assms(1)
proof (induction idxs arbitrary: out0)
  case Nil
  show ?case by (simp add: add_terms_def)
next
  case (Cons i idxs)
  then have i: "i < length coeffs" by simp
  then have "0 < length coeffs" by (cases coeffs) simp_all
  then have m: "(start + i) mod length coeffs < length (history ! c)"
    using assms(3) by simp
  have "add_terms coeffs history c start (i # idxs) out0
        = add_terms coeffs history c start idxs (out0 + coeffs ! i * history ! c ! ((start + i) mod length coeffs))"
    using i m assms(2) by (simp add: add_terms_def nth_opt_def at2_def)
  with Cons show ?case by simp
qed

lemma filter_frame_step:
  fixes f :: "('a::{zero,plus,times}, 'z) Filter_scheme"
  assumes inv: "filter_inv isnan f nc nf c s st"
    and c: "c < nc" and s: "s < nf"
    and blk: "block_ok inputs nc nf"
    and z: "\<not> isnan 0"
    and d1: "1 \<le> GetInputDegree f"
  shows "\<exists>st'. filter_frame isnan inputs c s st = Returns () st' \<and> filter_inv isnan f nc nf c (Suc s) st'"
proof -
  obtain is0 os0 t where st: "st = ((is0, os0), t)" by (cases st) auto
  define Di where "Di = GetInputDegree f"
  define Do where "Do = GetOutputDegree f"
  define is1 where "is1 = next_start is0 Di"
  define os1 where "os1 = next_start os0 Do"
  from inv have sh: "shaped t nc nf"
    and ci: "mInputCoefficients t = mInputCoefficients f"
    and co: "mOutputCoefficients t = mOutputCoefficients f"
    and ms: "mInputStart t = mInputStart f" "mOutputStart t = mOutputStart f"
    and li: "length (mInputHistory t) = nc" and lo: "length (mOutputHistory t) = nc"
    and ri: "\<forall>k<nc. length (mInputHistory t ! k) = Di"
    and ro: "\<forall>k<nc. length (mOutputHistory t ! k) = Do"
    and hn: "\<forall>k<nc. \<forall>i<Do. isnan (mOutputHistory t ! k ! i) \<longrightarrow> mOutputHistory t ! k ! i = mOutputHistory f ! k ! i"
    and b0: "is0 \<le> int Di" "os0 \<le> int Do"
    and prev: "\<forall>k<c. \<forall>j<nf. \<not> isnan (mOutputs t ! k ! j)"
    and cur: "\<forall>j<s. \<not> isnan (mOutputs t ! c ! j)"
    unfolding filter_inv_def st Di_def Do_def by simp_all
  have gi: "GetInputDegree t = Di" and go: "GetOutputDegree t = Do"
    using ci co by (simp_all add: GetInputDegree_def GetOutputDegree_def Di_def Do_def)
  have Dpos: "1 \<le> Di" using d1 by (simp add: Di_def)
  have i1: "0 \<le> is1" "is1 < int Di" "is1 \<le> int Di"
    using b0(1) Dpos by (auto simp: is1_def next_start_def)
  have o1: "os1 \<le> int Do" "1 \<le> Do \<Longrightarrow> 0 \<le> os1 \<and> os1 < int Do"
    using b0(2) by (auto simp: os1_def next_start_def)
  define x where "x = inputs ! c ! s"
  have rx: "at2 inputs c s = Some x"
    using block_ok_nth [OF blk c s] by (simp add: x_def)
  define ih where "ih = mInputHistory t ! c"
  define oh where "oh = mOutputHistory t ! c"
  have lih: "length ih = Di" and loh: "length oh = Do"
    using ri ro c by (simp_all add: ih_def oh_def)
  define t1 where "t1 = t\<lparr>mInputHistory := (mInputHistory t)[c := ih[nat is1 := x]]\<rparr>"
  have st1: "store_current_input inputs c s is1 t = Returns () t1"
    using rx li c i1 lih by (simp add: store_current_input_def nth_opt_def ih_def [symmetric] t1_def)
  have g1: "GetInputDegree t1 = Di" "GetOutputDegree t1 = Do"
    using gi go by (simp_all add: t1_def GetInputDegree_def GetOutputDegree_def)
  have lci: "length (mInputCoefficients t1) = Di" and lco: "length (mOutputCoefficients t1) = Do"
    using g1 by (simp_all add: GetInputDegree_def GetOutputDegree_def)
  obtain out1 where out1: "add_terms (mInputCoefficients t1) (mInputHistory t1) c (nat is1) [0..<Di] 0 = Some out1"
    using add_terms_total [of "[0..<Di]" "mInputCoefficients t1" c "mInputHistory t1" "nat is1" 0] lci lih li c
    by (auto simp: t1_def)
  obtain out2 where out2: "add_terms (mOutputCoefficients t1) (mOutputHistory t1) c (nat os1) [1..<Do] out1 = Some out2"
    using add_terms_total [of "[1..<Do]" "mOutputCoefficients t1" c "mOutputHistory t1" "nat os1" out1] lco loh lo c
    by (auto simp: t1_def oh_def)
  have acc: "accumulate t1 c (nat is1) (nat os1) = Some out2"
    using out1 out2 by (simp add: accumulate_def g1)
  define v where "v = nan_guard isnan out2"
  have vn: "\<not> isnan v" using z by (simp add: v_def nan_guard_not_nan)
  define oh' where "oh' = (if 1 \<le> Do then (mOutputHistory t)[c := oh[nat os1 := v]] else mOutputHistory t)"
  define t2 where "t2 = t1\<lparr>mOutputHistory := oh', mOutputs := (mOutputs t)[c := (mOutputs t ! c)[s := v]]\<rparr>"
  have rows: "length (mOutputs t) = nc" "\<forall>k<nc. length (mOutputs t ! k) = nf"
    using shaped_rows [OF sh] by blast+
  have so: "store_output c s os1 v t1 = Returns () t2"
  proof (cases "1 \<le> Do")
    case True
    with o1(2) loh have "0 \<le> os1" "nat os1 < length oh" by auto
    then show ?thesis
      unfolding store_output_def g1
      using True rows c s lo
      by (simp add: write_output_def nth_opt_def t1_def t2_def oh'_def oh_def)
  next
    case False
    then show ?thesis
      unfolding store_output_def g1
      using rows c s by (simp add: write_output_def t1_def t2_def oh'_def)
  qed
  have run: "filter_frame isnan inputs c s st = Returns () ((is1, os1), t2)"
    unfolding filter_frame_def st Let_def prod.case gi go
    unfolding is1_def [symmetric] os1_def [symmetric]
    using st1 acc so by (simp add: with_locals_def v_def)
  have sh2: "shaped t2 nc nf"
    using sh rows c s by (auto simp: shaped_def t2_def t1_def list_all_length nth_list_update)
  have "filter_inv isnan f nc nf c (Suc s) ((is1, os1), t2)"
    unfolding filter_inv_def
    using sh2 ci co ms li lo ri ro hn i1 o1 prev cur vn c s rows lih loh
    by (auto simp: t2_def t1_def oh'_def Di_def [symmetric] Do_def [symmetric] nth_list_update
        less_Suc_eq ih_def oh_def)
  with run show ?thesis by blast
qed

lemma filter_frame_effect:
  fixes t :: "('a::{zero,plus,times}, 'z) Filter_scheme"
  assumes "filter_frame isnan inputs c s ((is0, os0), t) = Returns () st'"
  shows "\<exists>t1 acc. fst st' = (next_start is0 (GetInputDegree t), next_start os0 (GetOutputDegree t))
           \<and> store_current_input inputs c s (fst (fst st')) t = Returns () t1
           \<and> accumulate t1 c (nat (fst (fst st'))) (nat (snd (fst st'))) = Some acc
           \<and> at2 (mOutputs (snd st')) c s = Some (if isnan acc then 0 else acc)
           \<and> (1 \<le> GetOutputDegree t
                \<longrightarrow> at2 (mOutputHistory (snd st')) c (nat (snd (fst st'))) = Some (if isnan acc then 0 else acc))"
proof -
  define is1 where "is1 = next_start is0 (GetInputDegree t)"
  define os1 where "os1 = next_start os0 (GetOutputDegree t)"
  from assms have run: "with_locals (is1, os1)
           (obind (store_current_input inputs c s is1 t) (\<lambda>_ f.
              case accumulate f c (nat is1) (nat os1) of
                None \<Rightarrow> Undefined
              | Some out \<Rightarrow> store_output c s os1 (nan_guard isnan out) f)) = Returns () st'"
    unfolding filter_frame_def Let_def prod.case is1_def os1_def .
  then obtain t1 where t1: "store_current_input inputs c s is1 t = Returns () t1"
    by (cases "store_current_input inputs c s is1 t") (simp_all add: with_locals_def)
  from run t1 obtain acc where acc: "accumulate t1 c (nat is1) (nat os1) = Some acc"
    by (cases "accumulate t1 c (nat is1) (nat os1)") (simp_all add: with_locals_def)
  define v where "v = nan_guard isnan acc"
  from run t1 acc obtain t2 where so: "store_output c s os1 v t1 = Returns () t2" and st': "st' = ((is1, os1), t2)"
    by (cases "store_output c s os1 (nan_guard isnan acc) t1") (auto simp: with_locals_def v_def)
  have g1: "GetOutputDegree t1 = GetOutputDegree t"
    using t1 by (auto simp: store_current_input_def GetOutputDegree_def split: option.splits if_splits)
  have outs: "at2 (mOutputs t2) c s = Some v"
    using so by (auto simp: store_output_def write_output_def at2_def nth_opt_def split: option.splits if_splits)
  have hist: "at2 (mOutputHistory t2) c (nat os1) = Some v" if "1 \<le> GetOutputDegree t"
    using so that g1
    by (auto simp: store_output_def write_output_def at2_def nth_opt_def split: option.splits if_splits)
  show ?thesis
    using t1 acc outs hist by (simp add: st' is1_def os1_def v_def nan_guard_def)
qed

lemma filter_loops:
  fixes f :: "('a::{zero,plus,times}, 'z) Filter_scheme"
  assumes init: "filter_inv isnan f nc nf 0 0 ((0, 0), f)"
    and cur: "mInputStart f \<le> int (GetInputDegree f)" "mOutputStart f \<le> int (GetOutputDegree f)"
    and blk: "block_ok inputs nc nf"
    and z: "\<not> isnan 0"
    and d1: "1 \<le> GetInputDegree f"
  shows "\<exists>st'. for_loop nc
              (\<lambda>c st. for_loop nf (filter_frame isnan inputs c)
                         ((mInputStart (snd st), mOutputStart (snd st)), snd st))
              ((0, 0), f) = Returns () st'
           \<and> filter_inv isnan f nc nf nc 0 st'"
proof -
  define Iout where "Iout = (\<lambda>c st. filter_inv isnan f nc nf c 0 st)"
  define body where "body = (\<lambda>c (st :: (int \<times> int) \<times> ('a, 'z) Filter_scheme).
      for_loop nf (filter_frame isnan inputs c) ((mInputStart (snd st), mOutputStart (snd st)), snd st))"
  have step: "\<exists>st'. body c st = Returns () st' \<and> Iout (Suc c) st'" if c: "c < nc" and I: "Iout c st" for c st
  proof -
    obtain l t where st: "st = (l, t)" by (cases st) auto
    define st0 where "st0 = ((mInputStart t, mOutputStart t), t)"
    have i0: "filter_inv isnan f nc nf c 0 st0"
      using I cur unfolding Iout_def st st0_def filter_inv_def by (cases l) simp
    have "\<exists>st'. filter_frame isnan inputs c s u = Returns () st' \<and> filter_inv isnan f nc nf c (Suc s) st'"
      if "s < nf" "filter_inv isnan f nc nf c s u" for s u
      using filter_frame_step [OF that(2) c that(1) blk z d1] .
    from for_loop_total [where I = "filter_inv isnan f nc nf c" and body = "filter_frame isnan inputs c"
        and n = nf, OF i0 this]
    obtain st' where r: "for_loop nf (filter_frame isnan inputs c) st0 = Returns () st'"
      and i: "filter_inv isnan f nc nf c nf st'" by blast
    have "filter_inv isnan f nc nf (Suc c) 0 st'"
      using i unfolding filter_inv_def by (cases st') (auto simp: less_Suc_eq)
    with r show ?thesis by (simp add: body_def st st0_def Iout_def)
  qed
  have "Iout 0 ((0, 0), f)" using init by (simp add: Iout_def)
  from for_loop_total [where I = Iout and body = body and n = nc, OF this step]
  show ?thesis unfolding Iout_def body_def by blast
qed

lemma Filter_PrepareBuffers_spec:
  fixes f0 :: "('a::{zero,plus,times}, 'z) Filter_scheme"
  assumes wf: "Filter_wf f0" and z: "\<not> isnan 0"
  shows "\<exists>f. Filter_PrepareBuffers nc nf f0 = Returns () f
           \<and> filter_inv isnan f nc nf 0 0 ((0, 0), f)
           \<and> mInputCoefficients f = mInputCoefficients f0
           \<and> mOutputCoefficients f = mOutputCoefficients f0
           \<and> mInputStart f = mInputStart f0 \<and> mOutputStart f = mOutputStart f0
           \<and> (\<forall>k<nc. \<forall>i<GetOutputDegree f0. isnan (mOutputHistory f ! k ! i)
                 \<longrightarrow> length (mOutputs f0) = nc \<and> mOutputHistory f ! k ! i = mOutputHistory f0 ! k ! i)"
proof -
  from wf have dwf: "DSP_wf f0" by (simp add: Filter_wf_def)
  from PrepareBuffers_shaped [OF dwf, of nc nf] obtain outs ptrs where
    pb: "PrepareBuffers nc nf f0 = Returns () (f0\<lparr>mOutputs := outs, mOutputPointers := ptrs, mOutputPointersSize := nc\<rparr>)"
    and sh: "shaped (f0\<lparr>mOutputs := outs, mOutputPointers := ptrs, mOutputPointersSize := nc\<rparr>) nc nf"
    by blast
  define f1 where "f1 = f0\<lparr>mOutputs := outs, mOutputPointers := ptrs, mOutputPointersSize := nc\<rparr>"
  show ?thesis
  proof (cases "length (mOutputs f0) = nc")
    case True
    then have r: "Filter_PrepareBuffers nc nf f0 = Returns () f1"
      using pb by (simp add: Filter_PrepareBuffers_def GetNumChannels_def f1_def)
    have "filter_inv isnan f1 nc nf 0 0 ((0, 0), f1)"
      using wf True sh
      by (simp add: filter_inv_def Filter_wf_def f1_def [symmetric] list_all_length)
        (simp add: f1_def GetInputDegree_def GetOutputDegree_def)
    with r True show ?thesis by (simp add: f1_def)
  next
    case False
    define f2 where "f2 = f1\<lparr>mInputHistory := replicate nc (replicate (GetInputDegree f1) 0),
                     mOutputHistory := replicate nc (replicate (GetOutputDegree f1) 0)\<rparr>"
    from False have r: "Filter_PrepareBuffers nc nf f0 = Returns () f2"
      using pb by (simp add: Filter_PrepareBuffers_def GetNumChannels_def f1_def f2_def)
    have sh2: "shaped f2 nc nf" using sh by (simp add: f2_def f1_def shaped_def)
    have g: "GetInputDegree f2 = GetInputDegree f1" "GetOutputDegree f2 = GetOutputDegree f1"
      "GetOutputDegree f1 = GetOutputDegree f0"
      by (simp_all add: f2_def f1_def GetInputDegree_def GetOutputDegree_def)
    have "filter_inv isnan f2 nc nf 0 0 ((0, 0), f2)"
      using sh2 by (simp add: filter_inv_def g) (simp add: f2_def f1_def GetInputDegree_def GetOutputDegree_def)
    moreover have "\<forall>k<nc. \<forall>i<GetOutputDegree f0. \<not> isnan (mOutputHistory f2 ! k ! i)"
      using z by (simp add: f2_def g)
    ultimately show ?thesis using r by (auto simp: f2_def f1_def)
  qed
qed

text \<open>
  Claim C7. A call of the recursive linear filter's \<open>Process\<close> on a well-formed filter with a
  valid input block returns; every sample of the returned output block is not NaN, and an
  entry of the per-channel output history that is NaN after the call was already there
  before it and was not written. In each frame the value accumulated by the recurrence is
  replaced by 0 when it is NaN, and that same value is stored in the output block and, when
  the output degree is at least 1, in the output history at the cursor, from where the
  following frames read it. The only fact used about \<open>isnan\<close> is that 0 is not NaN.
\<close>

theorem Filter_Process_no_NaN:
  fixes f :: "('a::{zero,plus,times}, 'z) Filter_scheme"
  assumes z: "\<not> isnan 0" and wf: "Filter_wf f" and blk: "block_ok inputs nc nf"
  shows "(\<exists>ptrs f'. Filter_Process isnan inputs nc nf f = Returns ptrs f' \<and> Filter_wf f'
            \<and> (\<forall>c<nc. \<forall>s<nf. \<exists>v. deref f' ptrs c s = Some v \<and> \<not> isnan v)
            \<and> (\<forall>c<nc. \<forall>i<GetOutputDegree f. isnan (mOutputHistory f' ! c ! i)
                  \<longrightarrow> length (mOutputs f) = nc \<and> mOutputHistory f' ! c ! i = mOutputHistory f ! c ! i))
       \<and> (\<forall>c s inputStart outputStart (t :: ('a, 'z) Filter_scheme) st'.
            filter_frame isnan inputs c s ((inputStart, outputStart), t) = Returns () st'
            \<longrightarrow> (\<exists>t1 acc.
                   fst st' = (next_start inputStart (GetInputDegree t), next_start outputStart (GetOutputDegree t))
                 \<and> store_current_input inputs c s (fst (fst st')) t = Returns () t1
                 \<and> accumulate t1 c (nat (fst (fst st'))) (nat (snd (fst st'))) = Some acc
                 \<and> at2 (mOutputs (snd st')) c s = Some (if isnan acc then 0 else acc)
                 \<and> (1 \<le> GetOutputDegree t
                      \<longrightarrow> at2 (mOutputHistory (snd st')) c (nat (snd (fst st')))
                            = Some (if isnan acc then 0 else acc))))"
proof (rule conjI)
  from Filter_PrepareBuffers_spec [where isnan = isnan and nc = nc and nf = nf, OF wf z] obtain fp where
    pb: "Filter_PrepareBuffers nc nf f = Returns () fp"
    and init: "filter_inv isnan fp nc nf 0 0 ((0, 0), fp)"
    and eqs: "mInputCoefficients fp = mInputCoefficients f" "mOutputCoefficients fp = mOutputCoefficients f"
      "mInputStart fp = mInputStart f" "mOutputStart fp = mOutputStart f"
    and hp: "\<forall>k<nc. \<forall>i<GetOutputDegree f. isnan (mOutputHistory fp ! k ! i)
                 \<longrightarrow> length (mOutputs f) = nc \<and> mOutputHistory fp ! k ! i = mOutputHistory f ! k ! i"
    by blast
  have deg: "GetInputDegree fp = GetInputDegree f" "GetOutputDegree fp = GetOutputDegree f"
    using eqs by (simp_all add: GetInputDegree_def GetOutputDegree_def)
  have cur: "mInputStart fp \<le> int (GetInputDegree fp)" "mOutputStart fp \<le> int (GetOutputDegree fp)"
    and d1: "1 \<le> GetInputDegree fp"
    using wf eqs deg by (simp_all add: Filter_wf_def)
  from filter_loops [OF init cur blk z d1] obtain st' where
    loop: "for_loop nc
              (\<lambda>c st. for_loop nf (filter_frame isnan inputs c)
                         ((mInputStart (snd st), mOutputStart (snd st)), snd st))
              ((0, 0), fp) = Returns () st'"
    and inv: "filter_inv isnan fp nc nf nc 0 st'"
    by blast
  obtain is1 os1 f1 where st': "st' = ((is1, os1), f1)" by (cases st') auto
  from inv have sh: "shaped f1 nc nf"
    and ci: "mInputCoefficients f1 = mInputCoefficients f"
    and co: "mOutputCoefficients f1 = mOutputCoefficients f"
    and li: "length (mInputHistory f1) = nc" and lo: "length (mOutputHistory f1) = nc"
    and ri: "\<forall>k<nc. length (mInputHistory f1 ! k) = GetInputDegree f"
    and ro: "\<forall>k<nc. length (mOutputHistory f1 ! k) = GetOutputDegree f"
    and hn: "\<forall>k<nc. \<forall>i<GetOutputDegree f. isnan (mOutputHistory f1 ! k ! i)
                \<longrightarrow> mOutputHistory f1 ! k ! i = mOutputHistory fp ! k ! i"
    and b: "is1 \<le> int (GetInputDegree f)" "os1 \<le> int (GetOutputDegree f)"
    and outs: "\<forall>k<nc. \<forall>j<nf. \<not> isnan (mOutputs f1 ! k ! j)"
    unfolding filter_inv_def st' deg eqs by simp_all
  define f2 where "f2 = f1\<lparr>mInputStart := is1, mOutputStart := os1\<rparr>"
  have sh2: "shaped f2 nc nf" using sh by (simp add: f2_def shaped_def)
  from GetPointers_shaped [OF sh2] obtain ptrs where
    gp: "GetPointers f2 = Returns ptrs (f2\<lparr>mOutputPointers := ptrs\<rparr>)"
    and sh3: "shaped (f2\<lparr>mOutputPointers := ptrs\<rparr>) nc nf"
    and dr: "\<forall>c<nc. \<forall>s<nf. deref (f2\<lparr>mOutputPointers := ptrs\<rparr>) ptrs c s = Some (mOutputs f2 ! c ! s)"
    by blast
  define f' where "f' = f2\<lparr>mOutputPointers := ptrs\<rparr>"
  have run: "Filter_Process isnan inputs nc nf f = Returns ptrs f'"
    using pb loop gp by (simp add: Filter_Process_def st' f2_def f'_def)
  have rows: "length (mOutputs f') = nc"
    using shaped_rows [OF sh3] by (simp add: f'_def)
  have "DSP_wf f'" using shaped_DSP_wf [OF sh3] by (simp add: f'_def)
  moreover have "1 \<le> GetInputDegree f" using wf by (simp add: Filter_wf_def)
  ultimately have wf': "Filter_wf f'"
    unfolding Filter_wf_def
    using ci co li lo ri ro b rows
    by (simp add: f'_def f2_def GetInputDegree_def GetOutputDegree_def list_all_length)
  have o: "\<forall>c<nc. \<forall>s<nf. \<exists>v. deref f' ptrs c s = Some v \<and> \<not> isnan v"
    using dr outs by (simp add: f'_def f2_def)
  have h: "\<forall>c<nc. \<forall>i<GetOutputDegree f. isnan (mOutputHistory f' ! c ! i)
                  \<longrightarrow> length (mOutputs f) = nc \<and> mOutputHistory f' ! c ! i = mOutputHistory f ! c ! i"
  proof (intro allI impI)
    fix c i assume c: "c < nc" and i: "i < GetOutputDegree f" and n: "isnan (mOutputHistory f' ! c ! i)"
    have e: "mOutputHistory f' = mOutputHistory f1" by (simp add: f'_def f2_def)
    from hn c i n e have "mOutputHistory f1 ! c ! i = mOutputHistory fp ! c ! i" by simp
    with hp c i n e show "length (mOutputs f) = nc \<and> mOutputHistory f' ! c ! i = mOutputHistory f ! c ! i"
      by simp
  qed
  from run wf' o h
  show "\<exists>ptrs f'. Filter_Process isnan inputs nc nf f = Returns ptrs f' \<and> Filter_wf f'
            \<and> (\<forall>c<nc. \<forall>s<nf. \<exists>v. deref f' ptrs c s = Some v \<and> \<not> isnan v)
            \<and> (\<forall>c<nc. \<forall>i<GetOutputDegree f. isnan (mOutputHistory f' ! c ! i)
                  \<longrightarrow> length (mOutputs f) = nc \<and> mOutputHistory f' ! c ! i = mOutputHistory f ! c ! i)"
    by blast
next
  show "\<forall>c s inputStart outputStart (t :: ('a, 'z) Filter_scheme) st'.
            filter_frame isnan inputs c s ((inputStart, outputStart), t) = Returns () st'
            \<longrightarrow> (\<exists>t1 acc.
                   fst st' = (next_start inputStart (GetInputDegree t), next_start outputStart (GetOutputDegree t))
                 \<and> store_current_input inputs c s (fst (fst st')) t = Returns () t1
                 \<and> accumulate t1 c (nat (fst (fst st'))) (nat (snd (fst st'))) = Some acc
                 \<and> at2 (mOutputs (snd st')) c s = Some (if isnan acc then 0 else acc)
                 \<and> (1 \<le> GetOutputDegree t
                      \<longrightarrow> at2 (mOutputHistory (snd st')) c (nat (snd (fst st')))
                            = Some (if isnan acc then 0 else acc)))"
    using filter_frame_effect by blast
qed

theorem Filter_Process_no_NaN_witness:
  "(\<exists>ptrs f'. Filter_Process is_NaN [[Num 1, NaN, Num 2, Num 4]] 1 4
                 ((Base_new 1 2)\<lparr>mInputCoefficients := [Num 1], mOutputCoefficients := [Num 0, Num (1 / 2)]\<rparr>)
               = Returns ptrs f'
        \<and> Filter_wf f'
        \<and> map (deref f' ptrs 0) [0, 1, 2, 3] = [Some (Num 1), Some (Num 0), Some (Num 2), Some (Num 5)]
        \<and> mOutputHistory f' = [[Num 5, Num 2]])
   \<and> (\<exists>st'. filter_frame is_NaN [[Num 1, NaN, Num 2, Num 4]] 0 1
               ((0, 1), (Base_new 1 2)\<lparr>mOutputs := [[Num 1, Num 7]], mInputCoefficients := [Num 1],
                           mOutputCoefficients := [Num 0, Num (1 / 2)],
                           mInputHistory := [[Num 1]], mOutputHistory := [[Num 3, Num 1]]\<rparr>)
             = Returns () st'
        \<and> fst st' = (0, 0)
        \<and> accumulate ((Base_new 1 2)\<lparr>mOutputs := [[Num 1, Num 7]], mInputCoefficients := [Num 1],
                           mOutputCoefficients := [Num 0, Num (1 / 2)],
                           mInputHistory := [[NaN]], mOutputHistory := [[Num 3, Num 1]]\<rparr>) 0 0 0 = Some NaN
        \<and> at2 (mOutputs (snd st')) 0 1 = Some (Num 0)
        \<and> at2 (mOutputHistory (snd st')) 0 0 = Some (Num 0))"
proof -
  let ?F = "(Base_new 1 2)\<lparr>mInputCoefficients := [Num 1], mOutputCoefficients := [Num 0, Num (1 / 2)]\<rparr>
            :: sample Filter"
  let ?I = "[[Num 1, NaN, Num 2, Num 4]]"
  let ?T = "(Base_new 1 2)\<lparr>mOutputs := [[Num 1, Num 7]], mInputCoefficients := [Num 1],
                           mOutputCoefficients := [Num 0, Num (1 / 2)],
                           mInputHistory := [[Num 1]], mOutputHistory := [[Num 3, Num 1]]\<rparr> :: sample Filter"
  let ?T1 = "(Base_new 1 2)\<lparr>mOutputs := [[Num 1, Num 7]], mInputCoefficients := [Num 1],
                           mOutputCoefficients := [Num 0, Num (1 / 2)],
                           mInputHistory := [[NaN]], mOutputHistory := [[Num 3, Num 1]]\<rparr> :: sample Filter"
  have z: "\<not> is_NaN 0" by (simp add: is_NaN_def zero_sample_def)
  have wf: "Filter_wf ?F"
    by (simp add: Filter_wf_def DSP_wf_def Base_new_def GetInputDegree_def GetOutputDegree_def
        GetNumFrames_def GetNumChannels_def)
  have blk: "block_ok ?I 1 4" by (simp add: block_ok_def)
  note main = Filter_Process_no_NaN [where isnan = is_NaN and inputs = ?I and nc = 1 and nf = 4 and f = ?F, OF z wf blk]
  from main [THEN conjunct1] obtain ptrs f' where run: "Filter_Process is_NaN ?I 1 4 ?F = Returns ptrs f'" and wf': "Filter_wf f'"
    by blast
  have ev: "(case Filter_Process is_NaN ?I 1 4 ?F of
       Returns ptrs f' \<Rightarrow> map (deref f' ptrs 0) [0, 1, 2, 3] = [Some (Num 1), Some (Num 0), Some (Num 2), Some (Num 5)]
                     \<and> mOutputHistory f' = [[Num 5, Num 2]]
     | _ \<Rightarrow> False)"
    by code_simp
  from ev run have vals: "map (deref f' ptrs 0) [0, 1, 2, 3] = [Some (Num 1), Some (Num 0), Some (Num 2), Some (Num 5)]"
    "mOutputHistory f' = [[Num 5, Num 2]]" by simp_all
  have ret: "is_returned (filter_frame is_NaN ?I 0 1 ((0, 1), ?T))"
    by code_simp
  then obtain st' where fr: "filter_frame is_NaN ?I 0 1 ((0, 1), ?T) = Returns () st'"
    by (cases "filter_frame is_NaN ?I 0 1 ((0, 1), ?T)") (simp_all add: is_returned_def)
  from main [THEN conjunct2, rule_format, OF fr] obtain t1 acc where
    l: "fst st' = (next_start 0 (GetInputDegree ?T), next_start 1 (GetOutputDegree ?T))"
    and s1: "store_current_input ?I 0 1 (fst (fst st')) ?T = Returns () t1"
    and ac: "accumulate t1 0 (nat (fst (fst st'))) (nat (snd (fst st'))) = Some acc"
    and o: "at2 (mOutputs (snd st')) 0 1 = Some (if is_NaN acc then 0 else acc)"
    and h: "1 \<le> GetOutputDegree ?T
              \<longrightarrow> at2 (mOutputHistory (snd st')) 0 (nat (snd (fst st'))) = Some (if is_NaN acc then 0 else acc)"
    by blast
  have l': "fst st' = (0, 0)"
    using l by (simp add: next_start_def GetInputDegree_def GetOutputDegree_def)
  have "store_current_input ?I 0 1 0 ?T = Returns () ?T1"
    by (simp add: store_current_input_def at2_def nth_opt_def)
  with s1 l' have t1: "t1 = ?T1" by simp
  have a1: "accumulate ?T1 0 0 0 = Some NaN"
    by code_simp
  with ac t1 l' have "acc = NaN" by simp
  with o h l' have "at2 (mOutputs (snd st')) 0 1 = Some (Num 0)" "at2 (mOutputHistory (snd st')) 0 0 = Some (Num 0)"
    by (simp_all add: is_NaN_def zero_sample_def GetOutputDegree_def)
  with run wf' vals fr l' a1 show ?thesis by (intro conjI exI [of _ ptrs] exI [of _ f'] exI [of _ st']) assumption+
qed

end
